(* ===== verification/Go_Base.thy ===== *)
theory Go_Base
  imports Main "HOL-Library.Word"
begin

text \<open>
  The prelude: what the Go language itself contributes to every component.  Results of
  functions that return an error value or panic, byte slices with their spare capacity,
  big-endian integers, bounded channels with non-blocking send, and the collections of
  facts the component theories share.
\<close>

unbundle bit_operations_syntax

named_theorems result_simps \<open>inversion of \<^theory_text>\<open>andThen\<close> chains\<close>

named_theorems slice_simps \<open>Go slice operations\<close>

type_synonym u8 = "8 word"

type_synonym u16 = "16 word"

type_synonym u32 = "32 word"

type_synonym u64 = "64 word"

section \<open>Results: a value, an error value, or a panic\<close>

datatype ('e, 'a) result = Ok 'a | Err 'e | Panic

fun andThen :: "('e, 'a) result \<Rightarrow> ('a \<Rightarrow> ('e, 'b) result) \<Rightarrow> ('e, 'b) result" where
  "andThen (Ok x) f = f x"
| "andThen (Err e) f = Err e"
| "andThen Panic f = Panic"

fun mapErr :: "('e \<Rightarrow> 'f) \<Rightarrow> ('e, 'a) result \<Rightarrow> ('f, 'a) result" where
  "mapErr g (Ok x) = Ok x"
| "mapErr g (Err e) = Err (g e)"
| "mapErr g Panic = Panic"

lemma andThen_cong [fundef_cong]:
  "m = m' \<Longrightarrow> (\<And>x. m' = Ok x \<Longrightarrow> f x = f' x) \<Longrightarrow> andThen m f = andThen m' f'"
  by (cases m') auto

lemma andThen_eq_Ok [result_simps]: "andThen m f = Ok y \<longleftrightarrow> (\<exists>x. m = Ok x \<and> f x = Ok y)"
  by (cases m) auto

lemma andThen_eq_Panic [result_simps]:
  "andThen m f = Panic \<longleftrightarrow> m = Panic \<or> (\<exists>x. m = Ok x \<and> f x = Panic)"
  by (cases m) auto

lemma andThen_eq_Err [result_simps]:
  "andThen m f = Err e \<longleftrightarrow> m = Err e \<or> (\<exists>x. m = Ok x \<and> f x = Err e)"
  by (cases m) auto

lemma mapErr_eq_Ok [result_simps]: "mapErr g m = Ok y \<longleftrightarrow> m = Ok y"
  by (cases m) auto

lemma mapErr_eq_Panic [result_simps]: "mapErr g m = Panic \<longleftrightarrow> m = Panic"
  by (cases m) auto

lemma mapErr_eq_Err [result_simps]: "mapErr g m = Err e \<longleftrightarrow> (\<exists>e'. m = Err e' \<and> e = g e')"
  by (cases m) auto

section \<open>Slices\<close>

text \<open>
  A Go slice shows \<open>len\<close> elements of a backing array and may be re-sliced up to its
  capacity: \<open>elems\<close> are the visible elements, \<open>spare\<close> the elements of the backing array
  between the length and the capacity.  \<open>s[i:j]\<close> is legal when \<open>i \<le> j \<le> cap(s)\<close> and
  panics otherwise; the bound is the capacity, not the length.
\<close>

record 'a slice =
  elems :: "'a list"
  spare :: "'a list"

definition slen :: "'a slice \<Rightarrow> nat" where
  "slen s = length (elems s)"

definition scap :: "'a slice \<Rightarrow> nat" where
  "scap s = length (elems s) + length (spare s)"

definition mk_slice :: "'a list \<Rightarrow> 'a slice" where
  "mk_slice xs = \<lparr>elems = xs, spare = []\<rparr>"

definition reslice :: "'a slice \<Rightarrow> nat \<Rightarrow> nat \<Rightarrow> ('e, 'a slice) result" where
  "reslice s i j =
     (if i \<le> j \<and> j \<le> scap s
      then Ok \<lparr>elems = take (j - i) (drop i (elems s @ spare s)),
               spare = drop j (elems s @ spare s)\<rparr>
      else Panic)"

definition index :: "'a slice \<Rightarrow> nat \<Rightarrow> ('e, 'a) result" where
  "index s i = (if i < slen s then Ok (elems s ! i) else Panic)"

lemma slen_mk_slice [simp]: "slen (mk_slice xs) = length xs"
  by (simp add: slen_def mk_slice_def)

lemma elems_mk_slice [simp]: "elems (mk_slice xs) = xs"
  by (simp add: mk_slice_def)

lemma spare_mk_slice [simp]: "spare (mk_slice xs) = []"
  by (simp add: mk_slice_def)

lemma reslice_in_len [slice_simps]:
  assumes "i \<le> j" and "j \<le> slen s"
  shows "reslice s i j = Ok \<lparr>elems = take (j - i) (drop i (elems s)),
                             spare = drop j (elems s) @ spare s\<rparr>"
  using assms by (simp add: reslice_def slen_def scap_def)

lemma index_in_len [slice_simps]: "i < slen s \<Longrightarrow> index s i = Ok (elems s ! i)"
  by (simp add: index_def)

lemma reslice_eq_Panic [slice_simps]: "reslice s i j = Panic \<longleftrightarrow> \<not> (i \<le> j \<and> j \<le> scap s)"
  by (simp add: reslice_def)

lemma reslice_not_Err [simp]: "reslice s i j \<noteq> Err e"
  by (simp add: reslice_def)

section \<open>Big-endian integers\<close>

definition be_word :: "u8 list \<Rightarrow> 'a::len word" where
  "be_word bs = foldl (\<lambda>acc b. push_bit 8 acc OR ucast b) 0 bs"

primrec word_be :: "nat \<Rightarrow> 'a::len word \<Rightarrow> u8 list" where
  "word_be 0 w = []"
| "word_be (Suc n) w = ucast (drop_bit (8 * n) w) # word_be n w"

lemma length_word_be [simp]: "length (word_be n w) = n"
  by (induction n) auto

lemma bit_fold_word_be:
  fixes acc :: "'a::len word" and w :: "'b::len word"
  shows "k < LENGTH('a) \<Longrightarrow>
    bit (foldl (\<lambda>acc b. push_bit 8 acc OR ucast b) acc (word_be n w)) k \<longleftrightarrow>
    (if k < 8 * n then bit w k else bit acc (k - 8 * n))"
  by (induction n arbitrary: acc)
     (auto simp: bit_or_iff bit_push_bit_iff bit_ucast_iff bit_drop_bit_eq add.commute)

lemma be_word_word_be:
  fixes w :: "'b::len word"
  assumes "LENGTH('a) \<le> 8 * n"
  shows "be_word (word_be n w) = (ucast w :: 'a::len word)"
  using assms by (intro bit_word_eqI) (simp add: be_word_def bit_fold_word_be bit_ucast_iff)

lemma be_word_round_trip:
  fixes w :: "'a::len word"
  assumes "LENGTH('a) \<le> 8 * n"
  shows "be_word (word_be n w) = w"
  using be_word_word_be [OF assms, of w] by simp

lemma small_bit: "unat (w :: 'a::len word) < 2 ^ n \<Longrightarrow> bit w k \<Longrightarrow> k < n"
proof (rule ccontr)
  assume "unat w < 2 ^ n" and bit: "bit w k" and "\<not> k < n"
  then have "unat w < 2 ^ k" by (meson less_le_trans not_less one_le_numeral power_increasing)
  then have "\<not> bit (unat w) k" by (simp add: bit_iff_odd)
  with bit show False by (simp add: bit_unsigned_iff)
qed

lemma ucast_ucast_small:
  fixes w :: "'a::len word"
  assumes "unat w < 2 ^ n" and "n \<le> LENGTH('b)"
  shows "ucast (ucast w :: 'b::len word) = w"
  using assms by (intro bit_word_eqI) (auto simp: bit_ucast_iff dest: small_bit)

lemma be_word_u8 [simp]: "be_word [b] = (ucast b :: 'a::len word)"
  by (simp add: be_word_def)

section \<open>Bounded channels with non-blocking send\<close>

text \<open>
  \<open>select { case ch <- x: default: }\<close>: the element is queued when the buffer has room and
  the \<open>default\<close> branch is taken otherwise (the boolean tells which).
\<close>

record 'a chan =
  queued :: "'a list"
  bufsize :: nat

definition make_chan :: "nat \<Rightarrow> 'a chan" where
  "make_chan n = \<lparr>queued = [], bufsize = n\<rparr>"

definition try_send :: "'a \<Rightarrow> 'a chan \<Rightarrow> bool \<times> 'a chan" where
  "try_send x c =
     (if length (queued c) < bufsize c then (True, c\<lparr>queued := queued c @ [x]\<rparr>)
      else (False, c))"

definition try_recv :: "'a chan \<Rightarrow> ('a \<times> 'a chan) option" where
  "try_recv c = (case queued c of [] \<Rightarrow> None | x # xs \<Rightarrow> Some (x, c\<lparr>queued := xs\<rparr>))"

definition chan_ok :: "'a chan \<Rightarrow> bool" where
  "chan_ok c \<longleftrightarrow> length (queued c) \<le> bufsize c"

text \<open>
  The contract every asynchronous stage of the receiver relies on: a send never blocks, it
  either appends at the end or leaves the channel alone, receives come out in the order of
  the accepted sends, and the buffer never exceeds its size.
\<close>

locale nb_channel =
  fixes send :: "'a \<Rightarrow> 'c \<Rightarrow> bool \<times> 'c"
    and recv :: "'c \<Rightarrow> ('a \<times> 'c) option"
    and contents :: "'c \<Rightarrow> 'a list"
    and room :: "'c \<Rightarrow> bool"
    and wf :: "'c \<Rightarrow> bool"
  assumes send_room: "room c \<Longrightarrow> fst (send x c) \<and> contents (snd (send x c)) = contents c @ [x]"
    and send_full: "\<not> room c \<Longrightarrow> send x c = (False, c)"
    and recv_empty: "contents c = [] \<Longrightarrow> recv c = None"
    and recv_hd: "contents c = x # xs \<Longrightarrow> \<exists>c'. recv c = Some (x, c') \<and> contents c' = xs"
    and wf_send: "wf c \<Longrightarrow> wf (snd (send x c))"
    and wf_recv: "wf c \<Longrightarrow> recv c = Some (x, c') \<Longrightarrow> wf c'"
begin

fun send_all :: "'a list \<Rightarrow> 'c \<Rightarrow> bool list \<times> 'c" where
  "send_all [] c = ([], c)"
| "send_all (x # xs) c =
     (let (ok, c1) = send x c; (oks, c2) = send_all xs c1 in (ok # oks, c2))"

lemma wf_send_all: "wf c \<Longrightarrow> wf (snd (send_all xs c))"
proof (induction xs arbitrary: c)
  case Nil
  then show ?case by simp
next
  case (Cons x xs)
  have "wf (snd (send x c))" using Cons.prems by (rule wf_send)
  then have "wf (snd (send_all xs (snd (send x c))))" by (rule Cons.IH)
  then show ?case by (simp add: split_beta Let_def)
qed

lemma contents_send:
  "contents (snd (send x c)) = contents c @ (if fst (send x c) then [x] else [])"
  by (cases "room c") (auto simp: send_room send_full)

lemma contents_send_all:
  "contents (snd (send_all xs c)) =
     contents c @ map fst (filter snd (zip xs (fst (send_all xs c))))"
  by (induction xs arbitrary: c) (auto simp: split_beta Let_def contents_send)

lemma length_send_all: "length (fst (send_all xs c)) = length xs"
  by (induction xs arbitrary: c) (auto simp: split_beta Let_def)

lemma recv_iff: "recv c = None \<longleftrightarrow> contents c = []"
  by (cases "contents c") (auto simp: recv_empty dest: recv_hd)

lemma recv_Some: "recv c = Some (x, c') \<Longrightarrow> contents c = x # contents c'"
proof (cases "contents c")
  case Nil
  then show "recv c = Some (x, c') \<Longrightarrow> ?thesis" by (simp add: recv_empty)
next
  case (Cons y ys)
  then show "recv c = Some (x, c') \<Longrightarrow> ?thesis" using recv_hd [OF Cons] by auto
qed

end

interpretation ch: nb_channel try_send try_recv queued
  "\<lambda>c. length (queued c) < bufsize c" chan_ok
  by unfold_locales
     (auto simp: try_send_def try_recv_def chan_ok_def split: list.splits if_splits)

end
