(* ===== verification/Go_Strings.thy ===== *)
theory Go_Strings
  imports Go_Base "HOL-Library.Char_ord" "HOL-Library.List_Lexorder" "HOL-Library.Sublist"
begin

text \<open>
  What the program uses of Go's \<open>strings\<close>, \<open>bytes\<close> and \<open>encoding/hex\<close> packages.  A Go string
  is a sequence of bytes, here a \<open>string\<close> (characters stand for bytes); the comparison of
  strings is bytewise lexicographic.
\<close>

section \<open>Prefixes, splitting and joining\<close>

definition bytes_of :: "string \<Rightarrow> u8 list" where
  "bytes_of s = map of_char s"

definition string_of :: "u8 list \<Rightarrow> string" where
  "string_of bs = map (\<lambda>b. char_of (unat b)) bs"

definition HasPrefix :: "'a list \<Rightarrow> 'a list \<Rightarrow> bool" where
  "HasPrefix s p \<longleftrightarrow> take (length p) s = p"

definition TrimPrefix :: "'a list \<Rightarrow> 'a list \<Rightarrow> 'a list" where
  "TrimPrefix s p = (if HasPrefix s p then drop (length p) s else s)"

fun Contains :: "'a list \<Rightarrow> 'a list \<Rightarrow> bool" where
  "Contains [] p \<longleftrightarrow> p = []"
| "Contains (c # cs) p \<longleftrightarrow> HasPrefix (c # cs) p \<or> Contains cs p"

text \<open>\<open>strings.Split(s, sep)\<close> for a separator of one byte.\<close>

fun Split :: "'a \<Rightarrow> 'a list \<Rightarrow> 'a list list" where
  "Split sep [] = [[]]"
| "Split sep (c # cs) =
     (if c = sep then [] # Split sep cs
      else case Split sep cs of f # fs \<Rightarrow> (c # f) # fs | [] \<Rightarrow> [[c]])"

fun Join :: "'a list \<Rightarrow> 'a list list \<Rightarrow> 'a list" where
  "Join sep [] = []"
| "Join sep [f] = f"
| "Join sep (f # fs) = f @ sep @ Join sep fs"

text \<open>\<open>strings.ReplaceAll(s, old, new)\<close> for a non-empty \<open>old\<close>.\<close>

function (sequential) ReplaceAll :: "'a list \<Rightarrow> 'a list \<Rightarrow> 'a list \<Rightarrow> 'a list" where
  "ReplaceAll [] old new = []"
| "ReplaceAll (c # cs) old new =
     (if old \<noteq> [] \<and> HasPrefix (c # cs) old then new @ ReplaceAll (drop (length old) (c # cs)) old new
      else c # ReplaceAll cs old new)"
  by pat_completeness auto

termination ReplaceAll
  by (relation "measure (\<lambda>(s, _, _). length s)") auto

text \<open>\<open>strings.TrimRight(s, cutset)\<close> for a cutset of single bytes, \<open>bytes.TrimLeft\<close> likewise.\<close>

definition TrimLeft :: "'a list \<Rightarrow> 'a list \<Rightarrow> 'a list" where
  "TrimLeft s cutset = dropWhile (\<lambda>c. c \<in> set cutset) s"

definition TrimRight :: "'a list \<Rightarrow> 'a list \<Rightarrow> 'a list" where
  "TrimRight s cutset = rev (TrimLeft (rev s) cutset)"

section \<open>Trimming white space\<close>

text \<open>
  \<open>strings.TrimSpace\<close> removes the characters of \<open>unicode.IsSpace\<close>, listed here by their UTF-8
  encodings.
\<close>

definition space_seqs :: "u8 list list" where
  "space_seqs =
     [[0x20], [0x09], [0x0A], [0x0B], [0x0C], [0x0D], [0xC2, 0x85], [0xC2, 0xA0], [0xE1, 0x9A, 0x80],
      [0xE2, 0x80, 0x80], [0xE2, 0x80, 0x81], [0xE2, 0x80, 0x82], [0xE2, 0x80, 0x83],
      [0xE2, 0x80, 0x84], [0xE2, 0x80, 0x85], [0xE2, 0x80, 0x86], [0xE2, 0x80, 0x87],
      [0xE2, 0x80, 0x88], [0xE2, 0x80, 0x89], [0xE2, 0x80, 0x8A], [0xE2, 0x80, 0xA8],
      [0xE2, 0x80, 0xA9], [0xE2, 0x80, 0xAF], [0xE2, 0x81, 0x9F], [0xE3, 0x80, 0x80]]"

definition space_strings :: "string list" where
  "space_strings = map string_of space_seqs"

function trim_seqs :: "'a list list \<Rightarrow> 'a list \<Rightarrow> 'a list" where
  "trim_seqs ps s =
     (case find (\<lambda>p. p \<noteq> [] \<and> HasPrefix s p) ps of
        None \<Rightarrow> s
      | Some p \<Rightarrow> trim_seqs ps (drop (length p) s))"
  by pat_completeness auto

termination trim_seqs
proof (relation "measure (\<lambda>(_, s). length s)")
  fix ps :: "'a list list" and s p
  assume "find (\<lambda>p. p \<noteq> [] \<and> HasPrefix s p) ps = Some p"
  then have "p \<noteq> []" "HasPrefix s p" by (auto simp: find_Some_iff)
  then show "((ps, drop (length p) s), ps, s) \<in> measure (\<lambda>(_, s). length s)"
    by (cases s) (auto simp: HasPrefix_def)
qed simp

declare trim_seqs.simps [simp del]

definition TrimSpace :: "string \<Rightarrow> string" where
  "TrimSpace s =
     rev (trim_seqs (map rev space_strings) (rev (trim_seqs space_strings s)))"

section \<open>Numerals\<close>

definition digit_char :: "nat \<Rightarrow> char" where
  "digit_char d = char_of (48 + d)"

fun digits :: "nat \<Rightarrow> string" where
  "digits n = (if n < 10 then [digit_char n] else digits (n div 10) @ [digit_char (n mod 10)])"

declare digits.simps [simp del]

text \<open>\<open>strconv.Itoa\<close> and \<open>%d\<close>.\<close>

definition Itoa :: "int \<Rightarrow> string" where
  "Itoa i = (if i < 0 then ''-'' else []) @ digits (nat \<bar>i\<bar>)"

text \<open>\<open>%0wd\<close> of a natural number: padded with zeros to the width.\<close>

definition pad :: "nat \<Rightarrow> nat \<Rightarrow> string" where
  "pad w n = replicate (w - length (digits n)) (CHR ''0'') @ digits n"

section \<open>Hexadecimal\<close>

definition hex_digit :: "nat \<Rightarrow> char" where
  "hex_digit d = (if d < 10 then char_of (48 + d) else char_of (87 + d))"

definition hex_EncodeToString :: "u8 list \<Rightarrow> string" where
  "hex_EncodeToString bs = concat (map (\<lambda>b. [hex_digit (unat b div 16), hex_digit (unat b mod 16)]) bs)"

definition hex_value :: "char \<Rightarrow> nat option" where
  "hex_value c = (let n = of_char c in
     if 48 \<le> n \<and> n \<le> 57 then Some (n - 48)
     else if 97 \<le> n \<and> n \<le> 102 then Some (n - 87)
     else if 65 \<le> n \<and> n \<le> 70 then Some (n - 55) else None)"

fun hex_DecodeString :: "string \<Rightarrow> u8 list option" where
  "hex_DecodeString [] = Some []"
| "hex_DecodeString [c] = None"
| "hex_DecodeString (c # d # s) =
     (case (hex_value c, hex_value d, hex_DecodeString s) of
        (Some a, Some b, Some bs) \<Rightarrow> Some (word_of_nat (16 * a + b) # bs)
      | _ \<Rightarrow> None)"

section \<open>Lemmas: bytes, splitting, joining\<close>

named_theorems string_simps

lemma length_string_of [simp]: "length (string_of bs) = length bs"
  by (simp add: string_of_def)

lemma length_bytes_of [simp]: "length (bytes_of s) = length s"
  by (simp add: bytes_of_def)

lemma unat_of_char [simp]: "unat (of_char c :: u8) = of_char c"
proof -
  have "(of_char c :: u8) = word_of_nat (of_char c)" by (simp only: of_nat_of_char)
  then show ?thesis by (simp only: unat_of_nat) simp
qed

lemma string_of_bytes_of [simp]: "string_of (bytes_of s) = s"
  by (induction s) (simp_all add: string_of_def bytes_of_def)

lemma bytes_of_string_of [simp]: "bytes_of (string_of bs) = bs"
proof -
  have "of_char (char_of (unat b)) = b" for b :: u8
  proof -
    have "unat b < 2 ^ LENGTH(8)" by (rule unsigned_less)
    then show ?thesis by (simp add: word_unat_eq_iff)
  qed
  then show ?thesis by (induction bs) (simp_all add: string_of_def bytes_of_def)
qed

lemma HasPrefix_iff: "HasPrefix s p \<longleftrightarrow> (\<exists>r. s = p @ r)"
  by (auto simp: HasPrefix_def) (metis append_take_drop_id)

lemma HasPrefix_append [simp]: "HasPrefix (p @ s) p"
  by (simp add: HasPrefix_def)

lemma Contains_iff: "Contains s p \<longleftrightarrow> (\<exists>a b. s = a @ p @ b)"
proof (induction s)
  case (Cons c cs)
  show ?case
  proof
    assume "Contains (c # cs) p"
    then consider "HasPrefix (c # cs) p" | "Contains cs p" by auto
    then show "\<exists>a b. c # cs = a @ p @ b"
    proof cases
      case 1
      then show ?thesis by (metis HasPrefix_iff append_Nil)
    next
      case 2
      then obtain a b where "cs = a @ p @ b" using Cons.IH by auto
      then have "c # cs = (c # a) @ p @ b" by simp
      then show ?thesis by blast
    qed
  next
    assume "\<exists>a b. c # cs = a @ p @ b"
    then obtain a b where ab: "c # cs = a @ p @ b" by blast
    show "Contains (c # cs) p"
    proof (cases a)
      case Nil
      with ab have "c # cs = p @ b" by simp
      then show ?thesis by (metis Contains.simps(2) HasPrefix_iff)
    next
      case (Cons d a')
      with ab have "cs = a' @ p @ b" by simp
      then show ?thesis using Cons.IH by auto
    qed
  qed
qed auto

lemma Split_not_Nil [simp]: "Split sep s \<noteq> []"
  by (cases s) (auto split: list.splits)

lemma Join_Cons: "fs \<noteq> [] \<Longrightarrow> Join sep (f # fs) = f @ sep @ Join sep fs"
  by (cases fs) auto

lemma Join_Split: "Join [sep] (Split sep s) = s"
proof (induction s)
  case (Cons c cs)
  then show ?case
    by (cases "Split sep cs"; cases "tl (Split sep cs)") (auto simp: Join_Cons)
qed simp

lemma Split_no_sep: "sep \<notin> set f \<Longrightarrow> Split sep f = [f]"
  by (induction f) auto

lemma Split_append: "sep \<notin> set f \<Longrightarrow> Split sep (f @ sep # s) = f # Split sep s"
  by (induction f) auto

lemma Split_Join:
  assumes "fs \<noteq> []" and "\<forall>f \<in> set fs. sep \<notin> set f"
  shows "Split sep (Join [sep] fs) = fs"
  using assms
proof (induction fs rule: list_nonempty_induct)
  case (single f)
  then show ?case by (simp add: Split_no_sep)
next
  case (cons f fs)
  then show ?case by (simp add: Join_Cons Split_append)
qed

lemma Split_fields: "f \<in> set (Split sep s) \<Longrightarrow> sep \<notin> set f"
proof (induction s arbitrary: f)
  case (Cons c cs)
  then show ?case by (cases "Split sep cs") (auto split: if_splits)
qed simp

lemma ReplaceAll_absent: "\<not> Contains s old \<Longrightarrow> ReplaceAll s old new = s"
  by (induction s old new rule: ReplaceAll.induct) auto

section \<open>Lemmas: hexadecimal and white space\<close>

lemma hex_digit_value: "d < 16 \<Longrightarrow> hex_value (hex_digit d) = Some d"
  by (auto simp: hex_value_def hex_digit_def Let_def)

lemma hex_round_trip: "hex_DecodeString (hex_EncodeToString bs) = Some bs"
proof (induction bs)
  case (Cons b bs)
  have "unat b < 2 ^ LENGTH(8)" by (rule unsigned_less)
  then have "unat b div 16 < 16" by simp
  moreover have "word_of_nat (16 * (unat b div 16) + unat b mod 16) = b" by simp
  ultimately show ?case using Cons by (simp add: hex_EncodeToString_def hex_digit_value)
qed (simp add: hex_EncodeToString_def)

lemma trim_seqs_fix: "find (\<lambda>p. p \<noteq> [] \<and> HasPrefix (trim_seqs ps s) p) ps = None"
proof (induction ps s rule: trim_seqs.induct)
  case (1 ps s)
  then show ?case by (cases "find (\<lambda>p. p \<noteq> [] \<and> HasPrefix s p) ps") (simp_all add: trim_seqs.simps [of ps s])
qed

lemma trim_seqs_id: "find (\<lambda>p. p \<noteq> [] \<and> HasPrefix s p) ps = None \<Longrightarrow> trim_seqs ps s = s"
  by (simp add: trim_seqs.simps)

lemma trim_seqs_suffix: "\<exists>pre. s = pre @ trim_seqs ps s"
proof (induction ps s rule: trim_seqs.induct)
  case (1 ps s)
  show ?case
  proof (cases "find (\<lambda>p. p \<noteq> [] \<and> HasPrefix s p) ps")
    case (Some p)
    then obtain pre where "drop (length p) s = pre @ trim_seqs ps (drop (length p) s)" using 1 by blast
    moreover have "trim_seqs ps s = trim_seqs ps (drop (length p) s)" by (simp add: trim_seqs.simps [of ps s] Some)
    moreover have "s = take (length p) s @ drop (length p) s" by simp
    ultimately have "s = (take (length p) s @ pre) @ trim_seqs ps s" by (metis append.assoc)
    then show ?thesis ..
  qed (simp add: trim_seqs.simps)
qed

text \<open>A trimmed string has no white space left at either end, so trimming it again changes nothing.\<close>

lemma TrimSpace_TrimSpace: "TrimSpace (TrimSpace s) = TrimSpace s"
proof -
  let ?A = "trim_seqs space_strings s"
  let ?B = "trim_seqs (map rev space_strings) (rev ?A)"
  have A: "find (\<lambda>p. p \<noteq> [] \<and> HasPrefix ?A p) space_strings = None" by (rule trim_seqs_fix)
  obtain pre where "rev ?A = pre @ ?B" using trim_seqs_suffix by blast
  then have "?A = rev ?B @ rev pre" by (metis rev_append rev_rev_ident)
  then have "find (\<lambda>p. p \<noteq> [] \<and> HasPrefix (rev ?B) p) space_strings = None"
    using A by (auto simp: find_None_iff HasPrefix_iff)
  then have "trim_seqs space_strings (rev ?B) = rev ?B" by (rule trim_seqs_id)
  moreover have "trim_seqs (map rev space_strings) ?B = ?B" by (rule trim_seqs_id [OF trim_seqs_fix])
  ultimately show ?thesis by (simp add: TrimSpace_def)
qed

text \<open>The white space of \<open>TrimSpace\<close> as strings, for evaluation.\<close>

lemma space_strings_list: "space_strings = [[CHR '' ''], [CHR 0x09], [CHR 0x0A], [CHR 0x0B], [CHR 0x0C], [CHR 0x0D],
  [CHR 0xC2, CHR 0x85], [CHR 0xC2, CHR 0xA0], [CHR 0xE1, CHR 0x9A, CHR 0x80],
      [CHR 0xE2, CHR 0x80, CHR 0x80], [CHR 0xE2, CHR 0x80, CHR 0x81], [CHR 0xE2, CHR 0x80, CHR 0x82], [CHR 0xE2, CHR 0x80, CHR 0x83],
      [CHR 0xE2, CHR 0x80, CHR 0x84], [CHR 0xE2, CHR 0x80, CHR 0x85], [CHR 0xE2, CHR 0x80, CHR 0x86], [CHR 0xE2, CHR 0x80, CHR 0x87],
      [CHR 0xE2, CHR 0x80, CHR 0x88], [CHR 0xE2, CHR 0x80, CHR 0x89], [CHR 0xE2, CHR 0x80, CHR 0x8A], [CHR 0xE2, CHR 0x80, CHR 0xA8],
      [CHR 0xE2, CHR 0x80, CHR 0xA9], [CHR 0xE2, CHR 0x80, CHR 0xAF], [CHR 0xE2, CHR 0x81, CHR 0x9F], [CHR 0xE3, CHR 0x80, CHR 0x80]]"
  by (simp add: space_strings_def space_seqs_def string_of_def char_of_def bit_Suc_0_iff)

end
