(* ===== verification/Go_Float.thy ===== *)
theory Go_Float
  imports Go_Base Complex_Main "HOL-Library.Log_Nat"
begin

text \<open>
  IEEE 754 binary64 arithmetic as Go's \<open>float64\<close> uses it: round to nearest, ties to even,
  signed zeros, infinities and NaN.  A finite value is a sign and a magnitude.  The
  operations are the ones the parsers and the retry delay use.
\<close>

section \<open>Rounding\<close>

datatype float64 = Fin bool rat | Inf bool | NaN

definition pow2 :: "int \<Rightarrow> rat" where
  "pow2 e = (if 0 \<le> e then 2 ^ nat e else 1 / 2 ^ nat (- e))"

definition ilog2 :: "rat \<Rightarrow> int" where
  "ilog2 m = (let (n, d) = quotient_of m; k = bitlen n - bitlen d in
              if pow2 k \<le> m then k else k - 1)"

definition round_even :: "rat \<Rightarrow> int" where
  "round_even q = (let f = floor q; r = q - of_int f in
     if r < 1 / 2 then f else if 1 / 2 < r then f + 1 else if even f then f else f + 1)"

definition ulp_exp :: "rat \<Rightarrow> int" where
  "ulp_exp m = max (ilog2 m - 52) (- 1074)"

definition round_mag :: "rat \<Rightarrow> rat" where
  "round_mag m = of_int (round_even (m / pow2 (ulp_exp m))) * pow2 (ulp_exp m)"

definition round64 :: "bool \<Rightarrow> rat \<Rightarrow> float64" where
  "round64 s m =
     (if m = 0 then Fin s 0
      else let r = round_mag m in if pow2 1024 \<le> r then Inf s else Fin s r)"

section \<open>Operations\<close>

fun f_val :: "float64 \<Rightarrow> rat" where
  "f_val (Fin s a) = (if s then - a else a)"
| "f_val (Inf s) = 0"
| "f_val NaN = 0"

definition f_of_int :: "int \<Rightarrow> float64" where
  "f_of_int i = round64 (i < 0) (of_int \<bar>i\<bar>)"

fun f_neg :: "float64 \<Rightarrow> float64" where
  "f_neg (Fin s a) = Fin (\<not> s) a"
| "f_neg (Inf s) = Inf (\<not> s)"
| "f_neg NaN = NaN"

fun f_mul :: "float64 \<Rightarrow> float64 \<Rightarrow> float64" where
  "f_mul (Fin s a) (Fin t b) = round64 (s \<noteq> t) (a * b)"
| "f_mul (Fin s a) (Inf t) = (if a = 0 then NaN else Inf (s \<noteq> t))"
| "f_mul (Inf s) (Fin t b) = (if b = 0 then NaN else Inf (s \<noteq> t))"
| "f_mul (Inf s) (Inf t) = Inf (s \<noteq> t)"
| "f_mul _ _ = NaN"

fun f_div :: "float64 \<Rightarrow> float64 \<Rightarrow> float64" where
  "f_div (Fin s a) (Fin t b) =
     (if b = 0 then (if a = 0 then NaN else Inf (s \<noteq> t)) else round64 (s \<noteq> t) (a / b))"
| "f_div (Fin s a) (Inf t) = Fin (s \<noteq> t) 0"
| "f_div (Inf s) (Fin t b) = Inf (s \<noteq> t)"
| "f_div _ _ = NaN"

fun f_add :: "float64 \<Rightarrow> float64 \<Rightarrow> float64" where
  "f_add (Fin s a) (Fin t b) =
     (let v = f_val (Fin s a) + f_val (Fin t b) in
      if v = 0 then Fin (s \<and> t) 0 else round64 (v < 0) \<bar>v\<bar>)"
| "f_add (Fin s a) (Inf t) = Inf t"
| "f_add (Inf s) (Fin t b) = Inf s"
| "f_add (Inf s) (Inf t) = (if s = t then Inf s else NaN)"
| "f_add _ _ = NaN"

definition f_sub :: "float64 \<Rightarrow> float64 \<Rightarrow> float64" where
  "f_sub x y = f_add x (f_neg y)"

text \<open>\<open>math.Floor\<close>: towards minus infinity, keeping zeros, infinities and NaN.\<close>

fun f_floor :: "float64 \<Rightarrow> float64" where
  "f_floor (Fin s a) = (if s then Fin True (of_int \<lceil>a\<rceil>) else Fin False (of_int \<lfloor>a\<rfloor>))"
| "f_floor x = x"

text \<open>\<open>math.Round\<close>: to the nearest integer, halves away from zero, the sign kept.\<close>

fun f_round :: "float64 \<Rightarrow> float64" where
  "f_round (Fin s a) = Fin s (of_int \<lfloor>a + 1 / 2\<rfloor>)"
| "f_round x = x"

fun f_lt :: "float64 \<Rightarrow> float64 \<Rightarrow> bool" where
  "f_lt (Fin s a) (Fin t b) = (f_val (Fin s a) < f_val (Fin t b))"
| "f_lt (Fin s a) (Inf t) = (\<not> t)"
| "f_lt (Inf s) (Fin t b) = s"
| "f_lt (Inf s) (Inf t) = (s \<and> \<not> t)"
| "f_lt _ _ = False"

section \<open>Powers of two and the binary logarithm\<close>

lemma pow2_pos [simp]: "0 < pow2 e"
  by (simp add: pow2_def)

lemma pow2_nonzero [simp]: "pow2 e \<noteq> 0"
  using pow2_pos [of e] by linarith

lemma pow2_powi: "pow2 e = 2 powi e"
  by (auto simp: pow2_def power_int_def field_simps)

lemma pow2_add: "pow2 (a + b) = pow2 a * pow2 b"
  by (simp add: pow2_powi power_int_add)

lemma pow2_mono: "a \<le> b \<Longrightarrow> pow2 a \<le> pow2 b"
  by (simp add: pow2_powi power_int_increasing)

lemma pow2_less: "a < b \<Longrightarrow> pow2 a < pow2 b"
  by (simp add: pow2_powi power_int_strict_increasing)

lemma pow2_Suc: "pow2 (k + 1) = 2 * pow2 k"
proof -
  have "pow2 1 = 2" by (simp add: pow2_def)
  then show ?thesis by (simp only: pow2_add mult.commute)
qed

lemma of_int_pow2: "0 \<le> k \<Longrightarrow> of_int (2 ^ nat k) = pow2 k"
  by (simp add: pow2_def)

lemma ilog2_bounds:
  assumes "0 < m"
  shows "pow2 (ilog2 m) \<le> m" and "m < pow2 (ilog2 m + 1)"
proof -
  obtain n d where q: "quotient_of m = (n, d)" by (cases "quotient_of m")
  then have m: "m = of_int n / of_int d" and d: "0 < d"
    by (auto dest: quotient_of_div quotient_of_denom_pos)
  with assms have n: "0 < n" by (simp add: zero_less_divide_iff)
  have bn: "pow2 (bitlen n - 1) \<le> of_int n" "of_int n < pow2 (bitlen n)" if "0 < n" for n
  proof -
    have b: "2 ^ nat (bitlen n - 1) \<le> n" "n < 2 ^ nat (bitlen n)"
      using bitlen_bounds [OF that] by auto
    have "0 < bitlen n"
    proof (rule ccontr)
      assume "\<not> 0 < bitlen n"
      with b(2) that show False by simp
    qed
    then show "pow2 (bitlen n - 1) \<le> of_int n" "of_int n < pow2 (bitlen n)"
      using b by (simp_all flip: of_int_pow2)
  qed
  let ?k = "bitlen n - bitlen d"
  have lo: "pow2 (?k - 1) \<le> m"
  proof -
    have "pow2 (?k - 1) * of_int d \<le> pow2 (?k - 1) * pow2 (bitlen d)"
      using bn(2) [OF d] by (intro mult_left_mono) (auto simp: less_imp_le)
    also have "\<dots> = pow2 (bitlen n - 1)" by (simp flip: pow2_add)
    also have "\<dots> \<le> of_int n" by (rule bn(1) [OF n])
    finally show ?thesis using d by (simp add: m le_divide_eq)
  qed
  have hi: "m < pow2 (?k + 1)"
  proof -
    have "of_int n < pow2 (bitlen n)" by (rule bn(2) [OF n])
    also have "\<dots> = pow2 (?k + 1) * pow2 (bitlen d - 1)" by (simp flip: pow2_add)
    also have "\<dots> \<le> pow2 (?k + 1) * of_int d"
      using bn(1) [OF d] by (intro mult_left_mono) (auto simp: less_imp_le)
    finally show ?thesis using d by (simp add: m divide_less_eq)
  qed
  have "ilog2 m = (if pow2 ?k \<le> m then ?k else ?k - 1)"
    by (simp add: ilog2_def q)
  then show "pow2 (ilog2 m) \<le> m" "m < pow2 (ilog2 m + 1)"
    using lo hi by auto
qed

section \<open>Rounding error and exact values\<close>

lemma round_even_error: "\<bar>of_int (round_even q) - q\<bar> \<le> 1 / 2"
proof -
  have "of_int \<lfloor>q\<rfloor> \<le> q" "q < of_int \<lfloor>q\<rfloor> + 1" by linarith+
  then show ?thesis unfolding round_even_def Let_def by (simp split: if_split)
qed

lemma round_even_of_int [simp]: "round_even (of_int k) = k"
  by (simp add: round_even_def)

lemma round_mag_error: "\<bar>round_mag m - m\<bar> \<le> pow2 (ulp_exp m) / 2"
proof -
  let ?u = "pow2 (ulp_exp m)"
  have "round_mag m - m = (of_int (round_even (m / ?u)) - m / ?u) * ?u"
    by (simp add: round_mag_def field_simps)
  then have "\<bar>round_mag m - m\<bar> = \<bar>of_int (round_even (m / ?u)) - m / ?u\<bar> * ?u"
    by (simp add: abs_mult less_imp_le)
  also have "\<dots> \<le> 1 / 2 * ?u"
    using round_even_error by (intro mult_right_mono) (auto simp: less_imp_le)
  finally show ?thesis by simp
qed

text \<open>The relative error of a normal value is at most \<open>2 ^ -53\<close>.\<close>

lemma round_mag_relative:
  assumes "pow2 (- 1022) \<le> m"
  shows "\<bar>round_mag m - m\<bar> \<le> m * pow2 (- 53)"
proof -
  have m: "0 < m" using assms pow2_pos [of "- 1022"] by linarith
  have "pow2 (- 1022) < pow2 (ilog2 m + 1)"
    using assms ilog2_bounds(2) [OF m] by linarith
  then have "\<not> pow2 (ilog2 m + 1) \<le> pow2 (- 1022)" by simp
  then have "\<not> ilog2 m + 1 \<le> - 1022" using pow2_mono by blast
  then have "ulp_exp m = ilog2 m + - 52" by (simp add: ulp_exp_def)
  then have "pow2 (ulp_exp m) / 2 = pow2 (ilog2 m) * (pow2 (- 52) / 2)"
    by (simp only: pow2_add)
  also have "pow2 (- 52) / 2 = pow2 (- 53)" by (simp add: pow2_def)
  finally have "pow2 (ulp_exp m) / 2 = pow2 (ilog2 m) * pow2 (- 53)" .
  also have "\<dots> \<le> m * pow2 (- 53)"
    using ilog2_bounds(1) [OF m] by (intro mult_right_mono) (auto simp: less_imp_le)
  finally show ?thesis using round_mag_error [of m] by linarith
qed

definition is_double :: "rat \<Rightarrow> bool" where
  "is_double m \<longleftrightarrow> (\<exists>k e. m = of_int k * pow2 e \<and> 0 \<le> k \<and> k \<le> 2 ^ 53 \<and> - 1074 \<le> e) \<and> m < pow2 1024"

lemma round_mag_exact:
  assumes "is_double m" and "0 < m"
  shows "round_mag m = m"
proof -
  obtain k e where m: "m = of_int k * pow2 e" and k: "0 \<le> k" "k \<le> 2 ^ 53" and e: "- 1074 \<le> e"
    using assms(1) by (auto simp: is_double_def)
  have "ulp_exp m \<le> e \<or> k = 2 ^ 53 \<and> ulp_exp m \<le> e + 1"
  proof (cases "k = 2 ^ 53")
    case True
    then have "m = pow2 53 * pow2 e" by (simp add: m) (simp add: pow2_def)
    then have "m = pow2 (e + 53)" by (simp only: pow2_add mult.commute)
    then have "\<not> pow2 (e + 54) \<le> pow2 (ilog2 m)"
      using ilog2_bounds(1) [OF assms(2)] pow2_less [of "e + 53" "e + 54"] by linarith
    then have "ilog2 m < e + 54" using pow2_mono [of "e + 54" "ilog2 m"] by linarith
    with True e show ?thesis by (simp add: ulp_exp_def)
  next
    case False
    with k have "of_int k < (2 ^ 53 :: rat)"
      by (metis of_int_less_iff of_int_numeral of_int_power order_le_less)
    then have "m < 2 ^ 53 * pow2 e" unfolding m by (intro mult_strict_right_mono) auto
    also have "2 ^ 53 = pow2 53" by (simp add: pow2_def)
    also have "pow2 53 * pow2 e = pow2 (e + 53)" by (simp only: pow2_add mult.commute)
    finally have "\<not> pow2 (e + 53) \<le> pow2 (ilog2 m)"
      using ilog2_bounds(1) [OF assms(2)] by linarith
    then have "ilog2 m < e + 53" using pow2_mono [of "e + 53" "ilog2 m"] by linarith
    with e show ?thesis by (simp add: ulp_exp_def)
  qed
  then obtain j where j: "m = of_int j * pow2 (ulp_exp m)"
  proof
    assume le: "ulp_exp m \<le> e"
    have "pow2 e = pow2 (e - ulp_exp m) * pow2 (ulp_exp m)" by (simp flip: pow2_add)
    also have "pow2 (e - ulp_exp m) = of_int (2 ^ nat (e - ulp_exp m))"
      using le by (simp add: pow2_def)
    finally have "m = of_int (k * 2 ^ nat (e - ulp_exp m)) * pow2 (ulp_exp m)" by (simp add: m)
    then show thesis by (rule that)
  next
    assume "k = 2 ^ 53 \<and> ulp_exp m \<le> e + 1"
    then have k': "k = 2 ^ 53" and le: "ulp_exp m \<le> e + 1" by auto
    have "m = pow2 52 * (2 * pow2 e)" by (simp add: m k') (simp add: pow2_def)
    then have "m = pow2 52 * pow2 (e + 1)" by (simp only: pow2_Suc)
    also have "pow2 (e + 1) = pow2 (e + 1 - ulp_exp m) * pow2 (ulp_exp m)" by (simp flip: pow2_add)
    also have "pow2 (e + 1 - ulp_exp m) = of_int (2 ^ nat (e + 1 - ulp_exp m))"
      using le by (simp add: pow2_def)
    finally have "m = of_int (2 ^ 52 * 2 ^ nat (e + 1 - ulp_exp m)) * pow2 (ulp_exp m)"
      by (simp add: pow2_def)
    then show thesis by (rule that)
  qed
  then have "m / pow2 (ulp_exp m) = of_int j" by (simp add: field_simps)
  then show ?thesis using j by (simp add: round_mag_def)
qed

lemma round64_exact: "is_double m \<Longrightarrow> 0 \<le> m \<Longrightarrow> round64 s m = Fin s m"
proof (cases "m = 0")
  case False
  assume "is_double m" "0 \<le> m"
  with False have "round_mag m = m" by (simp add: round_mag_exact)
  with False \<open>is_double m\<close> show ?thesis by (simp add: round64_def is_double_def)
qed (simp add: round64_def)

lemma is_double_int:
  assumes "0 \<le> k" and "k \<le> 2 ^ 53"
  shows "is_double (of_int k)"
proof -
  have "of_int k = of_int k * pow2 0" by (simp add: pow2_def)
  moreover have "(of_int k :: rat) < pow2 1024"
  proof -
    have "(of_int k :: rat) \<le> of_int (2 ^ 53)" using assms(2) by (simp only: of_int_le_iff)
    also have "\<dots> = pow2 53" by (simp add: pow2_def)
    also have "\<dots> < pow2 1024" by (rule pow2_less) simp
    finally show ?thesis .
  qed
  moreover have "(- 1074 :: int) \<le> 0" by simp
  ultimately show ?thesis using assms unfolding is_double_def by blast
qed

lemma f_of_int_exact: "\<bar>i\<bar> \<le> 2 ^ 53 \<Longrightarrow> f_of_int i = Fin (i < 0) (of_int \<bar>i\<bar>)"
  unfolding f_of_int_def using is_double_int [of "\<bar>i\<bar>"] by (intro round64_exact) auto

end
