(* ===== verification/Go_Strconv.thy ===== *)
theory Go_Strconv
  imports Go_Strings Go_Float
begin

text \<open>
  What the program uses of Go's \<open>strconv\<close> package: \<open>Atoi\<close> with its range clamping,
  \<open>ParseFloat\<close> for decimal and hexadecimal syntax, infinities and NaN, and \<open>ParseBool\<close>.
\<close>

section \<open>Integers\<close>

datatype num_error = ErrSyntax | ErrRange

definition is_digit :: "char \<Rightarrow> bool" where
  "is_digit c \<longleftrightarrow> 48 \<le> (of_char c :: nat) \<and> (of_char c :: nat) \<le> 57"

definition digit_of :: "char \<Rightarrow> nat" where
  "digit_of c = of_char c - 48"

text \<open>
  The loop of \<open>ParseUint(s, 10, 64)\<close>: a digit is read, then the two overflow tests are made,
  so an overflow hides a bad character behind it.  The result is the value returned and the
  error.
\<close>

fun ParseUint_loop :: "string \<Rightarrow> nat \<Rightarrow> nat \<times> num_error option" where
  "ParseUint_loop [] n = (n, None)"
| "ParseUint_loop (c # cs) n =
     (if \<not> is_digit c then (0, Some ErrSyntax)
      else if n \<ge> (2 ^ 64 - 1) div 10 + 1 then (2 ^ 64 - 1, Some ErrRange)
      else if n * 10 + digit_of c > 2 ^ 64 - 1 then (2 ^ 64 - 1, Some ErrRange)
      else ParseUint_loop cs (n * 10 + digit_of c))"

definition ParseUint :: "string \<Rightarrow> nat \<times> num_error option" where
  "ParseUint s = (if s = [] then (0, Some ErrSyntax) else ParseUint_loop s 0)"

definition strip_sign :: "string \<Rightarrow> bool \<times> string" where
  "strip_sign s = (case s of
     c # cs \<Rightarrow> if c = CHR ''+'' then (False, cs) else if c = CHR ''-'' then (True, cs) else (False, s)
   | [] \<Rightarrow> (False, []))"

text \<open>\<open>strconv.Atoi\<close>: on a range error the value is the nearest 64-bit integer.\<close>

definition Atoi :: "string \<Rightarrow> int \<times> num_error option" where
  "Atoi s =
     (let (neg, ds) = strip_sign s; (un, err) = ParseUint ds in
      if err = Some ErrSyntax then (0, err)
      else if \<not> neg \<and> un \<ge> 2 ^ 63 then (2 ^ 63 - 1, Some ErrRange)
      else if neg \<and> un > 2 ^ 63 then (- (2 ^ 63), Some ErrRange)
      else (if neg then - int un else int un, None))"

definition ParseBool :: "string \<Rightarrow> bool option" where
  "ParseBool s =
     (if s \<in> set [''1'', ''t'', ''T'', ''true'', ''TRUE'', ''True''] then Some True
      else if s \<in> set [''0'', ''f'', ''F'', ''false'', ''FALSE'', ''False''] then Some False
      else None)"

section \<open>Floating-point numbers\<close>

definition lower :: "char \<Rightarrow> char" where
  "lower c = char_of ((of_char c :: nat) OR 0x20)"

definition ToLowerASCII :: "string \<Rightarrow> string" where
  "ToLowerASCII s = map (\<lambda>c. if 65 \<le> (of_char c :: nat) \<and> (of_char c :: nat) \<le> 90 then lower c else c) s"

definition special :: "string \<Rightarrow> float64 option" where
  "special s =
     (let (neg, r) = strip_sign s; signed = r \<noteq> s; l = ToLowerASCII r in
      if l = ''inf'' \<or> l = ''infinity'' then Some (Inf neg)
      else if \<not> signed \<and> l = ''nan'' then Some NaN
      else None)"

definition hex_letter :: "char \<Rightarrow> bool" where
  "hex_letter c \<longleftrightarrow> 97 \<le> (of_char (lower c) :: nat) \<and> (of_char (lower c) :: nat) \<le> 102"

text \<open>
  The mantissa loop of \<open>readFloat\<close>: the digits seen (their value), how many of them follow
  the point, and what remains of the input.
\<close>

record mantissa =
  m_value :: nat
  m_frac :: nat
  m_dot :: bool
  m_digits :: bool
  m_under :: bool

fun read_mantissa :: "bool \<Rightarrow> string \<Rightarrow> mantissa \<Rightarrow> mantissa \<times> string" where
  "read_mantissa hex [] m = (m, [])"
| "read_mantissa hex (c # cs) m =
     (if c = CHR ''_'' then read_mantissa hex cs (m\<lparr>m_under := True\<rparr>)
      else if c = CHR ''.''
      then (if m_dot m then (m, c # cs) else read_mantissa hex cs (m\<lparr>m_dot := True\<rparr>))
      else if is_digit c \<or> hex \<and> hex_letter c
      then let d = (if is_digit c then digit_of c else of_char (lower c) - 87) in
           read_mantissa hex cs
             (m\<lparr>m_value := (if hex then 16 else 10) * m_value m + d,
                m_frac := (if m_dot m then Suc (m_frac m) else m_frac m), m_digits := True\<rparr>)
      else (m, c # cs))"

text \<open>The exponent loop: digits saturate at 10000, underscores are skipped.\<close>

fun read_exponent :: "string \<Rightarrow> nat \<Rightarrow> bool \<Rightarrow> (nat \<times> bool) \<times> string" where
  "read_exponent [] e u = ((e, u), [])"
| "read_exponent (c # cs) e u =
     (if c = CHR ''_'' then read_exponent cs e True
      else if is_digit c then read_exponent cs (if e < 10000 then 10 * e + digit_of c else e) u
      else ((e, u), c # cs))"

fun underscoreOK_loop :: "bool \<Rightarrow> string \<Rightarrow> char \<Rightarrow> bool" where
  "underscoreOK_loop hex [] saw \<longleftrightarrow> saw \<noteq> CHR ''_''"
| "underscoreOK_loop hex (c # cs) saw \<longleftrightarrow>
     (if is_digit c \<or> hex \<and> hex_letter c then underscoreOK_loop hex cs (CHR ''0'')
      else if c = CHR ''_'' then saw = CHR ''0'' \<and> underscoreOK_loop hex cs (CHR ''_'')
      else saw \<noteq> CHR ''_'' \<and> underscoreOK_loop hex cs (CHR ''!''))"

definition underscoreOK :: "string \<Rightarrow> bool" where
  "underscoreOK s =
     (let r = snd (strip_sign s) in
      if length r \<ge> 2 \<and> r ! 0 = CHR ''0'' \<and> lower (r ! 1) \<in> set ''box''
      then underscoreOK_loop (lower (r ! 1) = CHR ''x'') (drop 2 r) (CHR ''0'')
      else underscoreOK_loop False r (CHR ''^''))"

text \<open>
  \<open>readFloat\<close> and the conversion: the exact rational is rounded once.  The sign, the hexadecimal
  prefix, the mantissa and the exponent are read in turn; the whole string must be used.
\<close>

definition pow_int :: "rat \<Rightarrow> int \<Rightarrow> rat" where
  "pow_int b e = (if 0 \<le> e then b ^ nat e else 1 / b ^ nat (- e))"

definition readFloat :: "string \<Rightarrow> (bool \<times> rat) option" where
  "readFloat s =
     (let (neg, r) = strip_sign s;
          hex = (length r > 2 \<and> r ! 0 = CHR ''0'' \<and> lower (r ! 1) = CHR ''x'');
          (m, rest) = read_mantissa hex (if hex then drop 2 r else r)
            \<lparr>m_value = 0, m_frac = 0, m_dot = False, m_digits = False, m_under = False\<rparr>;
          base = (if hex then 2 else 10);
          frac = (if hex then 4 * m_frac m else m_frac m) in
      if \<not> m_digits m then None
      else case rest of
        [] \<Rightarrow> if hex \<or> m_under m \<and> \<not> underscoreOK s then None
               else Some (neg, of_nat (m_value m) * pow_int base (- int frac))
      | c # cs \<Rightarrow>
          if lower c \<noteq> (if hex then CHR ''p'' else CHR ''e'') then None
          else let (eneg, es) = strip_sign cs in
            if es = [] \<or> \<not> is_digit (hd es) then None
            else let ((e, u), rest') = read_exponent es 0 (m_under m) in
              if rest' \<noteq> [] \<or> u \<and> \<not> underscoreOK s then None
              else Some (neg, if m_value m = 0 then 0
                else of_nat (m_value m) * pow_int base ((if eneg then - int e else int e) - int frac)))"

definition ParseFloat :: "string \<Rightarrow> float64 \<times> num_error option" where
  "ParseFloat s =
     (case special s of
        Some f \<Rightarrow> (f, None)
      | None \<Rightarrow> (case readFloat s of
            None \<Rightarrow> (Fin False 0, Some ErrSyntax)
          | Some (neg, q) \<Rightarrow>
              (case round64 neg q of
                 Inf b \<Rightarrow> (Inf b, Some ErrRange)
               | f \<Rightarrow> (f, None))))"

end
