(* ===== verification/Go_Time.thy ===== *)
theory Go_Time
  imports Go_Strings
begin

text \<open>
  What the program uses of Go's \<open>time\<close> package: the proleptic Gregorian calendar, instants as
  seconds and nanoseconds since 1970, the layout \<open>060102150405\<close> of \<open>time.Parse\<close> and the layout
  \<open>2006-01-02 15:04:05\<close> of \<open>Format\<close>.
\<close>

section \<open>The calendar\<close>

definition is_leap :: "int \<Rightarrow> bool" where
  "is_leap y \<longleftrightarrow> y mod 4 = 0 \<and> (y mod 100 \<noteq> 0 \<or> y mod 400 = 0)"

definition year_len :: "int \<Rightarrow> int" where
  "year_len y = (if is_leap y then 366 else 365)"

text \<open>Days from 1970-01-01 to January 1 of a year.\<close>

definition year_start :: "int \<Rightarrow> int" where
  "year_start y = 365 * (y - 1970) + ((y - 1) div 4 - (y - 1) div 100 + (y - 1) div 400) - 477"

text \<open>The days of the year before a month, and the month of a day of the year.\<close>

definition month_starts :: "int list" where
  "month_starts = [0, 31, 59, 90, 120, 151, 181, 212, 243, 273, 304, 334]"

definition month_start :: "bool \<Rightarrow> nat \<Rightarrow> int" where
  "month_start leap m = month_starts ! (m - 1) + (if leap \<and> 2 < m then 1 else 0)"

definition month_len :: "bool \<Rightarrow> nat \<Rightarrow> int" where
  "month_len leap m =
     (if m = 2 then (if leap then 29 else 28) else if m \<in> {4, 6, 9, 11} then 30 else 31)"

definition month_of :: "bool \<Rightarrow> int \<Rightarrow> nat" where
  "month_of leap yd =
     (case find (\<lambda>m. yd < month_start leap m + month_len leap m) [1 ..< 12] of Some m \<Rightarrow> m | None \<Rightarrow> 12)"

definition days_of_date :: "int \<Rightarrow> nat \<Rightarrow> int \<Rightarrow> int" where
  "days_of_date y m d = year_start y + month_start (is_leap y) m + d - 1"

text \<open>The year of a day, by cycles of 400, 100, 4 and 1 years.\<close>

definition year_of :: "int \<Rightarrow> int" where
  "year_of n =
     (let d = n + 719162;
          c400 = d div 146097; d1 = d mod 146097;
          c100 = min (d1 div 36524) 3; d2 = d1 - 36524 * c100;
          c4 = d2 div 1461; d3 = d2 mod 1461;
          c1 = min (d3 div 365) 3
      in 400 * c400 + 100 * c100 + 4 * c4 + c1 + 1)"

definition date_of_days :: "int \<Rightarrow> int \<times> nat \<times> int" where
  "date_of_days n =
     (let y = year_of n; yd = n - year_start y; m = month_of (is_leap y) yd
      in (y, m, yd - month_start (is_leap y) m + 1))"

section \<open>Instants\<close>

record Time =
  t_sec :: int
  t_nsec :: int

text \<open>Instants are ordered as in time: \<open>Before\<close> is \<open><\<close>.\<close>

instantiation Time_ext :: (linorder) linorder
begin

definition less_eq_Time_ext :: "('a :: linorder) Time_scheme \<Rightarrow> 'a Time_scheme \<Rightarrow> bool" where
  "less_eq_Time_ext a b \<longleftrightarrow> t_sec a < t_sec b \<or> t_sec a = t_sec b \<and>
     (t_nsec a < t_nsec b \<or> t_nsec a = t_nsec b \<and> Time.more a \<le> Time.more b)"

definition less_Time_ext :: "('a :: linorder) Time_scheme \<Rightarrow> 'a Time_scheme \<Rightarrow> bool" where
  "less_Time_ext a b \<longleftrightarrow> a \<le> b \<and> \<not> b \<le> a"

instance
  by standard (auto simp: less_Time_ext_def less_eq_Time_ext_def intro: Time.equality)

end

lemma Time_less: "(a :: Time) < b \<longleftrightarrow> t_sec a < t_sec b \<or> t_sec a = t_sec b \<and> t_nsec a < t_nsec b"
  by (auto simp: less_Time_ext_def less_eq_Time_ext_def)

text \<open>\<open>time.Date(\<dots>, time.UTC)\<close>, \<open>time.UnixMilli\<close>, and \<open>Add\<close> of a duration in nanoseconds.\<close>

definition DateUTC :: "int \<Rightarrow> nat \<Rightarrow> int \<Rightarrow> int \<Rightarrow> int \<Rightarrow> int \<Rightarrow> int \<Rightarrow> Time" where
  "DateUTC y m d hh mm ss ns =
     \<lparr>t_sec = 86400 * days_of_date y m d + 3600 * hh + 60 * mm + ss, t_nsec = ns\<rparr>"

definition UnixMilli :: "int \<Rightarrow> Time" where
  "UnixMilli ms = \<lparr>t_sec = ms div 1000, t_nsec = (ms mod 1000) * 1000000\<rparr>"

definition t_Add :: "Time \<Rightarrow> int \<Rightarrow> Time" where
  "t_Add t d = (let n = t_nsec t + d in
     \<lparr>t_sec = t_sec t + n div 1000000000, t_nsec = n mod 1000000000\<rparr>)"

abbreviation Second :: int where "Second \<equiv> 1000000000"
abbreviation Minute :: int where "Minute \<equiv> 60 * Second"
abbreviation Hour :: int where "Hour \<equiv> 60 * Minute"

section \<open>The layout \<open>2006-01-02 15:04:05\<close>\<close>

definition int_pad :: "nat \<Rightarrow> int \<Rightarrow> string" where
  "int_pad w i = (if i < 0 then ''-'' else []) @ pad w (nat \<bar>i\<bar>)"

definition format_datetime :: "int \<Rightarrow> string" where
  "format_datetime s =
     (let (y, m, d) = date_of_days (s div 86400); r = s mod 86400 in
      int_pad 4 y @ ''-'' @ pad 2 m @ ''-'' @ int_pad 2 d @ '' '' @
      int_pad 2 (r div 3600) @ '':'' @ int_pad 2 (r div 60 mod 60) @ '':'' @ int_pad 2 (r mod 60))"

definition FormatDateTime :: "Time \<Rightarrow> string" where
  "FormatDateTime t = format_datetime (t_sec t)"

section \<open>The layout \<open>060102150405\<close>\<close>

definition is_digit_at :: "string \<Rightarrow> nat \<Rightarrow> bool" where
  "is_digit_at s i \<longleftrightarrow> i < length s \<and> 48 \<le> (of_char (s ! i) :: nat) \<and> (of_char (s ! i) :: nat) \<le> 57"

definition dval :: "char \<Rightarrow> int" where
  "dval c = of_char c - 48"

text \<open>\<open>getnum(s, fixed)\<close>: one or two digits, two where \<open>fixed\<close>.\<close>

definition getnum :: "string \<Rightarrow> bool \<Rightarrow> (int \<times> string) option" where
  "getnum s fixed =
     (if \<not> is_digit_at s 0 then None
      else if \<not> is_digit_at s 1
      then (if fixed then None else Some (dval (s ! 0), drop 1 s))
      else Some (10 * dval (s ! 0) + dval (s ! 1), drop 2 s))"

text \<open>
  The package's own \<open>atoi\<close> on the two characters of the year: a sign is allowed, and a sign
  alone is zero.
\<close>

definition atoi_year :: "string \<Rightarrow> int option" where
  "atoi_year p =
     (let neg = p \<noteq> [] \<and> hd p = CHR ''-'';
          ds = (if p \<noteq> [] \<and> hd p \<in> set ''+-'' then tl p else p) in
      if list_all (\<lambda>c. 48 \<le> (of_char c :: nat) \<and> (of_char c :: nat) \<le> 57) ds
      then Some ((if neg then - 1 else 1) * foldl (\<lambda>n c. 10 * n + dval c) 0 ds) else None)"

definition parse_year :: "string \<Rightarrow> (int \<times> string) option" where
  "parse_year s =
     (if length s < 2 then None
      else map_option (\<lambda>y. (if y \<ge> 69 then y + 1900 else y + 2000, drop 2 s)) (atoi_year (take 2 s)))"

text \<open>
  A fraction after the seconds is accepted although the layout has none: up to nine digits
  count, the rest are skipped.
\<close>

definition parse_fraction :: "string \<Rightarrow> int \<times> string" where
  "parse_fraction s =
     (if length s \<ge> 2 \<and> s ! 0 \<in> set ''.,'' \<and> is_digit_at s 1
      then let ds = takeWhile (\<lambda>c. 48 \<le> (of_char c :: nat) \<and> (of_char c :: nat) \<le> 57) (drop 1 s);
               us = take 9 ds
           in (foldl (\<lambda>n c. 10 * n + dval c) 0 us * 10 ^ (9 - length us), drop (1 + length ds) s)
      else (0, s))"

definition range_num :: "string \<Rightarrow> bool \<Rightarrow> int \<Rightarrow> int \<Rightarrow> (int \<times> string) option" where
  "range_num s fixed lo hi =
     (case getnum s fixed of
        Some (n, r) \<Rightarrow> if lo \<le> n \<and> n < hi then Some (n, r) else None
      | None \<Rightarrow> None)"

definition ParseTime :: "string \<Rightarrow> Time option" where
  "ParseTime s0 =
     Option.bind (parse_year s0) (\<lambda>(year, s1).
     Option.bind (range_num s1 True 1 13) (\<lambda>(month, s2).
     Option.bind (getnum s2 True) (\<lambda>(day, s3).
     Option.bind (range_num s3 False 0 24) (\<lambda>(hour, s4).
     Option.bind (range_num s4 True 0 60) (\<lambda>(minute, s5).
     Option.bind (range_num s5 True 0 60) (\<lambda>(second, s6).
     let (nsec, s7) = parse_fraction s6 in
     if s7 \<noteq> [] \<or> day < 1 \<or> day > month_len (is_leap year) (nat month) then None
     else Some (DateUTC year (nat month) day hour minute second nsec)))))))"

end
