(* ===== verification/Go_Sort.thy ===== *)
theory Go_Sort
  imports Main "HOL-Library.Multiset"
begin

text \<open>
  \<open>sort.Slice\<close>: the package promises a permutation that is ordered with respect to the
  comparison, and no more, since the sort is not stable.  The promise is the locale
  \<open>slice_sort\<close>; the library's insertion sort, which it uses for short slices, is an instance.
\<close>

type_synonym 'a sorter = "('a \<Rightarrow> 'a \<Rightarrow> bool) \<Rightarrow> 'a list \<Rightarrow> 'a list"

definition strict_weak :: "('a \<Rightarrow> 'a \<Rightarrow> bool) \<Rightarrow> bool" where
  "strict_weak lt \<longleftrightarrow> (\<forall>a b. lt a b \<longrightarrow> \<not> lt b a) \<and>
     (\<forall>a b c. \<not> lt a b \<longrightarrow> \<not> lt b c \<longrightarrow> \<not> lt a c)"

locale slice_sort =
  fixes sort_Slice :: "'a sorter"
  assumes mset_sort: "mset (sort_Slice lt xs) = mset xs"
    and ordered_sort: "strict_weak lt \<Longrightarrow> sorted_wrt (\<lambda>a b. \<not> lt b a) (sort_Slice lt xs)"
begin

lemma set_sort: "set (sort_Slice lt xs) = set xs"
  using mset_sort [of lt xs] by (rule mset_eq_setD)

lemma length_sort: "length (sort_Slice lt xs) = length xs"
  using mset_sort [of lt xs] by (rule mset_eq_length)

lemma sort_Nil: "sort_Slice lt [] = []"
  using length_sort [of lt "[]"] by simp

lemma ordered_key:
  fixes key :: "'a \<Rightarrow> 'k::linorder"
  assumes "\<And>a b. lt a b \<longleftrightarrow> key a < key b"
  shows "sorted (map key (sort_Slice lt xs))"
proof -
  have "strict_weak lt" by (auto simp: strict_weak_def assms)
  then show ?thesis using ordered_sort [of lt xs] by (simp add: sorted_wrt_map assms not_less)
qed

end

text \<open>The loop \<open>for j := i; j > 0 && lt(j, j-1); j-- { swap(j, j-1) }\<close> on a sorted prefix.\<close>

fun insert_back :: "('a \<Rightarrow> 'a \<Rightarrow> bool) \<Rightarrow> 'a \<Rightarrow> 'a list \<Rightarrow> 'a list" where
  "insert_back lt x [] = [x]"
| "insert_back lt x (y # ys) = (if lt x y then y # insert_back lt x ys else x # y # ys)"

definition insertionSort :: "'a sorter" where
  "insertionSort lt xs = rev (foldl (\<lambda>ys x. insert_back lt x ys) [] xs)"

lemma mset_insert_back: "mset (insert_back lt x ys) = add_mset x (mset ys)"
  by (induction ys) auto

lemma sorted_insert_back:
  assumes "strict_weak lt" and "sorted_wrt (\<lambda>a b. \<not> lt a b) ys"
  shows "sorted_wrt (\<lambda>a b. \<not> lt a b) (insert_back lt x ys)"
  using assms(2)
proof (induction ys)
  case (Cons y ys)
  have set: "set (insert_back lt x ys) = insert x (set ys)"
    using mset_insert_back [of lt x ys] by (metis set_mset_add_mset_insert set_mset_mset)
  show ?case
  proof (cases "lt x y")
    case True
    then have "\<not> lt y x" using assms(1) unfolding strict_weak_def by meson
    moreover have "\<forall>z \<in> set ys. \<not> lt y z" "sorted_wrt (\<lambda>a b. \<not> lt a b) ys"
      using Cons.prems by simp_all
    ultimately show ?thesis using True Cons.IH set by simp
  next
    case False
    have "\<not> lt x z" if "z \<in> set ys" for z
    proof -
      have "\<not> lt y z" using Cons.prems that by simp
      with False assms(1) show ?thesis unfolding strict_weak_def by meson
    qed
    with False Cons.prems show ?thesis by simp
  qed
qed simp

lemma insertionSort_ordered:
  assumes "strict_weak lt"
  shows "sorted_wrt (\<lambda>a b. \<not> lt b a) (insertionSort lt xs)"
proof -
  have "sorted_wrt (\<lambda>a b. \<not> lt a b) (foldl (\<lambda>ys x. insert_back lt x ys) acc xs)"
    if "sorted_wrt (\<lambda>a b. \<not> lt a b) acc" for acc
    using that by (induction xs arbitrary: acc) (auto intro: sorted_insert_back [OF assms])
  then show ?thesis by (simp add: insertionSort_def sorted_wrt_rev)
qed

lemma insertionSort_mset: "mset (insertionSort lt xs) = mset xs"
proof -
  have "mset (foldl (\<lambda>ys x. insert_back lt x ys) acc xs) = mset acc + mset xs" for acc
    by (induction xs arbitrary: acc) (simp_all add: mset_insert_back)
  then show ?thesis by (simp add: insertionSort_def)
qed

interpretation insertion: slice_sort insertionSort
  by unfold_locales (simp_all add: insertionSort_mset insertionSort_ordered)

end
