(* ===== verification/Crc16.thy ===== *)
theory Crc16
  imports Go_Base
begin

text \<open>
  The checksum of a Teltonika data field (\<open>internal/teltonika/codec/crc16ibm.go\<close>): the
  bitwise loop of the code, its linearity, the injectivity of a step, the detection of every
  corruption confined to two adjacent bytes, and the equivalence with the textbook
  shift-left division by the polynomial \<open>0x8005\<close> on reflected data.
\<close>

section \<open>The code\<close>

definition crc_bit :: "u16 \<Rightarrow> u16" where
  "crc_bit crc = (if crc AND 1 \<noteq> 0 then drop_bit 1 crc XOR 0xA001 else drop_bit 1 crc)"

definition crc_byte :: "u16 \<Rightarrow> u8 \<Rightarrow> u16" where
  "crc_byte crc b = (crc_bit ^^ 8) (crc XOR ucast b)"

definition CRC16IBM :: "u8 list \<Rightarrow> u16" where
  "CRC16IBM data = foldl crc_byte 0 data"

section \<open>Linearity and injectivity\<close>

lemma and_one_neq_zero: "(w AND 1 \<noteq> 0) = bit (w :: 'a::len word) 0"
  by (simp add: and_one_eq bit_0 odd_iff_mod_2_eq_one)

lemma word_xor_eq_0: "a XOR b = 0 \<longleftrightarrow> a = (b :: 'a::len word)"
proof
  assume "a XOR b = 0"
  then have "\<not> bit (a XOR b) k" for k by simp
  then show "a = b" by (intro bit_word_eqI) (simp add: bit_xor_iff)
qed simp

lemma word_xor_cancel: "a XOR c = b XOR c \<longleftrightarrow> a = (b :: 'a::len word)"
proof
  assume "a XOR c = b XOR c"
  then have "bit (a XOR c) k = bit (b XOR c) k" for k by simp
  then show "a = b" by (intro bit_word_eqI) (auto simp: bit_xor_iff)
qed simp

lemma crc_bit_alt: "crc_bit c = drop_bit 1 c XOR (if bit c 0 then 0xA001 else 0)"
  unfolding crc_bit_def and_one_neq_zero by simp

lemma crc_bit_xor: "crc_bit (a XOR b) = crc_bit a XOR crc_bit b"
proof -
  have "drop_bit 1 (a XOR b) = drop_bit 1 a XOR drop_bit 1 b"
    by (rule drop_bit_xor)
  moreover have "bit (a XOR b) 0 = (bit a 0 \<noteq> bit b 0)"
    by (simp only: bit_xor_iff)
  ultimately show ?thesis
    by (simp add: crc_bit_alt ac_simps xor.left_commute)
qed

lemma crc_bits_xor: "(crc_bit ^^ n) (a XOR b) = (crc_bit ^^ n) a XOR (crc_bit ^^ n) b"
  by (induction n) (auto simp: crc_bit_xor)

lemma crc_byte_xor: "crc_byte (a XOR c) (b XOR d) = crc_byte a b XOR crc_byte c d"
proof -
  have "ucast (b XOR d) = (ucast b XOR ucast d :: u16)"
    by (intro bit_word_eqI) (simp add: bit_ucast_iff bit_xor_iff)
  then have "(a XOR c) XOR ucast (b XOR d) = (a XOR ucast b) XOR (c XOR ucast d)"
    by (simp add: ac_simps)
  then show ?thesis by (simp add: crc_byte_def crc_bits_xor)
qed

lemma crc_bit_eq_0: "crc_bit c = 0 \<Longrightarrow> c = 0"
proof (rule bit_word_eqI)
  fix k
  assume zero: "crc_bit c = 0" and k: "k < LENGTH(16)"
  have top: "bit (crc_bit c) 15 = bit c 0"
    by (auto simp: crc_bit_alt bit_xor_iff bit_drop_bit_eq dest: bit_imp_le_length)
  then have c0: "\<not> bit c 0" using zero by simp
  show "bit c k = bit (0 :: u16) k"
  proof (cases k)
    case 0
    with c0 show ?thesis by simp
  next
    case (Suc j)
    have "bit (crc_bit c) j = bit c (Suc j)"
      using c0 by (simp add: crc_bit_alt bit_drop_bit_eq)
    with zero Suc show ?thesis by simp
  qed
qed

lemma crc_bits_eq_0: "(crc_bit ^^ n) c = 0 \<Longrightarrow> c = 0"
proof (induction n)
  case (Suc n)
  from Suc.prems have "crc_bit ((crc_bit ^^ n) c) = 0" by simp
  then have "(crc_bit ^^ n) c = 0" by (rule crc_bit_eq_0)
  then show ?case by (rule Suc.IH)
qed simp

lemma crc_bits_inj: "(crc_bit ^^ n) a = (crc_bit ^^ n) b \<longleftrightarrow> a = b"
proof
  assume "(crc_bit ^^ n) a = (crc_bit ^^ n) b"
  then have "(crc_bit ^^ n) (a XOR b) = 0" by (simp add: crc_bits_xor)
  then have "a XOR b = 0" by (rule crc_bits_eq_0)
  then show "a = b" by (simp only: word_xor_eq_0)
qed simp

lemma crc_byte_inj_state: "crc_byte a b = crc_byte c b \<longleftrightarrow> a = c"
  by (simp add: crc_byte_def crc_bits_inj word_xor_cancel)

lemma foldl_crc_inj_state: "foldl crc_byte a xs = foldl crc_byte c xs \<longleftrightarrow> a = c"
  by (induction xs arbitrary: a c) (auto simp: crc_byte_inj_state)

section \<open>Detection of a corrupted pair of bytes\<close>

text \<open>Eight steps move the high byte of the register into the low byte without feedback.\<close>

lemma crc_bit_push: "0 < n \<Longrightarrow> n \<le> 8 \<Longrightarrow>
    crc_bit (push_bit n (ucast (b :: u8))) = push_bit (n - 1) (ucast b)"
  by (rule bit_word_eqI)
     (auto simp: crc_bit_alt bit_drop_bit_eq bit_push_bit_iff bit_ucast_iff Suc_diff_le
           dest: bit_imp_le_length)

lemma crc_bits_push: "n \<le> k \<Longrightarrow> k \<le> 8 \<Longrightarrow>
    (crc_bit ^^ n) (push_bit k (ucast (b :: u8))) = push_bit (k - n) (ucast b)"
  by (induction n) (auto simp: crc_bit_push)

lemma crc_bits_high: "(crc_bit ^^ 8) (push_bit 8 (ucast (b :: u8))) = ucast b"
  using crc_bits_push [of 8 8 b] by simp

lemma crc_pair_inj:
  assumes "crc_byte (crc_byte s a) b = crc_byte (crc_byte s c) d"
  shows "a = c \<and> b = d"
proof -
  have "(crc_bit ^^ 8) (s XOR ucast a) XOR ucast b = (crc_bit ^^ 8) (s XOR ucast c) XOR ucast d"
    using assms by (simp add: crc_byte_def crc_bits_inj)
  then have "(crc_bit ^^ 8) ((s XOR ucast a) XOR push_bit 8 (ucast b)) =
             (crc_bit ^^ 8) ((s XOR ucast c) XOR push_bit 8 (ucast d))"
    by (simp only: crc_bits_xor crc_bits_high)
  then have eq: "(s XOR ucast a) XOR push_bit 8 (ucast b) = (s XOR ucast c) XOR push_bit 8 (ucast d)"
    by (simp only: crc_bits_inj)
  have bits: "bit ((s XOR ucast a) XOR push_bit 8 (ucast b)) k =
              bit ((s XOR ucast c) XOR push_bit 8 (ucast d)) k" for k
    by (simp only: eq)
  have "bit a k = bit c k" if "k < 8" for k
    using bits [of k] that by (auto simp: bit_xor_iff bit_push_bit_iff bit_ucast_iff)
  moreover have "bit b k = bit d k" if "k < 8" for k
    using bits [of "k + 8"] that
    by (auto simp: bit_xor_iff bit_push_bit_iff bit_ucast_iff dest: bit_imp_le_length)
  ultimately show ?thesis by (auto intro!: bit_word_eqI)
qed

lemma CRC16IBM_pair_corruption:
  assumes "CRC16IBM (pre @ [a, b] @ post) = CRC16IBM (pre @ [c, d] @ post)"
  shows "a = c \<and> b = d"
proof (rule crc_pair_inj)
  show "crc_byte (crc_byte (foldl crc_byte 0 pre) a) b =
        crc_byte (crc_byte (foldl crc_byte 0 pre) c) d"
    using assms by (simp add: CRC16IBM_def foldl_crc_inj_state)
qed

section \<open>The textbook division\<close>

text \<open>
  The reference: the message is divided by the polynomial \<open>0x8005\<close>, most significant bit
  first, every byte and the remainder being bit-reversed, as the comment of the code says.
\<close>

definition div_bit :: "u16 \<Rightarrow> u16" where
  "div_bit r = (if bit r 15 then push_bit 1 r XOR 0x8005 else push_bit 1 r)"

definition div_byte :: "u16 \<Rightarrow> u8 \<Rightarrow> u16" where
  "div_byte r b = (div_bit ^^ 8) (r XOR push_bit 8 (ucast (word_reverse b)))"

definition crc_reference :: "u8 list \<Rightarrow> u16" where
  "crc_reference data = word_reverse (foldl div_byte 0 data)"

lemma word_reverse_xor: "word_reverse (a XOR b) = word_reverse a XOR word_reverse (b :: 'a::len word)"
  by (rule bit_word_eqI) (simp add: bit_word_reverse_iff bit_xor_iff)

lemma div_bit_reverse: "word_reverse (div_bit (word_reverse c)) = crc_bit c"
proof -
  have top: "bit (word_reverse c) 15 = bit c 0"
    by (simp add: bit_word_reverse_iff)
  have "word_reverse (push_bit 1 (word_reverse c)) = drop_bit 1 c"
  proof (rule bit_word_eqI)
    fix k assume "k < LENGTH(16)"
    moreover from this have "k = 15 \<or> 15 - (14 - k) = Suc k" by auto
    ultimately show "bit (word_reverse (push_bit 1 (word_reverse c))) k = bit (drop_bit 1 c) k"
      unfolding bit_word_reverse_iff bit_push_bit_iff bit_drop_bit_eq
      by (auto dest: bit_imp_le_length)
  qed
  moreover have "word_reverse (0x8005 :: u16) = 0xA001" by code_simp
  ultimately show ?thesis
    by (simp add: div_bit_def crc_bit_alt top word_reverse_xor)
qed

lemma div_bits_reverse: "word_reverse ((div_bit ^^ n) (word_reverse c)) = (crc_bit ^^ n) c"
proof (induction n)
  case (Suc n)
  have "(div_bit ^^ n) (word_reverse c) = word_reverse ((crc_bit ^^ n) c)"
    by (simp add: Suc.IH [symmetric])
  then show ?case by (simp add: div_bit_reverse)
qed simp

lemma div_byte_reverse: "word_reverse (div_byte (word_reverse r) b) = crc_byte r b"
proof -
  have "push_bit 8 (ucast (word_reverse b)) = word_reverse (ucast b :: u16)"
  proof (rule bit_word_eqI)
    fix k assume k: "k < LENGTH(16)"
    show "bit (push_bit 8 (ucast (word_reverse b)) :: u16) k = bit (word_reverse (ucast b :: u16)) k"
    proof (cases "8 \<le> k")
      case True
      then have "7 - (k - 8) = 15 - k" by arith
      with True k show ?thesis
        by (auto simp: bit_word_reverse_iff bit_push_bit_iff bit_ucast_iff)
    next
      case False
      then show ?thesis
        by (auto simp: bit_word_reverse_iff bit_push_bit_iff bit_ucast_iff dest: bit_imp_le_length)
    qed
  qed
  then have "word_reverse r XOR push_bit 8 (ucast (word_reverse b)) = word_reverse (r XOR ucast b)"
    by (simp add: word_reverse_xor)
  then show ?thesis by (simp add: div_byte_def crc_byte_def div_bits_reverse)
qed

lemma foldl_div_reverse: "word_reverse (foldl div_byte (word_reverse r) data) = foldl crc_byte r data"
proof (induction data arbitrary: r)
  case (Cons b data)
  have "div_byte (word_reverse r) b = word_reverse (crc_byte r b)"
    by (simp add: div_byte_reverse [symmetric])
  then show ?case by (simp add: Cons.IH)
qed simp

text \<open>
  C31: The bitwise checksum of the code is the remainder of the textbook division by the
  polynomial \<open>0x8005\<close>, bytes and remainder bit-reversed, for every byte sequence.
\<close>

theorem CRC16IBM_reference: "CRC16IBM data = crc_reference data"
proof -
  have "word_reverse (0 :: u16) = 0" by (rule bit_word_eqI) (simp add: bit_word_reverse_iff)
  then show ?thesis using foldl_div_reverse [of 0 data] by (simp add: CRC16IBM_def crc_reference_def)
qed

end
