(* ===== verification/Teltonika_Codec.thy ===== *)
theory Teltonika_Codec
  imports Crc16 Go_Float Go_Strings
begin

text \<open>
  The Teltonika AVL decoder (\<open>internal/teltonika/codec\<close>): format detection, the record
  layouts of codecs 8, 8 Extended and 16, the IO block, one record, and the packet.  Byte
  slices carry their capacity, so a slice expression outside the capacity is a panic here
  exactly when it is one in Go.
\<close>

section \<open>Format detection (detect.go)\<close>

datatype Format = FormatUnknown | FormatHooshnicJSON | FormatTeltonikaAVL | FormatTeltonikaQueued

definition teltonikaQueuedPrefix :: string where
  "teltonikaQueuedPrefix = ''{'' @ [CHR 0x22] @ ''_teltonika'' @ [CHR 0x22] @ '':''"

definition DetectFormat :: "u8 list \<Rightarrow> Format" where
  "DetectFormat data =
     (if length data \<ge> length teltonikaQueuedPrefix \<and> HasPrefix data (bytes_of teltonikaQueuedPrefix)
      then FormatTeltonikaQueued
      else if length data \<ge> 9 \<and> data ! 0 = 0 \<and> data ! 1 = 0 \<and> data ! 2 = 0 \<and> data ! 3 = 0 \<and>
              (data ! 8 = 0x08 \<or> data ! 8 = 0x8E \<or> data ! 8 = 0x10)
      then FormatTeltonikaAVL
      else if length data > 0 \<and> (data ! 0 = of_char (CHR ''['') \<or> data ! 0 = of_char (CHR ''{''))
      then FormatHooshnicJSON
      else FormatUnknown)"

section \<open>Records, layouts and errors (record.go)\<close>

record Record =
  TimestampMs :: u64
  Priority :: u8
  Lat :: float64
  Lon :: float64
  Altitude :: u16
  Angle :: u16
  Satellites :: u8
  Speed_avl :: u16
  EventIOID :: u16
  Generation :: u8
  IOs :: "u16 \<rightharpoonup> u64"
  RawBytes :: "u8 list"

text \<open>The zero value \<open>Record{}\<close>.\<close>

definition zeroRecord :: Record where
  "zeroRecord = \<lparr>TimestampMs = 0, Priority = 0, Lat = Fin False 0, Lon = Fin False 0,
     Altitude = 0, Angle = 0, Satellites = 0, Speed_avl = 0, EventIOID = 0, Generation = 0,
     IOs = Map.empty, RawBytes = []\<rparr>"

record ioLayout =
  eventIDWidth :: nat
  countWidth :: nat
  idWidth :: nat
  hasGeneration :: bool
  hasVariableIO :: bool

datatype codec_error =
    PacketTooShort nat
  | InvalidPreamble
  | InvalidDataFieldLength u32
  | PacketTruncated nat nat
  | CRCMismatch u32 u32
  | PayloadTooShort
  | RecordCountMismatch nat nat
  | UnexpectedEndOfRecords nat
  | AtRecord nat codec_error
  | TrailingBytes
  | ParsedRecords nat nat
  | EndOfIOBlock
  | EndOfIOID
  | MissingEventIOID
  | MissingGeneration
  | EndOfIOValue
  | MissingVariableIOLength
  | EndOfVariableIOValue
  | UnsupportedCodecID u8
  | RecordTooShort

definition layoutForCodec :: "u8 \<Rightarrow> (codec_error, ioLayout) result" where
  "layoutForCodec codecID =
     (if codecID = 0x08
      then Ok \<lparr>eventIDWidth = 1, countWidth = 1, idWidth = 1, hasGeneration = False,
               hasVariableIO = False\<rparr>
      else if codecID = 0x8E
      then Ok \<lparr>eventIDWidth = 2, countWidth = 2, idWidth = 2, hasGeneration = False,
               hasVariableIO = True\<rparr>
      else if codecID = 0x10
      then Ok \<lparr>eventIDWidth = 2, countWidth = 1, idWidth = 2, hasGeneration = True,
               hasVariableIO = False\<rparr>
      else Err (UnsupportedCodecID codecID))"

text \<open>\<open>binary.BigEndian.UintN(buf[off : off+n])\<close>.\<close>

definition be_at :: "nat \<Rightarrow> u8 slice \<Rightarrow> nat \<Rightarrow> ('e, 'a::len word) result" where
  "be_at n buf off = andThen (reslice buf off (off + n)) (\<lambda>s. Ok (be_word (elems s)))"

definition parseGPS ::
  "u8 slice \<Rightarrow> (codec_error, float64 \<times> float64 \<times> u16 \<times> u16 \<times> u16 \<times> u8) result" where
  "parseGPS buf =
     andThen (be_at 4 buf 0) (\<lambda>rawLon :: u32.
     andThen (be_at 4 buf 4) (\<lambda>rawLat :: u32.
     andThen (be_at 2 buf 8) (\<lambda>altitude.
     andThen (be_at 2 buf 10) (\<lambda>angle.
     andThen (index buf 12) (\<lambda>satellites.
     andThen (be_at 2 buf 13) (\<lambda>speed.
       let lon = f_div (f_of_int (sint rawLon)) (Fin False 10000000);
           lat = f_div (f_of_int (sint rawLat)) (Fin False 10000000)
       in Ok (lat, lon, altitude, angle, speed, satellites)))))))"

section \<open>The IO block (record.go)\<close>

definition readIOCount :: "u8 slice \<Rightarrow> nat \<Rightarrow> nat \<Rightarrow> (codec_error, u16 \<times> nat) result" where
  "readIOCount buf off width =
     (if width = 1
      then (if off \<ge> slen buf then Err EndOfIOBlock
            else andThen (index buf off) (\<lambda>b. Ok (ucast b, off + 1)))
      else if off + 2 > slen buf then Err EndOfIOBlock
      else andThen (be_at 2 buf off) (\<lambda>v. Ok (v, off + 2)))"

definition readIOID :: "u8 slice \<Rightarrow> nat \<Rightarrow> nat \<Rightarrow> (codec_error, u16 \<times> nat) result" where
  "readIOID buf off width =
     (if width = 1
      then (if off \<ge> slen buf then Err EndOfIOID
            else andThen (index buf off) (\<lambda>b. Ok (ucast b, off + 1)))
      else if off + 2 > slen buf then Err EndOfIOID
      else andThen (be_at 2 buf off) (\<lambda>v. Ok (v, off + 2)))"

definition readIOValue :: "u8 slice \<Rightarrow> nat \<Rightarrow> nat \<Rightarrow> (codec_error, u64) result" where
  "readIOValue buf off valueSize =
     (if valueSize = 1 then andThen (index buf off) (\<lambda>b. Ok (ucast b))
      else if valueSize = 2 then andThen (be_at 2 buf off) (\<lambda>v :: u16. Ok (ucast v))
      else if valueSize = 4 then andThen (be_at 4 buf off) (\<lambda>v :: u32. Ok (ucast v))
      else if valueSize = 8 then be_at 8 buf off
      else Ok 0)"

text \<open>\<open>for i := uint16(0); i < n; i++\<close>: the first argument is \<open>n - i\<close>.\<close>

fun parseGroupLoop ::
  "nat \<Rightarrow> u8 slice \<Rightarrow> ioLayout \<Rightarrow> nat \<Rightarrow> nat \<Rightarrow> (u16 \<rightharpoonup> u64) \<Rightarrow>
   (codec_error, (u16 \<rightharpoonup> u64) \<times> nat) result" where
  "parseGroupLoop 0 buf cfg valueSize off ios = Ok (ios, off)"
| "parseGroupLoop (Suc k) buf cfg valueSize off ios =
     andThen (readIOID buf off (idWidth cfg)) (\<lambda>(ioid, off1).
       if off1 + valueSize > slen buf then Err EndOfIOValue
       else andThen (readIOValue buf off1 valueSize) (\<lambda>val.
         parseGroupLoop k buf cfg valueSize (off1 + valueSize) (ios(ioid \<mapsto> val))))"

definition parseGroup ::
  "u8 slice \<Rightarrow> ioLayout \<Rightarrow> nat \<Rightarrow> nat \<Rightarrow> (u16 \<rightharpoonup> u64) \<Rightarrow>
   (codec_error, (u16 \<rightharpoonup> u64) \<times> nat) result" where
  "parseGroup buf cfg valueSize off ios =
     andThen (readIOCount buf off (countWidth cfg)) (\<lambda>(n, off1).
       parseGroupLoop (unat n) buf cfg valueSize off1 ios)"

fun parseGroups ::
  "nat list \<Rightarrow> u8 slice \<Rightarrow> ioLayout \<Rightarrow> nat \<Rightarrow> (u16 \<rightharpoonup> u64) \<Rightarrow>
   (codec_error, (u16 \<rightharpoonup> u64) \<times> nat) result" where
  "parseGroups [] buf cfg off ios = Ok (ios, off)"
| "parseGroups (sz # szs) buf cfg off ios =
     andThen (parseGroup buf cfg sz off ios) (\<lambda>(ios1, off1).
       parseGroups szs buf cfg off1 ios1)"

text \<open>\<open>for j := 0; j < int(length) && j < 8; j++\<close>: at most eight bytes make the value.\<close>

fun variableValue :: "nat \<Rightarrow> u8 slice \<Rightarrow> nat \<Rightarrow> u64 \<Rightarrow> (codec_error, u64) result" where
  "variableValue 0 buf p val = Ok val"
| "variableValue (Suc k) buf p val =
     andThen (index buf p) (\<lambda>b. variableValue k buf (p + 1) (push_bit 8 val OR ucast b))"

fun parseVariableLoop ::
  "nat \<Rightarrow> u8 slice \<Rightarrow> ioLayout \<Rightarrow> nat \<Rightarrow> (u16 \<rightharpoonup> u64) \<Rightarrow>
   (codec_error, (u16 \<rightharpoonup> u64) \<times> nat) result" where
  "parseVariableLoop 0 buf cfg off ios = Ok (ios, off)"
| "parseVariableLoop (Suc k) buf cfg off ios =
     andThen (readIOID buf off (idWidth cfg)) (\<lambda>(ioid, off1).
       if off1 + 2 > slen buf then Err MissingVariableIOLength
       else andThen (be_at 2 buf off1) (\<lambda>len :: u16.
         let off2 = off1 + 2 in
         if off2 + unat len > slen buf then Err EndOfVariableIOValue
         else andThen (variableValue (min (unat len) 8) buf off2 0) (\<lambda>val.
           parseVariableLoop k buf cfg (off2 + unat len) (ios(ioid \<mapsto> val)))))"

definition readEventIOID :: "u8 slice \<Rightarrow> nat \<Rightarrow> ioLayout \<Rightarrow> (codec_error, u16 \<times> nat) result" where
  "readEventIOID buf off cfg =
     (if eventIDWidth cfg = 1
      then (if off \<ge> slen buf then Err MissingEventIOID
            else andThen (index buf off) (\<lambda>b. Ok (ucast b, off + 1)))
      else if off + 2 > slen buf then Err MissingEventIOID
      else andThen (be_at 2 buf off) (\<lambda>v. Ok (v, off + 2)))"

definition skipGeneration :: "u8 slice \<Rightarrow> nat \<Rightarrow> ioLayout \<Rightarrow> (codec_error, nat) result" where
  "skipGeneration buf off cfg =
     (if hasGeneration cfg
      then (if off \<ge> slen buf then Err MissingGeneration else Ok (off + 1))
      else Ok off)"

definition parseIOBlock ::
  "u8 slice \<Rightarrow> nat \<Rightarrow> ioLayout \<Rightarrow> (codec_error, (u16 \<rightharpoonup> u64) \<times> nat) result" where
  "parseIOBlock buf off cfg =
     andThen (readEventIOID buf off cfg) (\<lambda>(eventIOID, off1).
     andThen (skipGeneration buf off1 cfg) (\<lambda>off2.
     andThen (readIOCount buf off2 (countWidth cfg)) (\<lambda>(total, off3).
     andThen (parseGroups [1, 2, 4, 8] buf cfg off3 Map.empty) (\<lambda>(ios, off4).
       if hasVariableIO cfg
       then andThen (readIOCount buf off4 (countWidth cfg)) (\<lambda>(nx, off5).
              parseVariableLoop (unat nx) buf cfg off5 ios)
       else Ok (ios, off4)))))"

section \<open>One record and the packet (record.go, packet.go)\<close>

definition decodeRecord :: "u8 slice \<Rightarrow> u8 \<Rightarrow> (codec_error, Record \<times> nat) result" where
  "decodeRecord buf codecID =
     (if slen buf < 9 then Err RecordTooShort
      else
        andThen (be_at 8 buf 0) (\<lambda>ts.
        andThen (index buf 8) (\<lambda>prio.
        andThen (reslice buf 9 (9 + 15)) (\<lambda>gps.
        andThen (parseGPS gps) (\<lambda>(lat, lon, alt, angle, speed, sats).
        andThen (layoutForCodec codecID) (\<lambda>cfg.
        andThen (parseIOBlock buf (9 + 15) cfg) (\<lambda>(ios, off).
        andThen (reslice buf 0 off) (\<lambda>raw.
          Ok (zeroRecord\<lparr>TimestampMs := ts, Priority := prio, Lat := lat, Lon := lon,
                Altitude := alt, Angle := angle, Speed_avl := speed, Satellites := sats,
                IOs := ios, RawBytes := elems raw\<rparr>, off)))))))))"

definition maxDataFieldLength :: u32 where
  "maxDataFieldLength = 2048"

text \<open>
  An error of \<open>ParsePacket\<close> comes with the two other results returned beside it: the codec
  identifier and the records decoded so far.
\<close>

type_synonym packet_error = "u8 \<times> Record list \<times> codec_error"

text \<open>
  \<open>for i := 0; i < numRecords; i++\<close>: the first argument is \<open>numRecords - i\<close>, \<open>e\<close> is the
  index \<open>end\<close> of the trailing count byte.
\<close>

fun parseRecords ::
  "nat \<Rightarrow> nat \<Rightarrow> u8 slice \<Rightarrow> u8 \<Rightarrow> nat \<Rightarrow> nat \<Rightarrow> Record list \<Rightarrow>
   (packet_error, Record list \<times> nat) result" where
  "parseRecords 0 i payload codecID e off recs = Ok (recs, off)"
| "parseRecords (Suc k) i payload codecID e off recs =
     (if off \<ge> e then Err (codecID, [], UnexpectedEndOfRecords i)
      else andThen (reslice payload off e) (\<lambda>buf.
        andThen (mapErr (\<lambda>err. (codecID, recs, AtRecord i err)) (decodeRecord buf codecID))
          (\<lambda>(rec, consumed).
            parseRecords k (i + 1) payload codecID e (off + consumed) (recs @ [rec]))))"

definition ParsePacket :: "u8 slice \<Rightarrow> (packet_error, u8 \<times> Record list) result" where
  "ParsePacket data =
     (if slen data < 12 then Err (0, [], PacketTooShort (slen data))
      else
        andThen (index data 0) (\<lambda>b0. andThen (index data 1) (\<lambda>b1.
        andThen (index data 2) (\<lambda>b2. andThen (index data 3) (\<lambda>b3.
        if b0 OR b1 OR b2 OR b3 \<noteq> 0 then Err (0, [], InvalidPreamble)
        else andThen (be_at 4 data 4) (\<lambda>dataFieldLen :: u32.
        if dataFieldLen = 0 \<or> dataFieldLen > maxDataFieldLength
        then Err (0, [], InvalidDataFieldLength dataFieldLen)
        else let expectedLen = 8 + unat dataFieldLen + 4 in
        if slen data < expectedLen then Err (0, [], PacketTruncated (slen data) expectedLen)
        else andThen (reslice data 8 (unat (8 + dataFieldLen))) (\<lambda>payload.
        andThen (reslice data (unat (8 + dataFieldLen)) (unat (8 + dataFieldLen + 4))) (\<lambda>crcBytes.
        let receivedCRC = be_word (elems crcBytes) :: u32;
            computedCRC = ucast (CRC16IBM (elems payload)) :: u32 in
        if receivedCRC \<noteq> computedCRC then Err (0, [], CRCMismatch receivedCRC computedCRC)
        else if slen payload < 3 then Err (0, [], PayloadTooShort)
        else andThen (index payload 0) (\<lambda>codecID.
        andThen (index payload 1) (\<lambda>n1. andThen (index payload (slen payload - 1)) (\<lambda>n2.
        let numRecords = unat n1; numRecords2 = unat n2 in
        if numRecords \<noteq> numRecords2
        then Err (0, [], RecordCountMismatch numRecords numRecords2)
        else let e = slen payload - 1 in
        andThen (parseRecords numRecords 0 payload codecID e 2 []) (\<lambda>(records, off).
        if off \<noteq> e then Err (codecID, records, TrailingBytes)
        else if length records \<noteq> numRecords
        then Err (codecID, records, ParsedRecords (length records) numRecords)
        else Ok (codecID, records)))))))))))))"

end
