(* ===== verification/Gps_Parser.thy ===== *)
theory Gps_Parser
  imports Go_Strconv Go_Time Go_Sort Teltonika_Codec
begin

text \<open>
  The text protocol (\<open>internal/parser/parser.go\<close>): clean-up of the JSON a device sends,
  recovery of single records from malformed arrays, the twelve-field record, coordinates and
  dates.  The JSON decoder and \<open>sort.Slice\<close> are arguments.  An error is a value of
  \<open>reason\<close>; its text is built from the constructor's arguments.
\<close>

section \<open>Data\<close>

datatype reason =
    EmptyDataField
  | MalformedDataObject
  | ExpectedFields nat
  | InvalidLatitude num_error
  | InvalidLongitude num_error
  | InvalidDateTime

record InvalidRecord =
  InvRawData :: string
  Reason :: reason

record DirectionData =
  EW :: int
  NS :: int

record ParsedGPSData =
  Coordinate :: "float64 \<times> float64"
  Speed :: int
  Status :: int
  Directions :: DirectionData
  DateTime :: string
  IMEI :: string
  RawData :: string

record ParseResult =
  Records :: "ParsedGPSData list"
  Invalid :: "InvalidRecord list"

datatype parse_error =
    EmptyInput
  | InvalidJSONFormat
  | InvalidEnvelope
  | MissingEnvelopeMarker
  | UnknownFormat u8
  | AVLPacket codec_error

section \<open>The regular expressions\<close>

definition is_re_space :: "char \<Rightarrow> bool" where
  "is_re_space c \<longleftrightarrow> (of_char c :: nat) \<in> {9, 10, 12, 13, 32}"

definition quote :: char where "quote = CHR 0x22"
definition backslash :: char where "backslash = CHR 0x5C"

text \<open>\<open>\{"data"\s*:\s*"\<close> at the head of a string: what remains behind the match.\<close>

definition match_data_start :: "string \<Rightarrow> string option" where
  "match_data_start s =
     (let p = ''{'' @ [quote] @ ''data'' @ [quote] in
      if HasPrefix s p then
        (case dropWhile is_re_space (drop (length p) s) of
           c # r \<Rightarrow> if c = CHR '':'' then
               (case dropWhile is_re_space r of
                  d # r' \<Rightarrow> if d = quote then Some r' else None
                | [] \<Rightarrow> None)
             else None
         | [] \<Rightarrow> None)
      else None)"

lemma length_match_data_start: "match_data_start s = Some r \<Longrightarrow> length r < length s"
proof -
  assume m: "match_data_start s = Some r"
  let ?p = "''{'' @ [quote] @ ''data'' @ [quote]"
  from m have p: "HasPrefix s ?p" by (simp add: match_data_start_def Let_def split: if_splits)
  from m p obtain c u d where
    u: "dropWhile is_re_space (drop (length ?p) s) = c # u" "dropWhile is_re_space u = d # r"
    by (auto simp: match_data_start_def Let_def split: list.splits if_splits)
  have "length (dropWhile is_re_space v) \<le> length v" for v :: string by (simp add: length_dropWhile_le)
  from this [of "drop (length ?p) s"] this [of u] u show ?thesis by simp
qed

text \<open>
  \<open>FindAllStringIndex\<close>: for every match, leftmost and without overlap, the text from its start
  (\<open>jsonData[match[0]:]\<close>) and from its end (\<open>jsonData[match[1]:]\<close>).
\<close>

function find_data_starts :: "string \<Rightarrow> (string \<times> string) list" where
  "find_data_starts s =
     (case s of [] \<Rightarrow> []
      | c # cs \<Rightarrow> (case match_data_start s of
            Some r \<Rightarrow> (s, r) # find_data_starts r
          | None \<Rightarrow> find_data_starts cs))"
  by pat_completeness auto

termination find_data_starts
  by (relation "measure length") (auto dest: length_match_data_start)

declare find_data_starts.simps [simp del]

text \<open>\<open>trailingCommaPattern.ReplaceAllString(s, "}]")\<close> for \<open>\},\s*\]\<close>.\<close>

definition match_trailing_comma :: "string \<Rightarrow> string option" where
  "match_trailing_comma s =
     (if HasPrefix s ''},'' then
        (case dropWhile is_re_space (drop 2 s) of
           c # r \<Rightarrow> if c = CHR '']'' then Some r else None
         | [] \<Rightarrow> None)
      else None)"

lemma length_match_trailing_comma: "match_trailing_comma s = Some r \<Longrightarrow> length r < length s"
proof -
  assume m: "match_trailing_comma s = Some r"
  then obtain c where c: "dropWhile is_re_space (drop 2 s) = c # r"
    by (auto simp: match_trailing_comma_def split: list.splits if_splits)
  with length_dropWhile_le [of is_re_space "drop 2 s"] show ?thesis by simp
qed

function replace_trailing_commas :: "string \<Rightarrow> string" where
  "replace_trailing_commas s =
     (case s of [] \<Rightarrow> []
      | c # cs \<Rightarrow> (case match_trailing_comma s of
            Some r \<Rightarrow> ''}]'' @ replace_trailing_commas r
          | None \<Rightarrow> c # replace_trailing_commas cs))"
  by pat_completeness auto

termination replace_trailing_commas
  by (relation "measure length") (auto dest: length_match_trailing_comma)

declare replace_trailing_commas.simps [simp del]

section \<open>JSON clean-up and recovery\<close>

definition preprocessJSON :: "string \<Rightarrow> string" where
  "preprocessJSON jsonData =
     (let d1 = TrimRight jsonData ''.'';
          d2 = ReplaceAll d1 ''}{'' ''},{'';
          d3 = ReplaceAll d2 '',{}'' [];
          d4 = replace_trailing_commas d3
      in TrimRight d4 '','')"

text \<open>
  \<open>readJSONStringValue\<close> from the position \<open>i\<close>, where \<open>raw[i:]\<close> is the last argument; \<open>None\<close>
  stands for the index \<open>-1\<close>.
\<close>

fun readJSONStringValue_from :: "nat \<Rightarrow> string \<Rightarrow> string \<Rightarrow> (string \<times> nat) option" where
  "readJSONStringValue_from i data [] = None"
| "readJSONStringValue_from i data [c] =
     (if c = backslash \<or> c = quote then None else None)"
| "readJSONStringValue_from i data (c # d # cs) =
     (if c = backslash
      then (let w = (if d = CHR ''b'' then CHR 0x08 else if d = CHR ''f'' then CHR 0x0C
                     else if d = CHR ''n'' then CHR 0x0A else if d = CHR ''r'' then CHR 0x0D
                     else if d = CHR ''t'' then CHR 0x09 else d)
            in readJSONStringValue_from (i + 2) (data @ [w]) cs)
      else if c = quote
      then (if d = CHR ''}'' then Some (data, i + 2) else None)
      else readJSONStringValue_from (i + 1) (data @ [c]) (d # cs))"

definition readJSONStringValue :: "string \<Rightarrow> nat \<Rightarrow> (string \<times> nat) option" where
  "readJSONStringValue raw start = readJSONStringValue_from start [] (drop start raw)"

fun extract_matches ::
  "string \<Rightarrow> (string \<times> string) list \<Rightarrow> string list \<Rightarrow> InvalidRecord list \<Rightarrow>
   string list \<times> InvalidRecord list" where
  "extract_matches jsonData [] items invalid = (items, invalid)"
| "extract_matches jsonData ((from0, from1) # ms) items invalid =
     (case readJSONStringValue jsonData (length jsonData - length from1) of
        None \<Rightarrow> extract_matches jsonData ms items
          (invalid @ [\<lparr>InvRawData = take 512 from0, Reason = MalformedDataObject\<rparr>])
      | Some (data, nextIdx) \<Rightarrow>
          if data = []
          then extract_matches jsonData ms items (invalid @ [\<lparr>InvRawData = data, Reason = EmptyDataField\<rparr>])
          else extract_matches jsonData ms (items @ [data]) invalid)"

definition extractDataItems :: "string \<Rightarrow> string list \<times> InvalidRecord list" where
  "extractDataItems jsonData = extract_matches jsonData (find_data_starts jsonData) [] []"

text \<open>A \<open>DataItem\<close> is its only field; \<open>unmarshal\<close> is \<open>gojson.Unmarshal\<close> into a slice of them.\<close>

definition decodeJSONData ::
  "(string \<Rightarrow> string list option) \<Rightarrow> string \<Rightarrow> (parse_error, string list \<times> InvalidRecord list) result" where
  "decodeJSONData unmarshal jsonData =
     (let trimmedData = preprocessJSON jsonData in
      case unmarshal trimmedData of
        Some decodedData \<Rightarrow> Ok (decodedData, [])
      | None \<Rightarrow>
          let (decodedData, extractionInvalid) = extractDataItems trimmedData in
          if decodedData = [] \<and> extractionInvalid = [] then Err InvalidJSONFormat
          else Ok (decodedData, extractionInvalid))"

section \<open>One record\<close>

definition nmeaToDecimalDegrees :: "float64 \<Rightarrow> float64" where
  "nmeaToDecimalDegrees nmea =
     (let degrees = f_floor (f_div nmea (Fin False 100));
          minutes = f_div (f_sub nmea (f_mul degrees (Fin False 100))) (Fin False 60)
      in f_add degrees minutes)"

definition round6 :: "float64 \<Rightarrow> float64" where
  "round6 x = f_div (f_round (f_mul x (Fin False 1000000))) (Fin False 1000000)"

definition convertNMEAToDecimalDegrees :: "string \<Rightarrow> string \<Rightarrow> (reason, float64 \<times> float64) result" where
  "convertNMEAToDecimalDegrees nmeaLat nmeaLon =
     (case ParseFloat nmeaLat of
        (_, Some e) \<Rightarrow> Err (InvalidLatitude e)
      | (lat, None) \<Rightarrow>
          (case ParseFloat nmeaLon of
             (_, Some e) \<Rightarrow> Err (InvalidLongitude e)
           | (lon, None) \<Rightarrow>
               Ok (round6 (nmeaToDecimalDegrees lat), round6 (nmeaToDecimalDegrees lon))))"

definition parseDateTime :: "string \<Rightarrow> string \<Rightarrow> string option" where
  "parseDateTime date timeStr =
     map_option (\<lambda>t. FormatDateTime (t_Add t (3 * Hour + 30 * Minute))) (ParseTime (date @ timeStr))"

definition processDataItem :: "string \<Rightarrow> (reason, ParsedGPSData) result" where
  "processDataItem data =
     (let fields = Split (CHR '','') data in
      if length fields \<noteq> 12 then Err (ExpectedFields (length fields))
      else andThen (convertNMEAToDecimalDegrees (fields ! 1) (fields ! 2)) (\<lambda>(lat, lon).
        case parseDateTime (fields ! 4) (fields ! 5) of
          None \<Rightarrow> Err InvalidDateTime
        | Some dateTime \<Rightarrow>
            Ok \<lparr>Coordinate = (lat, lon),
                Speed = fst (Atoi (fields ! 6)),
                Status = fst (Atoi (fields ! 8)),
                Directions = \<lparr>EW = fst (Atoi (fields ! 9)), NS = fst (Atoi (fields ! 10))\<rparr>,
                DateTime = dateTime,
                IMEI = fields ! 11,
                RawData = data\<rparr>))"

fun processDataItems_loop ::
  "string list \<Rightarrow> ParsedGPSData list \<Rightarrow> InvalidRecord list \<Rightarrow> ParsedGPSData list \<times> InvalidRecord list" where
  "processDataItems_loop [] processed invalid = (processed, invalid)"
| "processDataItems_loop (item # items) processed invalid =
     (if item = []
      then processDataItems_loop items processed (invalid @ [\<lparr>InvRawData = item, Reason = EmptyDataField\<rparr>])
      else case processDataItem item of
        Ok parsed \<Rightarrow> processDataItems_loop items (processed @ [parsed]) invalid
      | Err e \<Rightarrow> processDataItems_loop items processed (invalid @ [\<lparr>InvRawData = item, Reason = e\<rparr>])
      | Panic \<Rightarrow> (processed, invalid))"

definition processDataItems :: "string list \<Rightarrow> ParsedGPSData list \<times> InvalidRecord list" where
  "processDataItems items = processDataItems_loop items [] []"

definition byDateTime :: "ParsedGPSData \<Rightarrow> ParsedGPSData \<Rightarrow> bool" where
  "byDateTime a b \<longleftrightarrow> DateTime a < DateTime b"

definition parseHooshnicJSON ::
  "(string \<Rightarrow> string list option) \<Rightarrow> ParsedGPSData sorter \<Rightarrow> string \<Rightarrow> (parse_error, ParseResult) result" where
  "parseHooshnicJSON unmarshal sort_Slice data =
     andThen (decodeJSONData unmarshal data) (\<lambda>(decodedData, decodeInvalid).
       if decodedData = [] \<and> decodeInvalid = [] then Ok \<lparr>Records = [], Invalid = []\<rparr>
       else let (processedData, processInvalid) = processDataItems decodedData
            in Ok \<lparr>Records = sort_Slice byDateTime processedData,
                   Invalid = decodeInvalid @ processInvalid\<rparr>)"

section \<open>The unused format check\<close>

text \<open>
  \<open>isValidDataFormat\<close>: the length test, then \<open>^\+[^:]+:[^,]+(,[^,]+){12}$\<close>: a plus sign, a
  non-empty head up to a colon, and thirteen non-empty fields.
\<close>

definition isValidDataFormat :: "string \<Rightarrow> bool" where
  "isValidDataFormat data \<longleftrightarrow> 70 \<le> length data \<and> length data \<le> 100 \<and>
     (case data of [] \<Rightarrow> False
      | c # r \<Rightarrow> c = CHR ''+'' \<and> takeWhile (\<lambda>x. x \<noteq> CHR '':'') r \<noteq> [] \<and>
          (case dropWhile (\<lambda>x. x \<noteq> CHR '':'') r of [] \<Rightarrow> False
           | _ # body \<Rightarrow> length (Split (CHR '','') body) = 13 \<and> [] \<notin> set (Split (CHR '','') body)))"

end
