(* ===== verification/Go_Time_Facts.thy ===== *)
theory Go_Time_Facts
  imports Go_Time
begin

text \<open>
  The calendar and the date format: the conversion between days and dates is a bijection, and
  for the years 0 to 9999 the order of formatted instants is the order of time.
\<close>

section \<open>Years\<close>

lemma year_parts:
  obtains a b c e where "y = 400 * a + 100 * b + 4 * c + e + (1 :: int)"
    and "0 \<le> b" "b \<le> 3" "0 \<le> c" "c \<le> 24" "0 \<le> e" "e \<le> 3"
proof
  let ?a = "(y - 1) div 400" and ?r = "(y - 1) mod 400"
  let ?s = "?r mod 100"
  show "y = 400 * ?a + 100 * (?r div 100) + 4 * (?s div 4) + ?s mod 4 + 1" by simp
  have r: "0 \<le> ?r" "?r < 400" and s: "0 \<le> ?s" "?s < 100" by simp_all
  show "0 \<le> ?r div 100" "?r div 100 \<le> 3" "0 \<le> ?s div 4" "?s div 4 \<le> 24" "0 \<le> ?s mod 4" "?s mod 4 \<le> 3"
    using r s by linarith+
qed

lemma mod_0_iff_top:
  fixes r k q :: int
  assumes "0 < r" and "r \<le> k"
  shows "(k * q + r) mod k = 0 \<longleftrightarrow> r = k"
  using assms by (cases "r = k") auto

lemma div_pred:
  fixes y k :: int
  assumes "0 < k"
  shows "(y - 1) div k = y div k - (if y mod k = 0 then 1 else 0)"
proof -
  have y: "y = k * (y div k) + y mod k" "0 \<le> y mod k" "y mod k < k" using assms by simp_all
  show ?thesis
  proof (cases "y mod k = 0")
    case True
    with y(1) have "y - 1 = k * (y div k - 1) + (k - 1)" by (simp add: algebra_simps)
    then have "(y - 1) div k = y div k - 1" by (rule int_div_pos_eq) (use assms in auto)
    with True show ?thesis by simp
  next
    case False
    then have "(y - 1) div k = y div k"
      using y by (intro int_div_pos_eq [where r = "y mod k - 1"]) linarith+
    with False show ?thesis by simp
  qed
qed

lemma year_start_parts:
  assumes "y = 400 * a + 100 * b + 4 * c + e + 1"
    and "0 \<le> b" "b \<le> 3" "0 \<le> c" "c \<le> 24" "0 \<le> e" "e \<le> 3"
  shows "year_start y = 146097 * a + 36524 * b + 1461 * c + 365 * e - 719162"
    and "is_leap y \<longleftrightarrow> e = 3 \<and> (c \<noteq> 24 \<or> b = 3)"
proof -
  have "(y - 1) div 4 = 100 * a + 25 * b + c" "(y - 1) div 100 = 4 * a + b" "(y - 1) div 400 = a"
    using assms by (intro int_div_pos_eq [where r = e] int_div_pos_eq [where r = "4 * c + e"]
        int_div_pos_eq [where r = "100 * b + 4 * c + e"]; simp)+
  then show "year_start y = 146097 * a + 36524 * b + 1461 * c + 365 * e - 719162"
    using assms(1) by (simp add: year_start_def)
  have y: "y = 4 * (100 * a + 25 * b + c) + (e + 1)" "y = 100 * (4 * a + b) + (4 * c + e + 1)"
    "y = 400 * a + (100 * b + 4 * c + e + 1)" using assms(1) by simp_all
  have "y mod 4 = 0 \<longleftrightarrow> e + 1 = 4"
    by (subst y(1), rule mod_0_iff_top) (use assms(2-) in simp_all)
  moreover have "y mod 100 = 0 \<longleftrightarrow> 4 * c + e + 1 = 100"
    by (subst y(2), rule mod_0_iff_top) (use assms(2-) in simp_all)
  moreover have "y mod 400 = 0 \<longleftrightarrow> 100 * b + 4 * c + e + 1 = 400"
    by (subst y(3), rule mod_0_iff_top) (use assms(2-) in simp_all)
  moreover have "4 * c + e + 1 = 100 \<longleftrightarrow> e = 3 \<and> c = 24"
    "100 * b + 4 * c + e + 1 = 400 \<longleftrightarrow> e = 3 \<and> c = 24 \<and> b = 3"
    using assms(2-) by linarith+
  ultimately have "y mod 4 = 0 \<longleftrightarrow> e = 3" "y mod 100 = 0 \<longleftrightarrow> e = 3 \<and> c = 24"
    "y mod 400 = 0 \<longleftrightarrow> e = 3 \<and> c = 24 \<and> b = 3" by auto
  then show "is_leap y \<longleftrightarrow> e = 3 \<and> (c \<noteq> 24 \<or> b = 3)"
    unfolding is_leap_def by auto
qed

lemma year_start_Suc: "year_start (y + 1) = year_start y + year_len y"
proof -
  have "year_start (y + 1) - year_start y = 365 + (if y mod 4 = 0 then 1 else 0) -
      (if y mod 100 = 0 then 1 else 0) + (if y mod 400 = 0 then 1 else 0)"
    unfolding year_start_def by (simp only: div_pred add_diff_cancel_right' zero_less_numeral) simp
  moreover have "y mod 400 = 0 \<Longrightarrow> y mod 100 = 0" "y mod 100 = 0 \<Longrightarrow> y mod 4 = 0" by presburger+
  ultimately show ?thesis
    unfolding year_len_def is_leap_def by (cases "y mod 100 = 0"; cases "y mod 400 = 0"; cases "y mod 4 = 0") simp_all
qed

lemma year_start_mono: "y \<le> z \<Longrightarrow> year_start y \<le> year_start z"
  by (induction z rule: int_ge_induct) (auto simp: year_start_Suc year_len_def)

lemma div_min_3:
  fixes d k s :: int
  assumes "0 \<le> d" and "0 < k" and "d < 4 * k + s" and "0 \<le> s"
  defines "q \<equiv> min (d div k) 3"
  shows "0 \<le> q" "q \<le> 3" "k * q \<le> d" "d < k * q + k + s" "q < 3 \<Longrightarrow> d < k * q + k"
proof -
  have d: "d = k * (d div k) + d mod k" "0 \<le> d mod k" "d mod k < k" "0 \<le> d div k"
    using assms(1,2) by (simp_all add: pos_imp_zdiv_nonneg_iff)
  show "0 \<le> q" "q \<le> 3" using d(4) by (simp_all add: q_def)
  show "k * q \<le> d"
  proof -
    have "k * q \<le> k * (d div k)" using assms(2) by (intro mult_left_mono) (simp_all add: q_def)
    then show ?thesis using d(1,2) by linarith
  qed
  show *: "d < k * q + k" if "q < 3"
  proof -
    have q: "q = d div k" using that by (simp add: q_def)
    show ?thesis unfolding q using d(1,3) by linarith
  qed
  show "d < k * q + k + s"
  proof (cases "q < 3")
    case True
    with * assms(4) show ?thesis by linarith
  next
    case False
    then have "q = 3" by (simp add: q_def)
    with assms(3) show ?thesis by simp
  qed
qed

lemma year_of_bounds: "year_start (year_of n) \<le> n" "n < year_start (year_of n + 1)"
proof -
  define d where "d = n + 719162"
  define a d1 where "a = d div 146097" and "d1 = d mod 146097"
  define b where "b = min (d1 div 36524) 3"
  define d2 where "d2 = d1 - 36524 * b"
  define c d3 where "c = d2 div 1461" and "d3 = d2 mod 1461"
  define e where "e = min (d3 div 365) 3"
  note defs = d_def a_def d1_def b_def d2_def c_def d3_def e_def
  have y: "year_of n = 400 * a + 100 * b + 4 * c + e + 1"
    unfolding year_of_def Let_def defs by simp
  have d1: "0 \<le> d1" "d1 < 4 * 36524 + 1" by (simp_all add: d1_def)
  have b: "0 \<le> b" "b \<le> 3" "36524 * b \<le> d1" "d1 < 36524 * b + 36524 + 1" "b < 3 \<Longrightarrow> d1 < 36524 * b + 36524"
    unfolding b_def using div_min_3 [OF d1(1) _ d1(2)] by simp_all
  have d2: "0 \<le> d2" "d2 < 36525" "b < 3 \<Longrightarrow> d2 < 36524"
    using b unfolding d2_def by linarith+
  have d2': "d2 = 1461 * c + d3" "0 \<le> d3" "d3 < 4 * 365 + 1" by (simp_all add: c_def d3_def)
  have c: "0 \<le> c" "c \<le> 24" "b < 3 \<Longrightarrow> c = 24 \<Longrightarrow> d3 < 1460"
    using d2 d2' by linarith+
  have e: "0 \<le> e" "e \<le> 3" "365 * e \<le> d3" "d3 < 365 * e + 365 + 1" "e < 3 \<Longrightarrow> d3 < 365 * e + 365"
    unfolding e_def using div_min_3 [OF d2'(2) _ d2'(3)] by simp_all
  have da: "d = 146097 * a + d1" by (simp add: a_def d1_def)
  note P = year_start_parts [OF y b(1,2) c(1,2) e(1,2)]
  have split: "n + 719162 = 146097 * a + 36524 * b + 1461 * c + d3"
    using da d2' by (simp add: d_def d2_def)
  show "year_start (year_of n) \<le> n" using P(1) split e(3) by linarith
  show "n < year_start (year_of n + 1)"
  proof (cases "is_leap (year_of n)")
    case True
    then have "year_start (year_of n + 1) = year_start (year_of n) + 366"
      by (simp add: year_start_Suc year_len_def)
    then show ?thesis using P(1) split e(4) by linarith
  next
    case False
    then have ys: "year_start (year_of n + 1) = year_start (year_of n) + 365"
      by (simp add: year_start_Suc year_len_def)
    from False P(2) have "e < 3 \<or> b < 3 \<and> c = 24" using e(2) b(2) by linarith
    then have "d3 < 365 * e + 365"
    proof
      assume "e < 3"
      then show ?thesis by (rule e(5))
    next
      assume *: "b < 3 \<and> c = 24"
      then have "d3 < 1460" using c(3) by blast
      then show ?thesis using e(2,5) by linarith
    qed
    then show ?thesis using ys P(1) split by linarith
  qed
qed

lemma year_of_unique:
  assumes "year_start y \<le> n" and "n < year_start (y + 1)"
  shows "year_of n = y"
proof (rule antisym)
  show "year_of n \<le> y"
    using year_start_mono [of "y + 1" "year_of n"] year_of_bounds(1) [of n] assms(2) by linarith
  show "y \<le> year_of n"
    using year_start_mono [of "year_of n + 1" y] year_of_bounds(2) [of n] assms(1) by linarith
qed

section \<open>Months\<close>

lemma month_of_alt:
  "month_of leap yd =
     (let k = (if leap then 1 else 0) in
      if yd < 31 then 1 else if yd < 59 + k then 2 else if yd < 90 + k then 3
      else if yd < 120 + k then 4 else if yd < 151 + k then 5 else if yd < 181 + k then 6
      else if yd < 212 + k then 7 else if yd < 243 + k then 8 else if yd < 273 + k then 9
      else if yd < 304 + k then 10 else if yd < 334 + k then 11 else 12)"
proof -
  have "[1 ..< 12] = [1, 2, 3, 4, 5, 6, 7, 8, 9, 10, 11 :: nat]" by (simp add: upt_rec)
  then show ?thesis
    by (simp add: month_of_def month_start_def month_len_def month_starts_def Let_def)
qed

lemma month_of_bounds:
  assumes "0 \<le> yd" and "yd < (if leap then 366 else 365)"
  defines "m \<equiv> month_of leap yd"
  shows "1 \<le> m" "m \<le> 12" "month_start leap m \<le> yd" "yd < month_start leap m + month_len leap m"
proof -
  define k :: int where "k = (if leap then 1 else 0)"
  have k: "0 \<le> k" "k \<le> 1" by (auto simp: k_def)
  note month = m_def month_of_alt k_def [symmetric] Let_def
  note table = month_start_def month_len_def month_starts_def
  have b: "yd < 365 + k" using assms(2) by (auto simp: k_def)
  consider "yd < 31" | "31 \<le> yd" "yd < 59 + k" | "59 + k \<le> yd" "yd < 90 + k" | "90 + k \<le> yd" "yd < 120 + k"
    | "120 + k \<le> yd" "yd < 151 + k" | "151 + k \<le> yd" "yd < 181 + k" | "181 + k \<le> yd" "yd < 212 + k"
    | "212 + k \<le> yd" "yd < 243 + k" | "243 + k \<le> yd" "yd < 273 + k" | "273 + k \<le> yd" "yd < 304 + k"
    | "304 + k \<le> yd" "yd < 334 + k" | "334 + k \<le> yd" by linarith
  then have "1 \<le> m \<and> m \<le> 12 \<and> month_start leap m \<le> yd \<and> yd < month_start leap m + month_len leap m"
  proof cases
    case 1
    then have "m = 1" by (simp add: month)
    then show ?thesis using 1 assms(1) by (simp add: table)
  next
    case 2
    then have "m = 2" using k by (simp add: month)
    then show ?thesis using 2 by (simp add: table k_def split: if_splits)
  next
    case 3
    then have "m = 3" using k by (simp add: month)
    then show ?thesis using 3 by (simp add: table k_def split: if_splits)
  next
    case 4
    then have "m = 4" using k by (simp add: month)
    then show ?thesis using 4 by (simp add: table k_def split: if_splits)
  next
    case 5
    then have "m = 5" using k by (simp add: month)
    then show ?thesis using 5 by (simp add: table k_def split: if_splits)
  next
    case 6
    then have "m = 6" using k by (simp add: month)
    then show ?thesis using 6 by (simp add: table k_def split: if_splits)
  next
    case 7
    then have "m = 7" using k by (simp add: month)
    then show ?thesis using 7 by (simp add: table k_def split: if_splits)
  next
    case 8
    then have "m = 8" using k by (simp add: month)
    then show ?thesis using 8 by (simp add: table k_def split: if_splits)
  next
    case 9
    then have "m = 9" using k by (simp add: month)
    then show ?thesis using 9 by (simp add: table k_def split: if_splits)
  next
    case 10
    then have "m = 10" using k by (simp add: month)
    then show ?thesis using 10 by (simp add: table k_def split: if_splits)
  next
    case 11
    then have "m = 11" using k by (simp add: month)
    then show ?thesis using 11 by (simp add: table k_def split: if_splits)
  next
    case 12
    then have "m = 12" using k by (simp add: month)
    then show ?thesis using 12 b by (simp add: table k_def split: if_splits)
  qed
  then show "1 \<le> m" "m \<le> 12" "month_start leap m \<le> yd" "yd < month_start leap m + month_len leap m" by blast+
qed

lemma month_cases:
  "1 \<le> m \<Longrightarrow> m \<le> 12 \<Longrightarrow> m \<in> {1, 2, 3, 4, 5, 6, 7, 8, 9, 10, 11, 12 :: nat}"
proof -
  assume "1 \<le> m" "m \<le> 12"
  then have "m \<in> set [1 ..< 13]" by simp
  moreover have "[1 ..< 13] = [1, 2, 3, 4, 5, 6, 7, 8, 9, 10, 11, 12 :: nat]" by (simp add: upt_rec)
  ultimately show ?thesis by (simp only: list.set)
qed

lemma month_start_mono:
  assumes "1 \<le> m" and "m < k" and "k \<le> 12"
  shows "month_start leap m + month_len leap m \<le> month_start leap k"
proof -
  have *: "month_start leap j + month_len leap j \<le> month_start leap (j + 1)" if "1 \<le> j" "j \<le> 11" for j
    using month_cases [of j, OF that(1)] that
    by (auto simp: month_start_def month_len_def month_starts_def)
  have pos: "0 \<le> month_len leap j" for j by (simp add: month_len_def)
  have "m + 1 + i \<le> 12 \<Longrightarrow> month_start leap m + month_len leap m \<le> month_start leap (m + 1 + i)" for i
  proof (induction i)
    case (Suc i)
    then show ?case using * [of "m + 1 + i"] pos [of "m + 1 + i"] by simp
  qed (use * [of m] assms(1) in simp)
  from this [of "k - m - 1"] assms(2,3) show ?thesis by simp
qed

lemma month_end: "1 \<le> m \<Longrightarrow> m \<le> 12 \<Longrightarrow>
    0 \<le> month_start leap m \<and> month_start leap m + month_len leap m \<le> (if leap then 366 else 365)"
  by (drule (1) month_cases) (auto simp: month_start_def month_len_def month_starts_def)

lemma month_of_unique:
  assumes "1 \<le> m" "m \<le> 12" "month_start leap m \<le> yd" "yd < month_start leap m + month_len leap m"
  shows "month_of leap yd = m"
proof -
  have "0 \<le> yd" "yd < (if leap then 366 else 365)"
    using month_end [OF assms(1,2), of leap] assms(3,4) by (auto split: if_splits)
  note B = month_of_bounds [OF this]
  show ?thesis
    using month_start_mono [OF B(1) _ assms(2), of leap] month_start_mono [OF assms(1) _ B(2), of leap]
      B(3,4) assms(3,4) by linarith
qed

section \<open>Dates\<close>

definition valid_date :: "int \<Rightarrow> nat \<Rightarrow> int \<Rightarrow> bool" where
  "valid_date y m d \<longleftrightarrow> 1 \<le> m \<and> m \<le> 12 \<and> 1 \<le> d \<and> d \<le> month_len (is_leap y) m"

lemma date_of_days_of_date:
  assumes "valid_date y m d"
  shows "date_of_days (days_of_date y m d) = (y, m, d)"
proof -
  let ?yd = "month_start (is_leap y) m + d - 1"
  have v: "1 \<le> m" "m \<le> 12" "1 \<le> d" "d \<le> month_len (is_leap y) m"
    using assms by (auto simp: valid_date_def)
  have "0 \<le> ?yd" "?yd < year_len y"
    using month_end [OF v(1,2), of "is_leap y"] v(3,4) by (auto simp: year_len_def split: if_splits)
  then have "year_of (days_of_date y m d) = y"
    by (intro year_of_unique) (auto simp: days_of_date_def year_start_Suc)
  moreover have "month_of (is_leap y) ?yd = m"
    using v by (intro month_of_unique) auto
  moreover have "days_of_date y m d - year_start y = ?yd" by (simp add: days_of_date_def)
  ultimately show ?thesis by (simp add: date_of_days_def Let_def)
qed

lemma date_of_days:
  assumes "date_of_days n = (y, m, d)"
  shows "valid_date y m d" and "days_of_date y m d = n" and "y = year_of n"
proof -
  let ?yd = "n - year_start (year_of n)"
  have "0 \<le> ?yd" "?yd < (if is_leap (year_of n) then 366 else 365)"
    using year_of_bounds [of n] by (simp_all add: year_start_Suc year_len_def)
  note B = month_of_bounds [OF this]
  show "y = year_of n" using assms by (simp add: date_of_days_def Let_def)
  show "valid_date y m d" "days_of_date y m d = n"
    using assms B by (auto simp: date_of_days_def Let_def valid_date_def days_of_date_def)
qed

lemma days_less:
  assumes "valid_date y m d" and "valid_date y' m' d'"
  shows "days_of_date y m d < days_of_date y' m' d' \<longleftrightarrow>
    y < y' \<or> y = y' \<and> (m < m' \<or> m = m' \<and> d < d')"
proof -
  have less: "days_of_date y m d < days_of_date y' m' d'"
    if v: "valid_date y m d" "valid_date y' m' d'" and
      l: "y < y' \<or> y = y' \<and> (m < m' \<or> m = m' \<and> d < d')" for y m d y' m' d'
  proof -
    have b: "month_start (is_leap y) m + d \<le> year_len y" "0 \<le> month_start (is_leap y') m'" "1 \<le> d'"
      using v month_end [of m "is_leap y"] month_end [of m' "is_leap y'"]
      by (auto simp: valid_date_def year_len_def split: if_splits)
    show ?thesis
    proof (cases "y < y'")
      case True
      then have "year_start y + year_len y \<le> year_start y'"
        using year_start_mono [of "y + 1" y'] by (simp add: year_start_Suc)
      then show ?thesis using b by (simp add: days_of_date_def)
    next
      case False
      then show ?thesis
        using l v month_start_mono [of m m' "is_leap y"] by (auto simp: valid_date_def days_of_date_def)
    qed
  qed
  show ?thesis
    using less [OF assms] less [OF assms(2,1)]
    by (metis less_asym linorder_neqE_linordered_idom nat_neq_iff less_irrefl)
qed

section \<open>Padded numerals and the order of strings\<close>

fun fixed_digits :: "nat \<Rightarrow> nat \<Rightarrow> string" where
  "fixed_digits 0 n = []"
| "fixed_digits (Suc k) n = fixed_digits k (n div 10) @ [digit_char (n mod 10)]"

lemma length_fixed_digits [simp]: "length (fixed_digits k n) = k"
  by (induction k arbitrary: n) auto

lemma fixed_digits_0: "fixed_digits k 0 = replicate k (CHR ''0'')"
proof (induction k)
  case (Suc k)
  have "digit_char 0 = CHR ''0''" by code_simp
  with Suc show ?case by (simp add: replicate_append_same)
qed simp

lemma length_digits: "n < 10 ^ k \<Longrightarrow> 0 < k \<Longrightarrow> length (digits n) \<le> k"
proof (induction k arbitrary: n)
  case (Suc k)
  show ?case
  proof (cases "n < 10")
    case False
    then have "0 < k" using Suc.prems(1) by (cases k) auto
    then have "length (digits (n div 10)) \<le> k" using Suc by simp
    with False show ?thesis by (simp add: digits.simps [of n])
  qed (simp add: digits.simps)
qed simp

lemma pad_fixed: "n < 10 ^ k \<Longrightarrow> 0 < k \<Longrightarrow> pad k n = fixed_digits k n"
proof (induction k arbitrary: n)
  case (Suc k)
  show ?case
  proof (cases "n < 10")
    case True
    then show ?thesis by (simp add: pad_def digits.simps fixed_digits_0)
  next
    case False
    then have k: "0 < k" using Suc.prems(1) by (cases k) auto
    then have "pad k (n div 10) = fixed_digits k (n div 10)" using Suc by simp
    with False show ?thesis by (simp add: pad_def digits.simps [of n])
  qed
qed simp

lemma string_less_append:
  fixes a b x y :: string
  assumes "length a = length b"
  shows "a @ x < b @ y \<longleftrightarrow> a < b \<or> a = b \<and> x < y"
  using assms
proof (induction a b rule: list_induct2)
  case (Cons c a d b)
  then show ?case by auto
qed simp

lemma string_less_same: "(a :: string) @ x < a @ y \<longleftrightarrow> x < y"
  by (induction a) auto

lemma digit_char_less: "i < 10 \<Longrightarrow> j < 10 \<Longrightarrow> digit_char i < digit_char j \<longleftrightarrow> i < j"
  by (simp add: digit_char_def less_char_def)

lemma digit_char_eq: "i < 10 \<Longrightarrow> j < 10 \<Longrightarrow> digit_char i = digit_char j \<longleftrightarrow> i = j"
  using digit_char_less [of i j] digit_char_less [of j i] by (metis less_irrefl linorder_neqE_nat)

lemma div_mod_less:
  fixes a b k :: int
  assumes "0 < k"
  shows "a < b \<longleftrightarrow> a div k < b div k \<or> a div k = b div k \<and> a mod k < b mod k"
proof -
  have less: "x < y" if "x div k < y div k" for x y
  proof (rule ccontr)
    assume "\<not> x < y"
    then have "y div k \<le> x div k" using assms by (intro zdiv_mono1) auto
    with that show False by simp
  qed
  show ?thesis
  proof (cases "a div k = b div k")
    case True
    have "a = k * (b div k) + a mod k" "b = k * (b div k) + b mod k"
      unfolding True [symmetric] by (simp, unfold True, simp)
    with True show ?thesis by linarith
  next
    case False
    then show ?thesis using less [of a b] less [of b a] by fastforce
  qed
qed

lemma nat_div_mod_less:
  "(n :: nat) < m \<longleftrightarrow> n div 10 < m div 10 \<or> n div 10 = m div 10 \<and> n mod 10 < m mod 10"
proof -
  have "n < m \<longleftrightarrow> int n < int m" by simp
  also have "\<dots> \<longleftrightarrow> int (n div 10) < int (m div 10) \<or>
      int (n div 10) = int (m div 10) \<and> int (n mod 10) < int (m mod 10)"
    using div_mod_less [of 10 "int n" "int m"] by (simp only: zdiv_int zmod_int of_nat_numeral)
  finally show ?thesis by (simp only: of_nat_less_iff of_nat_eq_iff)
qed

lemma nat_div_mod_eq: "(n :: nat) div 10 = m div 10 \<Longrightarrow> n mod 10 = m mod 10 \<Longrightarrow> n = m"
  by (metis div_mult_mod_eq)

lemma fixed_digits_inj: "n < 10 ^ k \<Longrightarrow> m < 10 ^ k \<Longrightarrow> fixed_digits k n = fixed_digits k m \<longleftrightarrow> n = m"
proof (induction k arbitrary: n m)
  case (Suc k)
  have d: "n div 10 < 10 ^ k" "m div 10 < 10 ^ k" using Suc.prems by auto
  have c: "digit_char (n mod 10) = digit_char (m mod 10) \<longleftrightarrow> n mod 10 = m mod 10"
    by (intro digit_char_eq) simp_all
  show ?case unfolding fixed_digits.simps append1_eq_conv Suc.IH [OF d] c
    using nat_div_mod_eq by blast
qed simp

lemma fixed_digits_less: "n < 10 ^ k \<Longrightarrow> m < 10 ^ k \<Longrightarrow> fixed_digits k n < fixed_digits k m \<longleftrightarrow> n < m"
proof (induction k arbitrary: n m)
  case (Suc k)
  have d: "n div 10 < 10 ^ k" "m div 10 < 10 ^ k" using Suc.prems by auto
  have c: "digit_char (n mod 10) < digit_char (m mod 10) \<longleftrightarrow> n mod 10 < m mod 10"
    by (intro digit_char_less) simp_all
  have "fixed_digits (Suc k) n < fixed_digits (Suc k) m \<longleftrightarrow>
      fixed_digits k (n div 10) < fixed_digits k (m div 10) \<or>
      fixed_digits k (n div 10) = fixed_digits k (m div 10) \<and>
      digit_char (n mod 10) < digit_char (m mod 10)"
    by (simp add: string_less_append)
  then show ?case
    unfolding Suc.IH [OF d] fixed_digits_inj [OF d] c by (simp only: nat_div_mod_less [of n m])
qed simp

lemma datetime_digits_less:
  fixes y y' d d' h h' mi mi' sc sc' :: int
  assumes "0 \<le> y" "y < 10000" "0 \<le> y'" "y' < 10000" "m < 100" "m' < 100"
    "0 \<le> d" "d < 100" "0 \<le> d'" "d' < 100" "0 \<le> h" "h < 100" "0 \<le> h'" "h' < 100"
    "0 \<le> mi" "mi < 100" "0 \<le> mi'" "mi' < 100" "0 \<le> sc" "sc < 100" "0 \<le> sc'" "sc' < 100"
  shows "fixed_digits 4 (nat y) @ ''-'' @ fixed_digits 2 m @ ''-'' @ fixed_digits 2 (nat d) @ '' '' @
      fixed_digits 2 (nat h) @ '':'' @ fixed_digits 2 (nat mi) @ '':'' @ fixed_digits 2 (nat sc) <
    fixed_digits 4 (nat y') @ ''-'' @ fixed_digits 2 m' @ ''-'' @ fixed_digits 2 (nat d') @ '' '' @
      fixed_digits 2 (nat h') @ '':'' @ fixed_digits 2 (nat mi') @ '':'' @ fixed_digits 2 (nat sc') \<longleftrightarrow>
    (y < y' \<or> y = y' \<and> (m < m' \<or> m = m' \<and> d < d')) \<or> (y = y' \<and> m = m' \<and> d = d') \<and>
      (h < h' \<or> h = h' \<and> (mi < mi' \<or> mi = mi' \<and> sc < sc'))"
proof -
  have 4: "fixed_digits 4 (nat a) < fixed_digits 4 (nat b) \<longleftrightarrow> a < b"
    "fixed_digits 4 (nat a) = fixed_digits 4 (nat b) \<longleftrightarrow> a = b"
    if "0 \<le> a" "a < 10000" "0 \<le> b" "b < 10000" for a b
    using that by (auto simp: fixed_digits_less fixed_digits_inj)
  have 2: "fixed_digits 2 (nat a) < fixed_digits 2 (nat b) \<longleftrightarrow> a < b"
    "fixed_digits 2 (nat a) = fixed_digits 2 (nat b) \<longleftrightarrow> a = b"
    if "0 \<le> a" "a < 100" "0 \<le> b" "b < 100" for a b
    using that by (auto simp: fixed_digits_less fixed_digits_inj)
  have m: "fixed_digits 2 m < fixed_digits 2 m' \<longleftrightarrow> m < m'" "fixed_digits 2 m = fixed_digits 2 m' \<longleftrightarrow> m = m'"
    using assms(5,6) by (auto simp: fixed_digits_less fixed_digits_inj)
  show ?thesis
    using assms by (simp only: string_less_append string_less_same length_fixed_digits 4 2 m) blast
qed

section \<open>Formatted instants\<close>

definition instant_year :: "int \<Rightarrow> int" where
  "instant_year s = year_of (s div 86400)"

lemma month_len_le: "month_len leap m \<le> 31"
  by (simp add: month_len_def)

lemma clock_bounds:
  fixes r :: int
  assumes "0 \<le> r" and "r < 86400"
  shows "0 \<le> r div 3600" "r div 3600 < 24" "r div 3600 < 100"
    "0 \<le> r div 60 mod 60" "r div 60 mod 60 < 60" "r div 60 mod 60 < 100"
    "0 \<le> r mod 60" "r mod 60 < 60" "r mod 60 < 100"
  using assms by (simp_all add: less_trans [OF pos_mod_bound])

lemma clock_less:
  fixes r q :: int
  shows "r < q \<longleftrightarrow> r div 3600 < q div 3600 \<or> r div 3600 = q div 3600 \<and>
    (r div 60 mod 60 < q div 60 mod 60 \<or> r div 60 mod 60 = q div 60 mod 60 \<and> r mod 60 < q mod 60)"
proof -
  have h: "x div 60 div 60 = x div 3600" for x :: int by (simp add: zdiv_zmult2_eq [symmetric])
  have eq: "r div 60 = q div 60 \<longleftrightarrow> r div 3600 = q div 3600 \<and> r div 60 mod 60 = q div 60 mod 60"
    by (metis div_mult_mod_eq h)
  show ?thesis
    using div_mod_less [of 60 r q] div_mod_less [of 60 "r div 60" "q div 60"] eq by (auto simp: h)
qed

lemma format_datetime_fixed:
  assumes "0 \<le> instant_year s" "instant_year s \<le> 9999" "date_of_days (s div 86400) = (y, m, d)"
  shows "format_datetime s =
    fixed_digits 4 (nat y) @ ''-'' @ fixed_digits 2 m @ ''-'' @ fixed_digits 2 (nat d) @ '' '' @
    fixed_digits 2 (nat (s mod 86400 div 3600)) @ '':'' @
    fixed_digits 2 (nat (s mod 86400 div 60 mod 60)) @ '':'' @ fixed_digits 2 (nat (s mod 86400 mod 60))"
proof -
  note D = date_of_days [OF assms(3)]
  have y: "0 \<le> y" "y \<le> 9999" using assms(1,2) D(3) by (simp_all add: instant_year_def)
  have md: "1 \<le> m" "m \<le> 12" "1 \<le> d" "d \<le> 31"
    using D(1) month_len_le [of "is_leap y" m] by (auto simp: valid_date_def)
  have p: "int_pad k i = fixed_digits k (nat i)" if "0 \<le> i" "i < 10 ^ k" "0 < k" for i k
    using that by (simp add: int_pad_def pad_fixed nat_less_iff)
  note r = clock_bounds [of "s mod 86400", simplified]
  show ?thesis
    using y md by (simp only: format_datetime_def assms(3) Let_def prod.case) (simp add: p r pad_fixed)
qed

lemma format_datetime_less:
  assumes "0 \<le> instant_year s" "instant_year s \<le> 9999" "0 \<le> instant_year s'" "instant_year s' \<le> 9999"
  shows "format_datetime s < format_datetime s' \<longleftrightarrow> s < s'"
proof -
  obtain y m d y' m' d' where e: "date_of_days (s div 86400) = (y, m, d)"
    "date_of_days (s' div 86400) = (y', m', d')" by (metis prod_cases3)
  note D = date_of_days [OF e(1)] and D' = date_of_days [OF e(2)]
  have b: "0 \<le> y" "y < 10000" "0 \<le> y'" "y' < 10000" "m < 100" "m' < 100"
    "0 \<le> d" "d < 100" "0 \<le> d'" "d' < 100"
    using assms D D' month_len_le [of "is_leap y" m] month_len_le [of "is_leap y'" m']
    by (auto simp: instant_year_def valid_date_def)
  have days: "s div 86400 < s' div 86400 \<longleftrightarrow> y < y' \<or> y = y' \<and> (m < m' \<or> m = m' \<and> d < d')"
    "s div 86400 = s' div 86400 \<longleftrightarrow> y = y' \<and> m = m' \<and> d = d'"
    using days_less [OF D(1) D'(1)] D(2) D'(2) e by (simp, metis Pair_inject)
  have r: "0 \<le> s mod 86400" "s mod 86400 < 86400" "0 \<le> s' mod 86400" "s' mod 86400 < 86400" by simp_all
  note c = clock_bounds [OF r(1,2)] clock_bounds [OF r(3,4)]
  have k: "(0 :: int) < 86400" by simp
  show ?thesis
    unfolding format_datetime_fixed [OF assms(1,2) e(1)] format_datetime_fixed [OF assms(3,4) e(2)]
      div_mod_less [OF k, of s s'] clock_less [of "s mod 86400" "s' mod 86400"] days
    by (rule datetime_digits_less) (fact b c)+
qed

end
