(* ===== verification/Gps_Parser_Facts.thy ===== *)
theory Gps_Parser_Facts
  imports Gps_Parser Go_Time_Facts
begin

text \<open>
  What the text parser guarantees: no item is lost, intact objects are recovered from any
  surrounding text, and the records come out in the order of time.
\<close>

section \<open>No item is lost\<close>

lemma andThen_cases:
  "andThen m f = (case m of Ok x \<Rightarrow> f x | Err e \<Rightarrow> Err e | Panic \<Rightarrow> Panic)"
  by (cases m) simp_all

lemma convertNMEA_no_panic: "convertNMEAToDecimalDegrees a b \<noteq> Panic"
  by (simp add: convertNMEAToDecimalDegrees_def split: prod.splits option.splits)

lemma processDataItem_no_panic: "processDataItem d \<noteq> Panic"
  using convertNMEA_no_panic
  by (auto simp: processDataItem_def Let_def result_simps split: option.splits)

lemma processDataItem_RawData: "processDataItem d = Ok r \<Longrightarrow> RawData r = d"
  by (auto simp: processDataItem_def Let_def result_simps split: if_splits option.splits)

definition item_ok :: "string \<Rightarrow> ParsedGPSData option" where
  "item_ok d = (if d = [] then None else case processDataItem d of Ok r \<Rightarrow> Some r | _ \<Rightarrow> None)"

definition item_bad :: "string \<Rightarrow> InvalidRecord option" where
  "item_bad d = (if d = [] then Some \<lparr>InvRawData = d, Reason = EmptyDataField\<rparr>
     else case processDataItem d of Err e \<Rightarrow> Some \<lparr>InvRawData = d, Reason = e\<rparr> | _ \<Rightarrow> None)"

lemma processDataItems_map_filter:
  "processDataItems items = (List.map_filter item_ok items, List.map_filter item_bad items)"
proof -
  have "processDataItems_loop items ps bad =
      (ps @ List.map_filter item_ok items, bad @ List.map_filter item_bad items)" for ps bad
  proof (induction items arbitrary: ps bad)
    case (Cons d items)
    then show ?case
      using processDataItem_no_panic [of d]
      by (cases "processDataItem d") (simp_all add: item_ok_def item_bad_def map_filter_simps)
  qed (simp add: map_filter_simps)
  then show ?thesis by (simp add: processDataItems_def)
qed

lemma processDataItems_raw:
  "mset (map RawData (fst (processDataItems items))) + mset (map InvRawData (snd (processDataItems items))) =
   mset items"
proof -
  have "mset (map RawData (List.map_filter item_ok items)) +
      mset (map InvRawData (List.map_filter item_bad items)) = mset items"
  proof (induction items)
    case (Cons d items)
    then show ?case
      using processDataItem_no_panic [of d] processDataItem_RawData [of d]
      by (cases "processDataItem d") (auto simp: item_ok_def item_bad_def map_filter_simps)
  qed (simp add: map_filter_simps)
  then show ?thesis by (simp add: processDataItems_map_filter)
qed

lemma extract_matches_length:
  "length (fst (extract_matches s ms items bad)) + length (snd (extract_matches s ms items bad)) =
   length ms + length items + length bad"
  by (induction s ms items bad rule: extract_matches.induct) (auto split: option.splits)

section \<open>Recovery of intact objects\<close>

definition esc_char :: "char \<Rightarrow> string" where
  "esc_char c = (if c = quote \<or> c = backslash then [backslash, c] else [c])"

definition esc :: "string \<Rightarrow> string" where
  "esc v = concat (map esc_char v)"

definition close :: string where
  "close = [quote, CHR ''}'']"

definition data_object :: "string \<Rightarrow> string" where
  "data_object v = ''{'' @ [quote] @ ''data'' @ [quote] @ '':'' @ [quote] @ esc v @ close"

lemma esc_simps [simp]: "esc [] = []" "esc (c # v) = esc_char c @ esc v"
  by (simp_all add: esc_def)

lemma chars [simp]: "quote \<noteq> backslash" "backslash \<noteq> quote" "quote \<noteq> CHR ''{''" "backslash \<noteq> CHR ''{''"
  "CHR ''{'' \<noteq> quote" "CHR ''{'' \<noteq> backslash"
  "quote \<noteq> CHR ''}''" "quote \<noteq> CHR ''b''" "quote \<noteq> CHR ''f''" "quote \<noteq> CHR ''n''" "quote \<noteq> CHR ''r''" "quote \<noteq> CHR ''t''"
  "backslash \<noteq> CHR ''b''" "backslash \<noteq> CHR ''f''" "backslash \<noteq> CHR ''n''" "backslash \<noteq> CHR ''r''" "backslash \<noteq> CHR ''t''"
  by (simp_all add: quote_def backslash_def)

lemma read_one:
  "c \<noteq> backslash \<Longrightarrow> c \<noteq> quote \<Longrightarrow> r \<noteq> [] \<Longrightarrow>
   readJSONStringValue_from i d (c # r) = readJSONStringValue_from (i + 1) (d @ [c]) r"
  by (cases r) simp_all

lemma read_esc:
  "readJSONStringValue_from i d (esc v @ close @ rest) = Some (d @ v, i + length (esc v) + 2)"
proof (induction v arbitrary: i d)
  case (Cons c v)
  show ?case
  proof (cases "c = quote \<or> c = backslash")
    case True
    then show ?thesis using Cons by (auto simp: esc_char_def)
  next
    case False
    then show ?thesis using Cons by (simp add: esc_char_def read_one close_def)
  qed
qed (simp add: close_def)

lemma match_head: "match_data_start s = Some r \<Longrightarrow> \<exists>t. s = CHR ''{'' # quote # CHR ''d'' # t"
  by (auto simp: match_data_start_def Let_def HasPrefix_iff split: if_splits)

lemma find_skip:
  assumes "match_data_start (c # s) = None"
  shows "find_data_starts (c # s) = find_data_starts s"
  using assms by (subst find_data_starts.simps) simp

lemma find_not_brace: "c \<noteq> CHR ''{'' \<Longrightarrow> find_data_starts (c # s) = find_data_starts s"
  using match_head [of "c # s"] by (intro find_skip) (cases "match_data_start (c # s)", auto)

lemma find_junk: "CHR ''{'' \<notin> set j \<Longrightarrow> find_data_starts (j @ s) = find_data_starts s"
  by (induction j) (auto simp: find_not_brace)

lemma find_esc: "find_data_starts (esc v @ close @ s) = find_data_starts s"
proof (induction v)
  case Nil
  show ?case by (simp add: close_def find_not_brace)
next
  case (Cons c v)
  show ?case
  proof (cases "c = CHR ''{''")
    case False
    then show ?thesis using Cons by (auto simp: esc_char_def find_not_brace)
  next
    case True
    have "match_data_start (c # esc v @ close @ s) = None"
    proof (rule ccontr)
      assume "match_data_start (c # esc v @ close @ s) \<noteq> None"
      then obtain t where "esc v @ close @ s = quote # CHR ''d'' # t" using match_head by fastforce
      then show False by (cases v) (auto simp: close_def esc_char_def split: if_splits)
    qed
    then show ?thesis using Cons True by (simp add: esc_char_def find_skip)
  qed
qed

lemma match_object: "match_data_start (data_object v @ s) = Some (esc v @ close @ s)"
proof -
  have sp: "\<not> is_re_space (CHR '':'')" "\<not> is_re_space quote" by (simp_all add: is_re_space_def quote_def)
  show ?thesis
    by (simp add: match_data_start_def data_object_def HasPrefix_def Let_def sp)
qed

lemma find_match:
  assumes "match_data_start s = Some r"
  shows "find_data_starts s = (s, r) # find_data_starts r"
proof (cases s)
  case Nil
  with assms match_head show ?thesis by fastforce
next
  case (Cons c cs)
  with assms show ?thesis by (subst find_data_starts.simps) simp
qed

lemma read_object:
  "readJSONStringValue (p @ esc v @ close @ r) (length (p @ esc v @ close @ r) - length (esc v @ close @ r)) =
   Some (v, length p + length (esc v) + 2)"
  by (simp add: readJSONStringValue_def read_esc)

lemma find_object:
  "find_data_starts (data_object v @ s) = (data_object v @ s, esc v @ close @ s) # find_data_starts s"
  using find_match [OF match_object] by (simp add: find_esc)

lemma extractDataItems_objects:
  assumes "CHR ''{'' \<notin> set j0" and "\<forall>(v, j) \<in> set vjs. CHR ''{'' \<notin> set j"
  shows "extractDataItems (j0 @ concat (map (\<lambda>(v, j). data_object v @ j) vjs)) =
    (filter (\<lambda>v. v \<noteq> []) (map fst vjs),
     map (\<lambda>v. \<lparr>InvRawData = v, Reason = EmptyDataField\<rparr>) (filter (\<lambda>v. v = []) (map fst vjs)))"
proof -
  let ?cat = "\<lambda>vjs. concat (map (\<lambda>(v, j). data_object v @ j) vjs)"
  have main: "extract_matches raw (find_data_starts (?cat vjs)) items bad =
    (items @ filter (\<lambda>v. v \<noteq> []) (map fst vjs),
     bad @ map (\<lambda>v. \<lparr>InvRawData = v, Reason = EmptyDataField\<rparr>) (filter (\<lambda>v. v = []) (map fst vjs)))"
    if "raw = pre @ ?cat vjs" for raw pre items bad
    using that assms(2)
  proof (induction vjs arbitrary: pre items bad)
    case Nil
    then show ?case by (simp add: find_data_starts.simps)
  next
    case (Cons vj vjs)
    obtain v j where vj: "vj = (v, j)" by (cases vj)
    let ?p = "pre @ ''{'' @ [quote] @ ''data'' @ [quote] @ '':'' @ [quote]" and ?rest = "j @ ?cat vjs"
    have raw: "raw = ?p @ esc v @ close @ ?rest" using Cons.prems(1) by (simp add: vj data_object_def)
    have read: "readJSONStringValue raw (length raw - length (esc v @ close @ ?rest)) =
        Some (v, length ?p + length (esc v) + 2)"
      unfolding raw by (rule read_object)
    have "raw = (pre @ data_object v @ j) @ ?cat vjs" using Cons.prems(1) by (simp add: vj)
    note IH = Cons.IH [OF this]
    show ?case
      using Cons.prems(2) IH by (simp add: vj find_object find_junk read [simplified])
  qed
  show ?thesis
    unfolding extractDataItems_def find_junk [OF assms(1)]
    using main [of "j0 @ ?cat vjs" j0 "[]" "[]"] by simp
qed

section \<open>Records in the order of time\<close>

lemma year_of_mono: "n \<le> m \<Longrightarrow> year_of n \<le> year_of m"
proof (rule ccontr)
  assume "n \<le> m" "\<not> year_of n \<le> year_of m"
  then have "year_start (year_of m + 1) \<le> year_start (year_of n)" by (intro year_start_mono) simp
  then show False using year_of_bounds [of n] year_of_bounds [of m] \<open>n \<le> m\<close> by linarith
qed

lemma year_of_next: "year_of (n + 1) \<le> year_of n + 1"
proof (rule ccontr)
  assume "\<not> ?thesis"
  then have "year_start (year_of n + 1 + 1) \<le> year_start (year_of (n + 1))" by (intro year_start_mono) simp
  moreover have "365 \<le> year_len (year_of n + 1)" by (simp add: year_len_def)
  ultimately show False
    using year_of_bounds [of n] year_of_bounds [of "n + 1"] year_start_Suc [of "year_of n + 1"] by linarith
qed

lemma dval_bound: "48 \<le> (of_char c :: nat) \<Longrightarrow> (of_char c :: nat) \<le> 57 \<Longrightarrow> 0 \<le> dval c \<and> dval c \<le> 9"
proof -
  assume *: "48 \<le> (of_char c :: nat)" "(of_char c :: nat) \<le> 57"
  have "(of_char c :: int) = int (of_char c)" by (simp only: of_nat_of_char)
  with * show ?thesis by (simp add: dval_def)
qed

lemma foldl_digits:
  assumes "\<forall>c \<in> set ds. 48 \<le> (of_char c :: nat) \<and> (of_char c :: nat) \<le> 57" and "0 \<le> a"
  shows "0 \<le> foldl (\<lambda>n c. 10 * n + dval c) a ds \<and>
    foldl (\<lambda>n c. 10 * n + dval c) a ds < (a + 1) * 10 ^ length ds"
  using assms
proof (induction ds arbitrary: a)
  case (Cons c ds)
  have c: "0 \<le> dval c" "dval c \<le> 9" using dval_bound [of c] Cons.prems(1) by auto
  have IH: "0 \<le> foldl (\<lambda>n c. 10 * n + dval c) (10 * a + dval c) ds"
    "foldl (\<lambda>n c. 10 * n + dval c) (10 * a + dval c) ds < (10 * a + dval c + 1) * 10 ^ length ds"
    using Cons.IH [of "10 * a + dval c"] Cons.prems c by auto
  have "(10 * a + dval c + 1) * 10 ^ length ds \<le> (10 * (a + 1)) * 10 ^ length ds"
    using c by (intro mult_right_mono) auto
  moreover have "(10 * (a + 1)) * 10 ^ length ds = (a + 1) * 10 ^ length (c # ds)" by simp
  ultimately show ?case unfolding foldl_Cons using IH by linarith
qed simp

lemma parse_year_range: "parse_year s = Some (y, r) \<Longrightarrow> 1969 \<le> y \<and> y \<le> 2068"
proof -
  assume p: "parse_year s = Some (y, r)"
  then obtain z where z: "atoi_year (take 2 s) = Some z" "y = (if z \<ge> 69 then z + 1900 else z + 2000)"
    and len: "2 \<le> length s"
    by (auto simp: parse_year_def split: if_splits)
  obtain a b where ab: "take 2 s = [a, b]"
    using len by (cases s; cases "tl s") auto
  let ?D = "\<lambda>c. 48 \<le> (of_char c :: nat) \<and> (of_char c :: nat) \<le> 57"
  let ?f = "\<lambda>ds. foldl (\<lambda>n c. 10 * n + dval c) 0 ds"
  have one: "?D b \<Longrightarrow> 0 \<le> ?f [b] \<and> ?f [b] < 10" and two: "?D a \<Longrightarrow> ?D b \<Longrightarrow> 0 \<le> ?f [a, b] \<and> ?f [a, b] < 100"
    using foldl_digits [of "[b]" 0] foldl_digits [of "[a, b]" 0] by auto
  have "- 9 \<le> z \<and> z \<le> 99"
    using z(1) one two unfolding atoi_year_def ab by (auto simp: Let_def split: if_splits)
  then show ?thesis using z(2) by auto
qed

lemma parse_fraction_range: "parse_fraction s = (n, r) \<Longrightarrow> 0 \<le> n \<and> n < 1000000000"
proof -
  assume p: "parse_fraction s = (n, r)"
  show ?thesis
  proof (cases "2 \<le> length s \<and> s ! 0 \<in> set ''.,'' \<and> is_digit_at s 1")
    case True
    define us where "us = take 9 (takeWhile (\<lambda>c. 48 \<le> (of_char c :: nat) \<and> (of_char c :: nat) \<le> 57) (drop 1 s))"
    have n: "n = foldl (\<lambda>n c. 10 * n + dval c) 0 us * 10 ^ (9 - length us)"
      using p True by (simp add: parse_fraction_def us_def Let_def)
    have "\<forall>c \<in> set us. 48 \<le> (of_char c :: nat) \<and> (of_char c :: nat) \<le> 57"
      unfolding us_def using set_take_subset set_takeWhileD by fast
    from foldl_digits [OF this, of 0]
    have f: "0 \<le> foldl (\<lambda>n c. 10 * n + dval c) 0 us" "foldl (\<lambda>n c. 10 * n + dval c) 0 us < 10 ^ length us" by auto
    have "length us \<le> 9" by (simp add: us_def)
    then have e: "(10 :: int) ^ length us * 10 ^ (9 - length us) = 10 ^ 9" by (simp flip: power_add)
    have "n < 10 ^ length us * 10 ^ (9 - length us)"
      unfolding n using f(2) by (intro mult_strict_right_mono) simp_all
    then show ?thesis using f(1) by (simp add: e n)
  qed (use p in \<open>auto simp: parse_fraction_def\<close>)
qed

lemma getnum_nonneg: "getnum s f = Some (n, r) \<Longrightarrow> 0 \<le> n"
  using dval_bound [of "s ! 0"] dval_bound [of "s ! 1"]
  by (auto simp: getnum_def is_digit_at_def split: if_splits)

lemma range_numD: "range_num s f lo hi = Some (n, r) \<Longrightarrow> lo \<le> n \<and> n < hi"
  by (auto simp: range_num_def split: option.splits if_splits)

lemma ParseTime_range:
  assumes "ParseTime s = Some t"
  shows "1969 \<le> instant_year (t_sec t)" "instant_year (t_sec t) \<le> 2068" "0 \<le> t_nsec t" "t_nsec t < 1000000000"
proof -
  obtain y mo d h mi sc s1 s2 s3 s4 s5 s6 where p:
    "parse_year s = Some (y, s1)" "range_num s1 True 1 13 = Some (mo, s2)" "getnum s2 True = Some (d, s3)"
    "range_num s3 False 0 24 = Some (h, s4)" "range_num s4 True 0 60 = Some (mi, s5)"
    "range_num s5 True 0 60 = Some (sc, s6)"
    and rest: "(let (nsec, s7) = parse_fraction s6 in
      if s7 \<noteq> [] \<or> d < 1 \<or> d > month_len (is_leap y) (nat mo) then None
      else Some (DateUTC y (nat mo) d h mi sc nsec)) = Some t"
    using assms by (auto simp: ParseTime_def bind_eq_Some_conv)
  obtain ns s7 where f: "parse_fraction s6 = (ns, s7)" by (cases "parse_fraction s6")
  with rest have t: "1 \<le> d" "d \<le> month_len (is_leap y) (nat mo)" "t = DateUTC y (nat mo) d h mi sc ns"
    by (auto split: if_splits)
  note R = parse_year_range [OF p(1)] range_numD [OF p(2)] range_numD [OF p(4)] range_numD [OF p(5)]
    range_numD [OF p(6)] parse_fraction_range [OF f]
  have v: "valid_date y (nat mo) d" using R t(1,2) by (auto simp: valid_date_def)
  have "t_sec t div 86400 = days_of_date y (nat mo) d"
    using R unfolding t(3) DateUTC_def
    by (intro int_div_pos_eq [where r = "3600 * h + 60 * mi + sc"]) auto
  then have "instant_year (t_sec t) = y"
    using date_of_days(3) [OF date_of_days_of_date [OF v]] by (simp add: instant_year_def)
  then show "1969 \<le> instant_year (t_sec t)" "instant_year (t_sec t) \<le> 2068" using R by auto
  show "0 \<le> t_nsec t" "t_nsec t < 1000000000" using R by (simp_all add: t(3) DateUTC_def)
qed

lemma parseDateTime_instant:
  assumes "parseDateTime d t = Some dt"
  obtains k where "dt = format_datetime k" "0 \<le> instant_year k" "instant_year k \<le> 9999"
proof -
  obtain tm where tm: "ParseTime (d @ t) = Some tm" "dt = FormatDateTime (t_Add tm (3 * Hour + 30 * Minute))"
    using assms by (auto simp: parseDateTime_def)
  note R = ParseTime_range [OF tm(1)]
  let ?k = "t_sec tm + 12600"
  have "(t_nsec tm + 12600000000000) div 1000000000 = 12600"
    using R(3,4) by (intro int_div_pos_eq [where r = "t_nsec tm"]) auto
  then have k: "t_sec (t_Add tm (3 * Hour + 30 * Minute)) = ?k" by (simp add: t_Add_def Let_def)
  have q: "t_sec tm div 86400 \<le> ?k div 86400" "?k div 86400 \<le> t_sec tm div 86400 + 1"
    using zdiv_mono1 [of "t_sec tm" ?k 86400] zdiv_mono1 [of ?k "t_sec tm + 86400" 86400] by simp_all
  have "instant_year (t_sec tm) \<le> instant_year ?k" "instant_year ?k \<le> instant_year (t_sec tm) + 1"
    using year_of_mono [OF q(1)] year_of_mono [OF q(2)] year_of_next [of "t_sec tm div 86400"]
    by (simp_all add: instant_year_def)
  then show thesis using R that [of ?k] tm(2) k by (simp add: FormatDateTime_def)
qed

end
