(* ===== verification/Coordinates.thy ===== *)
theory Coordinates
  imports Gps_Parser_Facts
begin

text \<open>
  The numerical error of the coordinate conversion: a value \<open>100 d + m\<close> of degrees \<open>d\<close> and
  minutes \<open>m\<close> becomes \<open>d + m / 60\<close> within six tenths of a millionth of a degree.
\<close>

section \<open>Absolute rounding error\<close>

lemma ilog2_less: "0 < x \<Longrightarrow> x < pow2 e \<Longrightarrow> ilog2 x < e"
proof (rule ccontr)
  assume x: "0 < x" "x < pow2 e" and "\<not> ilog2 x < e"
  then have "pow2 e \<le> pow2 (ilog2 x)" by (intro pow2_mono) simp
  then show False using ilog2_bounds(1) [OF x(1)] x(2) by linarith
qed

lemma round_mag_abs:
  assumes "0 < x" and "x < pow2 e" and "- 1000 \<le> e"
  shows "\<bar>round_mag x - x\<bar> \<le> pow2 (e - 54)"
proof -
  have "ulp_exp x \<le> e - 54 + 1" using ilog2_less [OF assms(1,2)] assms(3) by (simp add: ulp_exp_def)
  then have "pow2 (ulp_exp x) \<le> pow2 (e - 54 + 1)" by (rule pow2_mono)
  also have "\<dots> = 2 * pow2 (e - 54)" by (rule pow2_Suc)
  finally show ?thesis using round_mag_error [of x] by linarith
qed

lemma round_even_ge: "of_int k \<le> q \<Longrightarrow> k \<le> round_even q"
proof -
  assume "of_int k \<le> q"
  then have "k \<le> \<lfloor>q\<rfloor>" by (simp add: le_floor_iff)
  then show ?thesis by (auto simp: round_even_def Let_def)
qed

lemma round_mag_nonneg: "0 \<le> x \<Longrightarrow> 0 \<le> round_mag x"
proof -
  assume "0 \<le> x"
  then have "0 \<le> round_even (x / pow2 (ulp_exp x))" by (intro round_even_ge) (simp add: less_imp_le)
  then show ?thesis by (simp add: round_mag_def less_imp_le)
qed

lemma round_mag_ge_int:
  assumes "of_int k \<le> x" and "0 < x" and "x < pow2 50"
  shows "of_int k \<le> round_mag x"
proof -
  let ?u = "ulp_exp x"
  have u: "?u \<le> 0" using ilog2_less [OF assms(2,3)] by (simp add: ulp_exp_def)
  then have p: "pow2 ?u = 1 / of_int (2 ^ nat (- ?u))" by (auto simp: pow2_def)
  have "of_int (k * 2 ^ nat (- ?u)) \<le> x / pow2 ?u"
    using assms(1) unfolding p by (simp add: mult_right_mono)
  then have "k * 2 ^ nat (- ?u) \<le> round_even (x / pow2 ?u)" by (rule round_even_ge)
  then have "of_int (k * 2 ^ nat (- ?u)) * pow2 ?u \<le> round_mag x"
    unfolding round_mag_def by (intro mult_right_mono) (simp_all only: of_int_le_iff pow2_pos less_imp_le)
  then show ?thesis unfolding p by simp
qed

lemma round64_near:
  assumes "0 \<le> x" and "x < pow2 e" and "- 1000 \<le> e" and "e \<le> 1000"
  obtains r where "round64 s x = Fin s r" "0 \<le> r" "\<bar>r - x\<bar> \<le> pow2 (e - 54)"
proof (cases "x = 0")
  case True
  then show thesis using that [of 0] by (simp add: round64_def less_imp_le)
next
  case False
  with assms(1) have x: "0 < x" by simp
  note err = round_mag_abs [OF x assms(2,3)]
  have "round_mag x < pow2 1024"
  proof -
    have "pow2 (e - 54) \<le> pow2 e" "pow2 (e + 1) \<le> pow2 1024"
      using assms(4) by (intro pow2_mono; simp)+
    moreover have "pow2 (e + 1) = 2 * pow2 e" by (rule pow2_Suc)
    ultimately have "pow2 (e - 54) \<le> pow2 e" "2 * pow2 e \<le> pow2 1024" by simp_all
    then show ?thesis using err assms(2) by linarith
  qed
  then show thesis
    using that [of "round_mag x"] False err round_mag_nonneg [OF assms(1)] by (simp add: round64_def)
qed

lemma pow2_numerals:
  "pow2 1 = 2" "pow2 6 = 64" "pow2 8 = 256" "pow2 28 = 268435456"
  "pow2 (1 - 54) = 1 / 9007199254740992" "pow2 (6 - 54) = 1 / 281474976710656"
  "pow2 (8 - 54) = 1 / 70368744177664" "pow2 (28 - 54) = 1 / 67108864"
  by (simp_all add: pow2_def)

section \<open>Degrees and minutes\<close>

lemma degrees_exact:
  assumes "v = 100 * of_nat d + m" and "d \<le> 180" and "0 \<le> m" and "m < 60"
  shows "f_floor (f_div (Fin False v) (Fin False 100)) = Fin False (of_nat d)"
proof -
  have d: "(of_nat d :: rat) \<le> 180" using assms(2) by (metis of_nat_le_iff of_nat_numeral)
  have x: "v / 100 = of_nat d + m / 100" using assms(1) by simp
  have lt: "v / 100 < pow2 8" "0 \<le> v / 100" using d assms(3,4) by (simp_all add: x pow2_numerals)
  obtain q where q: "round64 False (v / 100) = Fin False q" "\<bar>q - v / 100\<bar> \<le> pow2 (8 - 54)"
    by (rule round64_near [OF lt(2,1), of False]) auto
  have up: "q < of_nat d + 1" using q(2) assms(4) unfolding x pow2_numerals by linarith
  have low: "of_nat d \<le> q"
  proof (cases "v / 100 = 0")
    case True
    then have "d = 0" using assms(3) x by (metis add_nonneg_eq_0_iff divide_nonneg_nonneg of_nat_0_eq_iff
          of_nat_0_le_iff zero_le_numeral)
    with q(1) True show ?thesis by (simp add: round64_def)
  next
    case False
    with lt have pos: "0 < v / 100" by linarith
    have b: "v / 100 < pow2 50" using lt(1) pow2_less [of 8 50] by linarith
    have "of_int (int d) \<le> v / 100" using assms(3) by (simp add: x)
    from round_mag_ge_int [OF this pos b] q(1) False show ?thesis
      by (simp add: round64_def Let_def split: if_splits)
  qed
  have "\<lfloor>q\<rfloor> = int d" using low up by (intro floor_unique) simp_all
  then show ?thesis using q(1) by simp
qed

lemma hundred_d:
  assumes "d \<le> 180"
  shows "f_mul (Fin False (of_nat d)) (Fin False 100) = Fin False (100 * of_nat d)"
proof -
  have "is_double (of_int (100 * int d))" using assms by (intro is_double_int) auto
  then show ?thesis by (simp add: round64_exact mult.commute)
qed

lemma nmea_error:
  assumes v: "v = 100 * of_nat d + m" and d: "d \<le> 180" and m: "0 \<le> m" "m < 60"
  obtains r where "nmeaToDecimalDegrees (Fin False v) = Fin False r" "0 \<le> r" "r < 182"
    and "\<bar>r - (of_nat d + m / 60)\<bar> \<le> 1 / 1000000000000"
proof -
  have d': "(of_nat d :: rat) \<le> 180" using d by (metis of_nat_le_iff of_nat_numeral)
  obtain m' where m': "f_sub (Fin False v) (Fin False (100 * of_nat d)) = Fin False m'"
    "0 \<le> m'" "\<bar>m' - m\<bar> \<le> pow2 (6 - 54)"
  proof (cases "m = 0")
    case True
    then show thesis using that [of 0] by (simp add: f_sub_def v less_imp_le)
  next
    case False
    obtain r where "round64 False m = Fin False r" "0 \<le> r" "\<bar>r - m\<bar> \<le> pow2 (6 - 54)"
      by (rule round64_near [of m 6 False]) (use m in \<open>auto simp: pow2_numerals\<close>)
    then show thesis using that [of r] False m by (simp add: f_sub_def v)
  qed
  have b: "m' / 60 < pow2 1" "0 \<le> m' / 60" using m'(2,3) m unfolding pow2_numerals by linarith+
  obtain n where n: "f_div (Fin False m') (Fin False 60) = Fin False n" "0 \<le> n"
    "\<bar>n - m' / 60\<bar> \<le> pow2 (1 - 54)"
    by (rule round64_near [OF b(2,1), of False]) auto
  have s: "0 \<le> of_nat d + n" "of_nat d + n < pow2 8"
    using n(2,3) m'(2,3) m d' unfolding pow2_numerals by linarith+
  obtain r where r: "f_add (Fin False (of_nat d)) (Fin False n) = Fin False r" "0 \<le> r"
    "\<bar>r - (of_nat d + n)\<bar> \<le> pow2 (8 - 54)"
  proof (cases "of_nat d + n = 0")
    case True
    then show thesis using that [of 0] by (simp add: less_imp_le)
  next
    case False
    obtain r where "round64 False (of_nat d + n) = Fin False r" "0 \<le> r" "\<bar>r - (of_nat d + n)\<bar> \<le> pow2 (8 - 54)"
      by (rule round64_near [OF s, of False]) auto
    then show thesis using that [of r] False s(1) by simp
  qed
  have e: "nmeaToDecimalDegrees (Fin False v) = Fin False r"
    using degrees_exact [OF v d m] hundred_d [OF d] m'(1) n(1) r(1)
    by (simp only: nmeaToDecimalDegrees_def Let_def)
  have err: "\<bar>r - (of_nat d + m / 60)\<bar> \<le> 1 / 1000000000000"
    using r(3) n(3) m'(3) unfolding pow2_numerals abs_le_iff by (intro conjI; linarith)
  then have "r < 182" using d' m unfolding abs_le_iff by linarith
  then show thesis using that e r(2) err by blast
qed

lemma round6_error:
  assumes "0 \<le> x" and "x < 182"
  obtains r where "round6 (Fin False x) = Fin False r" and "\<bar>r - x\<bar> \<le> 5001 / 10000000000"
proof -
  have b: "0 \<le> x * 1000000" "x * 1000000 < pow2 28" using assms unfolding pow2_numerals by linarith+
  obtain y where y: "round64 False (x * 1000000) = Fin False y" "0 \<le> y"
    "\<bar>y - x * 1000000\<bar> \<le> pow2 (28 - 54)"
    by (rule round64_near [OF b, of False]) auto
  let ?k = "of_int \<lfloor>y + 1 / 2\<rfloor> :: rat"
  have k: "?k \<le> y + 1 / 2" "y + 1 / 2 < ?k + 1" by linarith+
  have "0 \<le> \<lfloor>y + 1 / 2\<rfloor>" using y(2) by simp
  then have k0: "0 \<le> ?k" by simp
  have b': "0 \<le> ?k / 1000000" "?k / 1000000 < pow2 8"
    using k k0 y(3) b assms(2) unfolding pow2_numerals by (simp, linarith)
  obtain r where r: "round64 False (?k / 1000000) = Fin False r" "\<bar>r - ?k / 1000000\<bar> \<le> pow2 (8 - 54)"
    by (rule round64_near [OF b', of False]) auto
  have "round6 (Fin False x) = Fin False r" by (simp add: round6_def y(1) r(1))
  moreover have "\<bar>r - x\<bar> \<le> 5001 / 10000000000"
    using r(2) k y(3) unfolding pow2_numerals abs_le_iff by (intro conjI; linarith)
  ultimately show thesis by (rule that)
qed

lemma coordinate_error:
  assumes "v = 100 * of_nat d + m" and "d \<le> 180" and "0 \<le> m" and "m < 60"
  obtains r where "round6 (nmeaToDecimalDegrees (Fin False v)) = Fin False r"
    and "\<bar>r - (of_nat d + m / 60)\<bar> \<le> 6 / 10000000"
proof -
  obtain x where x: "nmeaToDecimalDegrees (Fin False v) = Fin False x" "0 \<le> x" "x < 182"
    "\<bar>x - (of_nat d + m / 60)\<bar> \<le> 1 / 1000000000000"
    by (rule nmea_error [OF assms])
  obtain r where r: "round6 (Fin False x) = Fin False r" "\<bar>r - x\<bar> \<le> 5001 / 10000000000"
    by (rule round6_error [OF x(2,3)])
  have "\<bar>r - (of_nat d + m / 60)\<bar> \<le> 6 / 10000000"
    using x(4) r(2) unfolding abs_le_iff by (intro conjI; linarith)
  then show thesis using that x(1) r(1) by simp
qed

end
