(* ===== verification/Teltonika_Parser.thy ===== *)
theory Teltonika_Parser
  imports Gps_Parser
begin

text \<open>
  The Teltonika side of the parser (\<open>internal/parser/teltonika.go\<close>): AVL records become parsed
  records, parsed records travel through the queue in a JSON envelope, and \<open>ParseWithIMEI\<close>
  routes a payload by its format.  The JSON encoder and decoder of the envelope are arguments.
\<close>

section \<open>AVL records\<close>

definition defaultTimezoneOffset :: int where
  "defaultTimezoneOffset = 3 * Hour + 30 * Minute"

definition teltonikaRecordToParsed :: "Record \<Rightarrow> string \<Rightarrow> int \<Rightarrow> ParsedGPSData" where
  "teltonikaRecordToParsed rec imei tzOffset =
     (let t = t_Add (UnixMilli (sint (TimestampMs rec))) tzOffset;
          ew = (if f_lt (Lon rec) (Fin False 0) then 0 else 1);
          ns = (if f_lt (Lat rec) (Fin False 0) then 0 else 1);
          status = (case IOs rec 239 of Some v \<Rightarrow> if v = 1 then 1 else 0 | None \<Rightarrow> 0);
          rawData = (if length (RawBytes rec) > 0 then hex_EncodeToString (RawBytes rec) else []);
          lat = round6 (Lat rec);
          lon = round6 (Lon rec)
      in \<lparr>Coordinate = (lat, lon), Speed = uint (Speed_avl rec), Status = status,
          Directions = \<lparr>EW = ew, NS = ns\<rparr>, DateTime = FormatDateTime t, IMEI = imei,
          RawData = rawData\<rparr>)"

definition teltonikaRecordsToParsed :: "Record list \<Rightarrow> string \<Rightarrow> int \<Rightarrow> ParsedGPSData list" where
  "teltonikaRecordsToParsed records imei tzOffset =
     map (\<lambda>rec. teltonikaRecordToParsed rec imei tzOffset) records"

definition TeltonikaRecordsToParsed :: "Record list \<Rightarrow> string \<Rightarrow> int \<Rightarrow> ParsedGPSData list" where
  "TeltonikaRecordsToParsed records imei tzOffset =
     teltonikaRecordsToParsed records imei (if tzOffset = 0 then defaultTimezoneOffset else tzOffset)"

definition parseTeltonikaAVL ::
  "ParsedGPSData sorter \<Rightarrow> u8 slice \<Rightarrow> string \<Rightarrow> int \<Rightarrow> (parse_error, ParseResult) result" where
  "parseTeltonikaAVL sort_Slice data imei tzOffset =
     andThen (mapErr (\<lambda>(_, _, e). AVLPacket e) (ParsePacket data)) (\<lambda>(_, records).
       Ok \<lparr>Records = sort_Slice byDateTime (teltonikaRecordsToParsed records imei tzOffset),
           Invalid = []\<rparr>)"

section \<open>The queue envelope\<close>

record teltonikaEnvelope =
  env_Teltonika :: bool
  env_IMEI :: string
  env_Records :: "ParsedGPSData list"

definition ParseTeltonikaEnvelope ::
  "(teltonikaEnvelope \<Rightarrow> u8 list option) \<Rightarrow> string \<Rightarrow> ParsedGPSData list \<Rightarrow> u8 list option" where
  "ParseTeltonikaEnvelope marshal imei records =
     marshal \<lparr>env_Teltonika = True, env_IMEI = imei, env_Records = records\<rparr>"

definition unmarshalTeltonikaEnvelope ::
  "(u8 list \<Rightarrow> teltonikaEnvelope option) \<Rightarrow> ParsedGPSData sorter \<Rightarrow> u8 list \<Rightarrow>
   (parse_error, ParseResult) result" where
  "unmarshalTeltonikaEnvelope unmarshal_env sort_Slice data =
     (case unmarshal_env data of
        None \<Rightarrow> Err InvalidEnvelope
      | Some env \<Rightarrow>
          if \<not> env_Teltonika env then Err MissingEnvelopeMarker
          else let records = map (\<lambda>r. if IMEI r = [] then r\<lparr>IMEI := env_IMEI env\<rparr> else r) (env_Records env)
               in Ok \<lparr>Records = sort_Slice byDateTime records, Invalid = []\<rparr>)"

section \<open>Routing\<close>

definition ParseWithIMEI ::
  "(string \<Rightarrow> string list option) \<Rightarrow> (u8 list \<Rightarrow> teltonikaEnvelope option) \<Rightarrow> ParsedGPSData sorter \<Rightarrow>
   u8 slice \<Rightarrow> string \<Rightarrow> int \<Rightarrow> (parse_error, ParseResult) result" where
  "ParseWithIMEI unmarshal unmarshal_env sort_Slice data imei tzOffset =
     (if slen data = 0 then Err EmptyInput
      else let tz = (if tzOffset = 0 then defaultTimezoneOffset else tzOffset) in
        case DetectFormat (elems data) of
          FormatTeltonikaQueued \<Rightarrow> unmarshalTeltonikaEnvelope unmarshal_env sort_Slice (elems data)
        | FormatTeltonikaAVL \<Rightarrow> parseTeltonikaAVL sort_Slice data imei tz
        | FormatHooshnicJSON \<Rightarrow> parseHooshnicJSON unmarshal sort_Slice (string_of (elems data))
        | FormatUnknown \<Rightarrow> andThen (index data 0) (\<lambda>b. Err (UnknownFormat b)))"

definition Parse ::
  "(string \<Rightarrow> string list option) \<Rightarrow> (u8 list \<Rightarrow> teltonikaEnvelope option) \<Rightarrow> ParsedGPSData sorter \<Rightarrow>
   u8 slice \<Rightarrow> (parse_error, ParseResult) result" where
  "Parse unmarshal unmarshal_env sort_Slice data =
     ParseWithIMEI unmarshal unmarshal_env sort_Slice data [] defaultTimezoneOffset"

end
