(* ===== verification/Codec_Safety.thy ===== *)
theory Codec_Safety
  imports Teltonika_Codec
begin

text \<open>
  Memory safety of the AVL decoder: where it can panic, how far it reads, and that a
  successful decode depends on the visible bytes of the packet only.
\<close>

section \<open>Reads inside the visible bytes\<close>

lemma be_at_in_len [slice_simps]:
  "off + n \<le> slen buf \<Longrightarrow> be_at n buf off = Ok (be_word (take n (drop off (elems buf))))"
  by (simp add: be_at_def reslice_in_len)

lemma be_at_not_Err [simp]: "be_at n buf off \<noteq> Err e"
  by (simp add: be_at_def reslice_def)

lemma index_not_Err [simp]: "index s i \<noteq> Err e"
  by (simp add: index_def)

named_theorems offset_bounds \<open>a successful read moves forward and stays inside the slice\<close>

named_theorems no_panic \<open>guarded reads never panic\<close>

lemma readIOCount_bounds [offset_bounds]:
  "readIOCount buf off w = Ok (n, off') \<Longrightarrow> off < off' \<and> off' \<le> slen buf"
  by (auto simp: readIOCount_def slice_simps split: if_splits)

lemma readIOID_bounds [offset_bounds]:
  "readIOID buf off w = Ok (n, off') \<Longrightarrow> off < off' \<and> off' \<le> slen buf"
  by (auto simp: readIOID_def slice_simps split: if_splits)

lemma readEventIOID_bounds [offset_bounds]:
  "readEventIOID buf off cfg = Ok (n, off') \<Longrightarrow> off < off' \<and> off' \<le> slen buf"
  by (auto simp: readEventIOID_def slice_simps split: if_splits)

lemma skipGeneration_bounds [offset_bounds]:
  "skipGeneration buf off cfg = Ok off' \<Longrightarrow> off \<le> slen buf \<Longrightarrow> off \<le> off' \<and> off' \<le> slen buf"
  by (auto simp: skipGeneration_def split: if_splits)

lemma parseGroupLoop_bounds [offset_bounds]:
  "parseGroupLoop k buf cfg sz off ios = Ok (ios', off') \<Longrightarrow> off \<le> slen buf \<Longrightarrow>
   off \<le> off' \<and> off' \<le> slen buf"
proof (induction k arbitrary: off ios)
  case (Suc k)
  then obtain i off1 val where "readIOID buf off (idWidth cfg) = Ok (i, off1)"
    and "off1 + sz \<le> slen buf"
    and "parseGroupLoop k buf cfg sz (off1 + sz) (ios(i \<mapsto> val)) = Ok (ios', off')"
    by (auto simp: result_simps split: if_splits)
  then show ?case using Suc.IH [of "off1 + sz"] by (fastforce dest: readIOID_bounds)
qed simp

lemma parseGroup_bounds [offset_bounds]:
  "parseGroup buf cfg sz off ios = Ok (ios', off') \<Longrightarrow> off \<le> off' \<and> off' \<le> slen buf"
  by (fastforce simp: parseGroup_def result_simps dest: offset_bounds)

lemma parseGroups_bounds [offset_bounds]:
  "parseGroups szs buf cfg off ios = Ok (ios', off') \<Longrightarrow> off \<le> slen buf \<Longrightarrow>
   off \<le> off' \<and> off' \<le> slen buf"
proof (induction szs arbitrary: off ios)
  case (Cons sz szs)
  then obtain ios1 off1 where "parseGroup buf cfg sz off ios = Ok (ios1, off1)"
    and "parseGroups szs buf cfg off1 ios1 = Ok (ios', off')"
    by (auto simp: result_simps)
  then show ?case using Cons.IH [of off1] by (fastforce dest: parseGroup_bounds)
qed simp

lemma parseVariableLoop_bounds [offset_bounds]:
  "parseVariableLoop k buf cfg off ios = Ok (ios', off') \<Longrightarrow> off \<le> slen buf \<Longrightarrow>
   off \<le> off' \<and> off' \<le> slen buf"
proof (induction k arbitrary: off ios)
  case (Suc k)
  then obtain i off1 where i: "readIOID buf off (idWidth cfg) = Ok (i, off1)"
    and "off1 + 2 \<le> slen buf"
    and rest: "andThen (be_at 2 buf off1) (\<lambda>len :: u16.
         let off2 = off1 + 2 in
         if off2 + unat len > slen buf then Err EndOfVariableIOValue
         else andThen (variableValue (min (unat len) 8) buf off2 0) (\<lambda>val.
           parseVariableLoop k buf cfg (off2 + unat len) (ios(i \<mapsto> val)))) = Ok (ios', off')"
    by (auto simp: result_simps split: if_splits)
  from rest obtain n ios1 where "off1 + 2 + n \<le> slen buf"
    and "parseVariableLoop k buf cfg (off1 + 2 + n) ios1 = Ok (ios', off')"
    by (fastforce simp: result_simps Let_def not_less split: if_splits)
  with i show ?case using Suc.IH [of "off1 + 2 + n" ios1] by (fastforce dest: readIOID_bounds)
qed simp

lemma parseIOBlock_bounds [offset_bounds]:
  assumes "parseIOBlock buf off cfg = Ok (ios, off')"
  shows "off < off' \<and> off' \<le> slen buf"
proof -
  obtain ev off1 off2 tot off3 ios4 off4 where
    1: "readEventIOID buf off cfg = Ok (ev, off1)" and
    2: "skipGeneration buf off1 cfg = Ok off2" and
    3: "readIOCount buf off2 (countWidth cfg) = Ok (tot, off3)" and
    4: "parseGroups [1, 2, 4, 8] buf cfg off3 Map.empty = Ok (ios4, off4)" and
    fin: "(if hasVariableIO cfg
       then andThen (readIOCount buf off4 (countWidth cfg)) (\<lambda>(nx, off5).
              parseVariableLoop (unat nx) buf cfg off5 ios4)
       else Ok (ios4, off4)) = Ok (ios, off')"
    using assms by (auto simp: parseIOBlock_def result_simps simp del: parseGroups.simps)
  from fin have 5: "off4 \<le> off' \<and> (off4 \<le> slen buf \<longrightarrow> off' \<le> slen buf)"
    by (fastforce simp: result_simps split: if_splits dest: readIOCount_bounds parseVariableLoop_bounds)
  from 1 have a: "off < off1" "off1 \<le> slen buf" by (auto dest: offset_bounds)
  with 2 have b: "off1 \<le> off2" by (auto dest: offset_bounds)
  from 3 have c: "off2 < off3" "off3 \<le> slen buf" by (auto dest: offset_bounds)
  from parseGroups_bounds [OF 4] c have "off3 \<le> off4" "off4 \<le> slen buf" by auto
  with 5 a b c show ?thesis by linarith
qed

section \<open>Guarded reads never panic\<close>

lemma readIOCount_no_panic [no_panic]: "readIOCount buf off w \<noteq> Panic"
  by (auto simp: readIOCount_def slice_simps)

lemma readIOID_no_panic [no_panic]: "readIOID buf off w \<noteq> Panic"
  by (auto simp: readIOID_def slice_simps)

lemma readEventIOID_no_panic [no_panic]: "readEventIOID buf off cfg \<noteq> Panic"
  by (auto simp: readEventIOID_def slice_simps)

lemma skipGeneration_no_panic [no_panic]: "skipGeneration buf off cfg \<noteq> Panic"
  by (auto simp: skipGeneration_def)

lemma readIOValue_no_panic [no_panic]: "off + sz \<le> slen buf \<Longrightarrow> readIOValue buf off sz \<noteq> Panic"
  by (auto simp: readIOValue_def slice_simps)

lemma variableValue_no_panic [no_panic]: "p + k \<le> slen buf \<Longrightarrow> variableValue k buf p v \<noteq> Panic"
  by (induction k arbitrary: p v) (auto simp: slice_simps)

lemma parseGroupLoop_no_panic [no_panic]: "parseGroupLoop k buf cfg sz off ios \<noteq> Panic"
  by (induction k arbitrary: off ios) (auto simp: result_simps no_panic)

lemma parseGroup_no_panic [no_panic]: "parseGroup buf cfg sz off ios \<noteq> Panic"
  by (auto simp: parseGroup_def result_simps no_panic)

lemma parseGroups_no_panic [no_panic]: "parseGroups szs buf cfg off ios \<noteq> Panic"
  by (induction szs arbitrary: off ios) (auto simp: result_simps no_panic)

lemma parseVariableLoop_no_panic [no_panic]: "parseVariableLoop k buf cfg off ios \<noteq> Panic"
  by (induction k arbitrary: off ios) (auto simp: result_simps no_panic slice_simps Let_def)

lemma parseIOBlock_no_panic [no_panic]: "parseIOBlock buf off cfg \<noteq> Panic"
  by (auto simp: parseIOBlock_def result_simps no_panic)

lemma parseGPS_no_panic [no_panic]: "15 \<le> slen buf \<Longrightarrow> parseGPS buf \<noteq> Panic"
  by (simp add: parseGPS_def slice_simps Let_def)

lemma layoutForCodec_no_panic [no_panic]: "layoutForCodec c \<noteq> Panic"
  by (simp add: layoutForCodec_def)

lemma decodeRecord_panic: "decodeRecord buf c = Panic \<longleftrightarrow> 9 \<le> slen buf \<and> scap buf < 24"
proof (cases "9 \<le> slen buf \<and> 24 \<le> scap buf")
  case True
  then obtain gps where gps: "(reslice buf 9 24 :: (codec_error, _) result) = Ok gps"
    and len: "slen gps = 15"
    by (auto simp: reslice_def slen_def scap_def)
  have cap: "slen buf \<le> scap buf" by (simp add: slen_def scap_def)
  have "decodeRecord buf c \<noteq> Panic"
    using True len cap
    by (auto simp: decodeRecord_def result_simps slice_simps gps no_panic dest: offset_bounds)
  with True show ?thesis by auto
next
  case False
  then show ?thesis
    by (auto simp: decodeRecord_def slice_simps result_simps)
qed

section \<open>Only the visible bytes matter\<close>

text \<open>\<open>visible b\<close> is \<open>b\<close> without its spare capacity.\<close>

definition visible :: "'a slice \<Rightarrow> 'a slice" where
  "visible b = mk_slice (elems b)"

named_theorems visible_simps \<open>a guarded read sees the visible bytes only\<close>

lemma elems_visible [simp]: "elems (visible b) = elems b"
  by (simp add: visible_def)

lemma slen_visible [simp]: "slen (visible b) = slen b"
  by (simp add: slen_def)

lemma be_at_visible: "off + n \<le> slen b \<Longrightarrow> be_at n (visible b) off = be_at n b off"
  by (simp add: be_at_in_len)

lemma index_visible [visible_simps]: "index (visible b) i = index b i"
  by (simp add: index_def)

lemma readIOCount_visible [visible_simps]: "readIOCount (visible b) off w = readIOCount b off w"
  by (simp add: readIOCount_def index_visible be_at_visible)

lemma readIOID_visible [visible_simps]: "readIOID (visible b) off w = readIOID b off w"
  by (simp add: readIOID_def index_visible be_at_visible)

lemma readEventIOID_visible [visible_simps]:
  "readEventIOID (visible b) off cfg = readEventIOID b off cfg"
  by (simp add: readEventIOID_def index_visible be_at_visible)

lemma skipGeneration_visible [visible_simps]:
  "skipGeneration (visible b) off cfg = skipGeneration b off cfg"
  by (simp add: skipGeneration_def)

lemma readIOValue_visible:
  "off + sz \<le> slen b \<Longrightarrow> readIOValue (visible b) off sz = readIOValue b off sz"
  by (auto simp: readIOValue_def index_visible be_at_visible)

lemma variableValue_visible [visible_simps]:
  "variableValue k (visible b) p v = variableValue k b p v"
  by (induction k arbitrary: p v) (auto simp: index_visible)

lemma parseGroupLoop_visible [visible_simps]:
  "parseGroupLoop k (visible b) cfg sz off ios = parseGroupLoop k b cfg sz off ios"
  by (induction k arbitrary: off ios)
     (auto simp: visible_simps readIOValue_visible intro!: andThen_cong)

lemma parseGroups_visible [visible_simps]:
  "parseGroups szs (visible b) cfg off ios = parseGroups szs b cfg off ios"
  by (induction szs arbitrary: off ios) (auto simp: parseGroup_def visible_simps)

lemma parseVariableLoop_visible [visible_simps]:
  "parseVariableLoop k (visible b) cfg off ios = parseVariableLoop k b cfg off ios"
  by (induction k arbitrary: off ios)
     (auto simp: visible_simps be_at_visible Let_def intro!: andThen_cong)

lemma parseIOBlock_visible [visible_simps]:
  "parseIOBlock (visible b) off cfg = parseIOBlock b off cfg"
  by (simp add: parseIOBlock_def visible_simps del: parseGroups.simps cong: if_cong)

text \<open>
  A decoded record spans its fixed part and at least one byte of every field of the IO block,
  and its raw bytes are exactly the bytes it consumed.
\<close>

lemma decodeRecord_OkD:
  assumes "decodeRecord buf c = Ok (rec, n)"
  shows "24 < n" and "n \<le> slen buf" and "RawBytes rec = take n (elems buf)"
proof -
  obtain cfg ios raw where "parseIOBlock buf (9 + 15) cfg = Ok (ios, n)"
    and raw: "(reslice buf 0 n :: (codec_error, u8 slice) result) = Ok raw" "RawBytes rec = elems raw"
    using assms by (auto simp: decodeRecord_def result_simps split: if_splits)
  then show n: "24 < n" "n \<le> slen buf" by (auto dest: parseIOBlock_bounds)
  with raw show "RawBytes rec = take n (elems buf)" by (auto simp: reslice_in_len)
qed

lemma decodeRecord_visible:
  assumes "24 \<le> slen b"
  shows "decodeRecord (visible b) c = decodeRecord b c"
proof -
  let ?g = "\<lambda>sp. \<lparr>elems = take 15 (drop 9 (elems b)), spare = sp\<rparr>"
  have len: "slen (?g sp) = 15" for sp using assms by (simp add: slen_def)
  have gps: "parseGPS (?g sp) = parseGPS (visible (?g sp))" for sp
    by (simp add: parseGPS_def index_visible be_at_visible len)
  have vis: "visible (?g sp) = mk_slice (take 15 (drop 9 (elems b)))" for sp
    by (simp add: visible_def)
  show ?thesis
  proof (cases "layoutForCodec c")
    case (Ok cfg)
    show ?thesis
    proof (cases "parseIOBlock b 24 cfg")
      case (Ok io)
      then obtain ios off where io: "parseIOBlock b 24 cfg = Ok (ios, off)" by (cases io) auto
      then have "off \<le> slen b" by (auto dest: parseIOBlock_bounds)
      with io \<open>layoutForCodec c = Ok cfg\<close> assms show ?thesis
        by (simp add: decodeRecord_def reslice_in_len be_at_visible index_visible visible_simps
              gps vis)
    qed (use assms Ok in \<open>simp_all add: decodeRecord_def reslice_in_len be_at_visible
           index_visible visible_simps gps vis\<close>)
  qed (use assms in \<open>simp_all add: decodeRecord_def reslice_in_len be_at_visible
         index_visible visible_simps gps vis\<close>)
qed

section \<open>The packet\<close>

text \<open>The records are contiguous: their raw bytes concatenated are the bytes consumed.\<close>

lemma parseRecords_OkD:
  assumes "parseRecords k i payload c e off recs = Ok (recs', off')"
    and "off \<le> e" and "e \<le> slen payload"
  shows "\<exists>new. recs' = recs @ new \<and> length new = k \<and> off \<le> off' \<and> off' \<le> e \<and>
           concat (map RawBytes new) = take (off' - off) (drop off (elems payload))"
  using assms
proof (induction k arbitrary: i off recs)
  case (Suc k)
  let ?buf = "\<lparr>elems = take (e - off) (drop off (elems payload)),
               spare = drop e (elems payload) @ spare payload\<rparr>"
  have lt: "off < e" using Suc.prems by (auto split: if_splits)
  with Suc.prems obtain rec n where rec: "decodeRecord ?buf c = Ok (rec, n)"
    and rest: "parseRecords k (i + 1) payload c e (off + n) (recs @ [rec]) = Ok (recs', off')"
    by (auto simp: reslice_in_len result_simps)
  have len: "slen ?buf = e - off" using lt Suc.prems(3) by (auto simp: slen_def)
  have n: "n \<le> e - off" "RawBytes rec = take n (drop off (elems payload))"
    using decodeRecord_OkD [OF rec] len by (auto simp: min_def)
  have le: "off + n \<le> e" using n(1) lt by arith
  from Suc.IH [OF rest le Suc.prems(3)] obtain new where new: "recs' = (recs @ [rec]) @ new" "length new = k"
    "off + n \<le> off'" "off' \<le> e"
    "concat (map RawBytes new) = take (off' - (off + n)) (drop (off + n) (elems payload))"
    by auto
  have "concat (map RawBytes (rec # new)) = take n (drop off (elems payload)) @
        take (off' - (off + n)) (drop n (drop off (elems payload)))"
    using n new by (simp add: add.commute)
  also have "\<dots> = take (n + (off' - (off + n))) (drop off (elems payload))"
    by (simp only: take_add)
  also have "n + (off' - (off + n)) = off' - off" using new(3) by arith
  finally show ?case using new by (intro exI [of _ "rec # new"]) auto
qed auto

lemma decodeRecord_same:
  assumes "decodeRecord b c = Ok r" and "elems b' = elems b"
  shows "decodeRecord b' c = Ok r"
proof -
  obtain rec n where "r = (rec, n)" by (cases r)
  with assms(1) have "24 \<le> slen b" using decodeRecord_OkD(1,2) by fastforce
  moreover have "slen b' = slen b" "visible b' = visible b"
    by (simp_all add: slen_def visible_def assms(2))
  ultimately show ?thesis using assms(1) decodeRecord_visible by metis
qed

lemma parseRecords_same:
  assumes "parseRecords k i p c e off recs = Ok r" and "e \<le> slen p" and "elems p' = elems p"
  shows "parseRecords k i p' c e off recs = Ok r"
  using assms(1,2)
proof (induction k arbitrary: i off recs)
  case (Suc k)
  let ?buf = "\<lambda>sp. \<lparr>elems = take (e - off) (drop off (elems p)), spare = drop e (elems p) @ sp\<rparr>"
  have lt: "off < e" using Suc.prems by (auto split: if_splits)
  have sub: "reslice p off e = Ok (?buf (spare p))" "reslice p' off e = Ok (?buf (spare p'))"
    using lt Suc.prems(2) assms(3) by (auto simp: reslice_in_len slen_def)
  obtain rec n where rec: "decodeRecord (?buf (spare p)) c = Ok (rec, n)"
    and rest: "parseRecords k (i + 1) p c e (off + n) (recs @ [rec]) = Ok r"
    using Suc.prems lt by (auto simp: reslice_in_len result_simps)
  have "decodeRecord (?buf (spare p')) c = Ok (rec, n)"
    using rec by (rule decodeRecord_same) simp
  moreover have "parseRecords k (i + 1) p' c e (off + n) (recs @ [rec]) = Ok r"
    using rest Suc.prems(2) by (rule Suc.IH)
  ultimately show ?case using lt Suc.prems(2) by (simp add: sub)
qed simp

lemma parseRecords_no_panic:
  assumes "e \<le> slen p" and "e + 15 \<le> scap p"
  shows "parseRecords k i p c e off recs \<noteq> Panic"
  using assms
proof (induction k arbitrary: i off recs)
  case (Suc k)
  then show ?case
    by (auto simp: result_simps decodeRecord_panic reslice_in_len slen_def scap_def)
qed simp

text \<open>The packet function with its guarded reads replaced by list operations.\<close>

definition dataFieldLen :: "u8 slice \<Rightarrow> u32" where
  "dataFieldLen data = be_word (take 4 (drop 4 (elems data)))"

definition packetPayload :: "u8 slice \<Rightarrow> u8 slice" where
  "packetPayload data = (let n = unat (dataFieldLen data) in
     \<lparr>elems = take n (drop 8 (elems data)), spare = drop (8 + n) (elems data) @ spare data\<rparr>)"

definition receivedCRC :: "u8 slice \<Rightarrow> u32" where
  "receivedCRC data = be_word (take 4 (drop (8 + unat (dataFieldLen data)) (elems data)))"

definition decodePayload :: "u8 slice \<Rightarrow> (packet_error, u8 \<times> Record list) result" where
  "decodePayload payload =
     (let xs = elems payload; e = slen payload - 1; n = unat (xs ! 1) in
      if slen payload < 3 then Err (0, [], PayloadTooShort)
      else if n \<noteq> unat (xs ! e) then Err (0, [], RecordCountMismatch n (unat (xs ! e)))
      else andThen (parseRecords n 0 payload (xs ! 0) e 2 []) (\<lambda>(records, off).
        if off \<noteq> e then Err (xs ! 0, records, TrailingBytes)
        else if length records \<noteq> n then Err (xs ! 0, records, ParsedRecords (length records) n)
        else Ok (xs ! 0, records)))"

definition framed :: "u8 slice \<Rightarrow> bool" where
  "framed data \<longleftrightarrow> 12 \<le> slen data \<and> (\<forall>i < 4. elems data ! i = 0) \<and>
     0 < unat (dataFieldLen data) \<and> unat (dataFieldLen data) \<le> 2048 \<and>
     12 + unat (dataFieldLen data) \<le> slen data"

lemma unat_add_small: "unat (n :: u32) \<le> 2048 \<Longrightarrow> k < 1000 \<Longrightarrow> unat (word_of_nat k + n) = k + unat n"
  by (simp add: unat_word_ariths unat_of_nat)

lemma framed_all4: "(\<forall>i < 4. xs ! i = (0 :: u8)) \<longleftrightarrow> xs ! 0 OR xs ! 1 OR xs ! 2 OR xs ! 3 = 0"
  by (auto simp: eval_nat_numeral less_Suc_eq or_eq_0_iff)

lemma word_le_2048: "unat (n :: u32) \<le> 2048 \<longleftrightarrow> n \<le> 2048"
  by (simp add: word_le_nat_alt)

lemma ParsePacket_framed:
  assumes "framed data"
  shows "ParsePacket data =
    (if receivedCRC data \<noteq> ucast (CRC16IBM (elems (packetPayload data)))
     then Err (0, [], CRCMismatch (receivedCRC data) (ucast (CRC16IBM (elems (packetPayload data)))))
     else decodePayload (packetPayload data))"
proof -
  let ?n = "dataFieldLen data"
  have len: "12 \<le> slen data" "12 + unat ?n \<le> slen data" "unat ?n \<le> 2048" "?n \<noteq> 0" "\<not> 2048 < ?n"
    using assms by (auto simp: framed_def word_le_2048 not_less)
  have pre: "elems data ! 0 OR elems data ! 1 OR elems data ! 2 OR elems data ! 3 = 0"
    using assms by (simp only: framed_def framed_all4)
  have rd: "be_at 4 data 4 = Ok ?n"
    using len by (simp add: be_at_in_len dataFieldLen_def)
  have u: "unat (8 + ?n) = 8 + unat ?n" "unat (12 + ?n) = 12 + unat ?n"
    using unat_add_small [of ?n 8] unat_add_small [of ?n 12] len by (simp_all add: add.commute)
  have pay: "reslice data 8 (8 + unat ?n) = Ok (packetPayload data)"
    using len by (simp add: reslice_in_len packetPayload_def Let_def)
  have crc: "reslice data (8 + unat ?n) (12 + unat ?n) =
      Ok \<lparr>elems = take 4 (drop (8 + unat ?n) (elems data)),
          spare = drop (12 + unat ?n) (elems data) @ spare data\<rparr>"
    using len by (simp add: reslice_in_len)
  have plen: "slen (packetPayload data) = unat ?n"
    using len by (simp add: packetPayload_def Let_def slen_def)
  have "ParsePacket data =
    (if receivedCRC data \<noteq> ucast (CRC16IBM (elems (packetPayload data)))
     then Err (0, [], CRCMismatch (receivedCRC data) (ucast (CRC16IBM (elems (packetPayload data)))))
     else if slen (packetPayload data) < 3 then Err (0, [], PayloadTooShort)
     else decodePayload (packetPayload data))"
    using len
    by (simp add: ParsePacket_def index_in_len pre [simplified] rd maxDataFieldLength_def u pay crc
          receivedCRC_def decodePayload_def plen Let_def not_le cong: if_cong)
  then show ?thesis by (simp add: decodePayload_def Let_def)
qed

lemma ParsePacket_not_framed:
  assumes "\<not> framed data"
  shows "\<exists>e. ParsePacket data = Err (0, [], e)"
proof (cases "12 \<le> slen data")
  case len: True
  have rd: "be_at 4 data 4 = Ok (dataFieldLen data)"
    using len by (simp add: be_at_in_len dataFieldLen_def)
  consider "elems data ! 0 OR elems data ! 1 OR elems data ! 2 OR elems data ! 3 \<noteq> 0"
    | "dataFieldLen data = 0 \<or> 2048 < dataFieldLen data"
    | "slen data < 12 + unat (dataFieldLen data)"
    using assms len
    by (auto simp: framed_def framed_all4 word_le_2048 not_le unat_gt_0)
  then show ?thesis
    using len by cases (auto simp: ParsePacket_def index_in_len rd maxDataFieldLength_def)
qed (simp add: ParsePacket_def)

lemma slen_packetPayload: "framed data \<Longrightarrow> slen (packetPayload data) = unat (dataFieldLen data)"
  by (auto simp: packetPayload_def Let_def slen_def framed_def)

lemma decodePayload_OkD:
  assumes "decodePayload p = Ok (c, recs)"
  shows "3 \<le> slen p" and "c = elems p ! 0" and "length recs = unat (elems p ! 1)"
    and "elems p ! (slen p - 1) = elems p ! 1"
    and "concat (map RawBytes recs) = take (slen p - 3) (drop 2 (elems p))"
proof -
  from assms have len: "3 \<le> slen p" by (auto simp: decodePayload_def Let_def split: if_splits)
  with assms have "unat (elems p ! 1) = unat (elems p ! (slen p - 1))" and c: "c = elems p ! 0"
    and pr: "parseRecords (unat (elems p ! 1)) 0 p (elems p ! 0) (slen p - 1) 2 [] = Ok (recs, slen p - 1)"
    by (auto simp: decodePayload_def Let_def result_simps split: if_splits)
  then show "elems p ! (slen p - 1) = elems p ! 1"
    by (metis word_unat_eq_iff)
  from parseRecords_OkD [OF pr] len
  show "length recs = unat (elems p ! 1)"
    and "concat (map RawBytes recs) = take (slen p - 3) (drop 2 (elems p))"
    by (auto simp: numeral_3_eq_3)
  show "3 \<le> slen p" "c = elems p ! 0" by (fact len c)+
qed

lemma ParsePacket_OkD:
  assumes "ParsePacket data = Ok (c, recs)"
  shows "framed data"
    and "receivedCRC data = ucast (CRC16IBM (elems (packetPayload data)))"
    and "decodePayload (packetPayload data) = Ok (c, recs)"
proof -
  show f: "framed data" using assms ParsePacket_not_framed [of data] by auto
  show "receivedCRC data = ucast (CRC16IBM (elems (packetPayload data)))"
    and "decodePayload (packetPayload data) = Ok (c, recs)"
    using assms by (auto simp: ParsePacket_framed [OF f] split: if_splits)
qed

lemma decodePayload_same:
  assumes "decodePayload p = Ok r" and "elems p' = elems p"
  shows "decodePayload p' = Ok r"
proof -
  have len: "slen p' = slen p" by (simp add: slen_def assms(2))
  show ?thesis
    using assms(1)
    by (auto simp: decodePayload_def Let_def result_simps len assms(2) split: if_splits
        dest: parseRecords_same [OF _ _ assms(2)])
qed

end
