(* ===== verification/Teltonika_Encoder.thy ===== *)
theory Teltonika_Encoder
  imports Codec_Safety
begin

text \<open>
  A reference encoder for the AVL packet format, written from the format and not from the
  decoder, and the theorem that the decoder inverts it for all three codecs.
\<close>

section \<open>The encoder\<close>

record avl_record =
  a_timestamp :: u64
  a_priority :: u8
  a_lon :: u32
  a_lat :: u32
  a_altitude :: u16
  a_angle :: u16
  a_satellites :: u8
  a_speed :: u16
  a_event :: u16
  a_generation :: u8
  a_total :: u16
  a_io1 :: "(u16 \<times> u64) list"
  a_io2 :: "(u16 \<times> u64) list"
  a_io4 :: "(u16 \<times> u64) list"
  a_io8 :: "(u16 \<times> u64) list"
  a_iox :: "(u16 \<times> u8 list) list"

definition enc_pairs :: "nat \<Rightarrow> nat \<Rightarrow> (u16 \<times> u64) list \<Rightarrow> u8 list" where
  "enc_pairs iw sz ps = concat (map (\<lambda>(i, v). word_be iw i @ word_be sz v) ps)"

definition enc_count :: "nat \<Rightarrow> nat \<Rightarrow> u8 list" where
  "enc_count cw n = word_be cw (word_of_nat n :: u16)"

definition enc_group :: "ioLayout \<Rightarrow> nat \<Rightarrow> (u16 \<times> u64) list \<Rightarrow> u8 list" where
  "enc_group cfg sz ps = enc_count (countWidth cfg) (length ps) @ enc_pairs (idWidth cfg) sz ps"

definition enc_xpairs :: "nat \<Rightarrow> (u16 \<times> u8 list) list \<Rightarrow> u8 list" where
  "enc_xpairs iw xs =
     concat (map (\<lambda>(i, bs). word_be iw i @ enc_count 2 (length bs) @ bs) xs)"

definition enc_io :: "ioLayout \<Rightarrow> avl_record \<Rightarrow> u8 list" where
  "enc_io cfg a =
     word_be (eventIDWidth cfg) (a_event a) @
     (if hasGeneration cfg then [a_generation a] else []) @
     word_be (countWidth cfg) (a_total a) @
     enc_group cfg 1 (a_io1 a) @ enc_group cfg 2 (a_io2 a) @
     enc_group cfg 4 (a_io4 a) @ enc_group cfg 8 (a_io8 a) @
     (if hasVariableIO cfg
      then enc_count (countWidth cfg) (length (a_iox a)) @ enc_xpairs (idWidth cfg) (a_iox a)
      else [])"

definition enc_gps :: "avl_record \<Rightarrow> u8 list" where
  "enc_gps a = word_be 4 (a_lon a) @ word_be 4 (a_lat a) @ word_be 2 (a_altitude a) @
     word_be 2 (a_angle a) @ [a_satellites a] @ word_be 2 (a_speed a)"

definition enc_record :: "ioLayout \<Rightarrow> avl_record \<Rightarrow> u8 list" where
  "enc_record cfg a = word_be 8 (a_timestamp a) @ [a_priority a] @ enc_gps a @ enc_io cfg a"

definition enc_frame :: "u8 list \<Rightarrow> u8 list" where
  "enc_frame payload =
     [0, 0, 0, 0] @ word_be 4 (word_of_nat (length payload) :: u32) @ payload @
     word_be 4 (ucast (CRC16IBM payload) :: u32)"

definition enc_packet :: "u8 \<Rightarrow> ioLayout \<Rightarrow> avl_record list \<Rightarrow> u8 list" where
  "enc_packet c cfg as =
     enc_frame ([c, word_of_nat (length as)] @ concat (map (enc_record cfg) as) @
                [word_of_nat (length as)])"

section \<open>What the decoder should return\<close>

definition upd_all :: "(u16 \<rightharpoonup> u64) \<Rightarrow> (u16 \<times> u64) list \<Rightarrow> (u16 \<rightharpoonup> u64)" where
  "upd_all m ps = foldl (\<lambda>m (i, v). m(i \<mapsto> v)) m ps"

definition io_elements :: "ioLayout \<Rightarrow> avl_record \<Rightarrow> (u16 \<times> u64) list" where
  "io_elements cfg a = a_io1 a @ a_io2 a @ a_io4 a @ a_io8 a @
     (if hasVariableIO cfg then map (\<lambda>(i, bs). (i, be_word (take 8 bs))) (a_iox a) else [])"

definition degrees7 :: "u32 \<Rightarrow> float64" where
  "degrees7 w = f_div (f_of_int (sint w)) (Fin False 10000000)"

definition record_of :: "ioLayout \<Rightarrow> avl_record \<Rightarrow> Record" where
  "record_of cfg a = zeroRecord\<lparr>TimestampMs := a_timestamp a, Priority := a_priority a,
     Lat := degrees7 (a_lat a), Lon := degrees7 (a_lon a), Altitude := a_altitude a,
     Angle := a_angle a, Speed_avl := a_speed a, Satellites := a_satellites a,
     IOs := upd_all Map.empty (io_elements cfg a), RawBytes := enc_record cfg a\<rparr>"

definition fits_pairs :: "ioLayout \<Rightarrow> nat \<Rightarrow> (u16 \<times> u64) list \<Rightarrow> bool" where
  "fits_pairs cfg sz ps \<longleftrightarrow> length ps < 2 ^ (8 * countWidth cfg) \<and>
     list_all (\<lambda>(i, v). unat i < 2 ^ (8 * idWidth cfg) \<and> unat v < 2 ^ (8 * sz)) ps"

definition fits_record :: "ioLayout \<Rightarrow> avl_record \<Rightarrow> bool" where
  "fits_record cfg a \<longleftrightarrow>
     unat (a_event a) < 2 ^ (8 * eventIDWidth cfg) \<and>
     unat (a_total a) < 2 ^ (8 * countWidth cfg) \<and>
     fits_pairs cfg 1 (a_io1 a) \<and> fits_pairs cfg 2 (a_io2 a) \<and>
     fits_pairs cfg 4 (a_io4 a) \<and> fits_pairs cfg 8 (a_io8 a) \<and>
     length (a_iox a) < 2 ^ (8 * countWidth cfg) \<and>
     list_all (\<lambda>(i, bs). unat i < 2 ^ (8 * idWidth cfg) \<and> length bs < 65536) (a_iox a)"

section \<open>Reading back one field\<close>

lemma upd_all_simps [simp]:
  "upd_all m [] = m" "upd_all m ((i, v) # ps) = upd_all (m(i \<mapsto> v)) ps"
  "upd_all m (ps @ qs) = upd_all (upd_all m ps) qs"
  by (simp_all add: upd_all_def)

lemma index_enc: "elems buf = pre @ b # post \<Longrightarrow> index buf (length pre) = Ok b"
  by (simp add: index_def slen_def)

lemma be_at_enc:
  "elems buf = pre @ bs @ post \<Longrightarrow> length bs = n \<Longrightarrow> be_at n buf (length pre) = Ok (be_word bs)"
  by (simp add: be_at_in_len slen_def)

lemma word_be_1 [simp]: "word_be (Suc 0) w = [ucast w]"
  by simp

lemma readIOCount_enc:
  assumes "elems buf = pre @ word_be w x @ post" and "w = 1 \<or> w = 2" and "unat x < 2 ^ (8 * w)"
  shows "readIOCount buf (length pre) w = Ok (x, length pre + w)"
  using assms(2-)
  by (auto simp: readIOCount_def slen_def assms(1) index_enc
        be_at_enc [OF assms(1)] be_word_round_trip ucast_ucast_small)

lemma readIOID_enc:
  assumes "elems buf = pre @ word_be w x @ post" and "w = 1 \<or> w = 2" and "unat x < 2 ^ (8 * w)"
  shows "readIOID buf (length pre) w = Ok (x, length pre + w)"
  using assms(2-)
  by (auto simp: readIOID_def slen_def assms(1) index_enc
        be_at_enc [OF assms(1)] be_word_round_trip ucast_ucast_small)

lemma readEventIOID_enc:
  assumes "elems buf = pre @ word_be w x @ post" and "w = 1 \<or> w = 2" and "unat x < 2 ^ (8 * w)"
    and "eventIDWidth cfg = w"
  shows "readEventIOID buf (length pre) cfg = Ok (x, length pre + w)"
  using assms(2-)
  by (auto simp: readEventIOID_def slen_def assms(1) index_enc
        be_at_enc [OF assms(1)] be_word_round_trip ucast_ucast_small)

lemma readIOValue_enc:
  assumes "elems buf = pre @ word_be sz v @ post" and "sz \<in> {1, 2, 4, 8}" and "unat v < 2 ^ (8 * sz)"
  shows "readIOValue buf (length pre) sz = Ok v"
  using assms(2-)
  by (auto simp: readIOValue_def assms(1) index_enc be_at_enc [OF assms(1)] be_word_word_be
        ucast_ucast_small)

lemma variableValue_enc:
  "elems buf = pre @ bs @ post \<Longrightarrow>
   variableValue (length bs) buf (length pre) v = Ok (foldl (\<lambda>acc b. push_bit 8 acc OR ucast b) v bs)"
proof (induction bs arbitrary: pre v)
  case (Cons b bs)
  then have "elems buf = (pre @ [b]) @ bs @ post" by simp
  from Cons.IH [OF this] Cons.prems show ?case by (simp add: index_enc)
qed simp

section \<open>Reading back the IO block\<close>

lemma parseGroupLoop_enc:
  assumes "elems buf = pre @ enc_pairs (idWidth cfg) sz ps @ post"
    and "idWidth cfg = 1 \<or> idWidth cfg = 2" and "sz \<in> {1, 2, 4, 8}"
    and "list_all (\<lambda>(i, v). unat i < 2 ^ (8 * idWidth cfg) \<and> unat v < 2 ^ (8 * sz)) ps"
  shows "parseGroupLoop (length ps) buf cfg sz (length pre) ios =
    Ok (upd_all ios ps, length pre + length (enc_pairs (idWidth cfg) sz ps))"
  using assms
proof (induction ps arbitrary: pre ios)
  case (Cons p ps)
  obtain i v where p: "p = (i, v)" by (cases p)
  let ?w = "idWidth cfg"
  have ep: "enc_pairs ?w sz ((i, v) # ps) = word_be ?w i @ word_be sz v @ enc_pairs ?w sz ps"
    by (simp add: enc_pairs_def)
  have e1: "elems buf = pre @ word_be ?w i @ (word_be sz v @ enc_pairs ?w sz ps @ post)"
    and e2: "elems buf = (pre @ word_be ?w i) @ word_be sz v @ (enc_pairs ?w sz ps @ post)"
    and e3: "elems buf = (pre @ word_be ?w i @ word_be sz v) @ enc_pairs ?w sz ps @ post"
    using Cons.prems(1) by (simp_all add: ep p)
  have fits: "unat i < 2 ^ (8 * ?w)" "unat v < 2 ^ (8 * sz)"
    "list_all (\<lambda>(i, v). unat i < 2 ^ (8 * ?w) \<and> unat v < 2 ^ (8 * sz)) ps"
    using Cons.prems(4) by (simp_all add: p)
  have r1: "readIOID buf (length pre) ?w = Ok (i, length pre + ?w)"
    by (rule readIOID_enc [OF e1 Cons.prems(2) fits(1)])
  have r2: "readIOValue buf (length pre + ?w) sz = Ok v"
    using readIOValue_enc [OF e2 Cons.prems(3) fits(2)] by simp
  have r3: "length pre + ?w + sz \<le> slen buf"
    by (simp add: slen_def e1)
  show ?case
    using Cons.IH [OF e3 Cons.prems(2,3) fits(3)] r3
    by (simp add: r1 r2 p ep add.assoc fun_upd_def)
qed (simp add: enc_pairs_def)

lemma parseGroup_enc:
  assumes "elems buf = pre @ enc_group cfg sz ps @ post"
    and "idWidth cfg = 1 \<or> idWidth cfg = 2" and "countWidth cfg = 1 \<or> countWidth cfg = 2"
    and "sz \<in> {1, 2, 4, 8}" and "fits_pairs cfg sz ps"
  shows "parseGroup buf cfg sz (length pre) ios =
    Ok (upd_all ios ps, length pre + length (enc_group cfg sz ps))"
proof -
  let ?n = "word_of_nat (length ps) :: u16"
  have small: "length ps < 65536" using assms(3,5) by (auto simp: fits_pairs_def)
  then have n: "unat ?n = length ps" by (simp add: unat_of_nat)
  have e1: "elems buf = pre @ word_be (countWidth cfg) ?n @ (enc_pairs (idWidth cfg) sz ps @ post)"
    and e2: "elems buf = (pre @ word_be (countWidth cfg) ?n) @ enc_pairs (idWidth cfg) sz ps @ post"
    using assms(1) by (simp_all add: enc_group_def enc_count_def)
  have "readIOCount buf (length pre) (countWidth cfg) = Ok (?n, length pre + countWidth cfg)"
    using readIOCount_enc [OF e1 assms(3)] assms(5) by (simp add: n fits_pairs_def)
  moreover have "parseGroupLoop (length ps) buf cfg sz (length pre + countWidth cfg) ios =
      Ok (upd_all ios ps, length pre + countWidth cfg + length (enc_pairs (idWidth cfg) sz ps))"
    using parseGroupLoop_enc [OF e2 assms(2,4)] assms(5) by (simp add: fits_pairs_def)
  ultimately show ?thesis
    by (simp add: parseGroup_def n enc_group_def enc_count_def)
qed

lemma parseVariableLoop_enc:
  assumes "elems buf = pre @ enc_xpairs (idWidth cfg) xs @ post"
    and "idWidth cfg = 1 \<or> idWidth cfg = 2"
    and "list_all (\<lambda>(i, bs). unat i < 2 ^ (8 * idWidth cfg) \<and> length bs < 65536) xs"
  shows "parseVariableLoop (length xs) buf cfg (length pre) ios =
    Ok (upd_all ios (map (\<lambda>(i, bs). (i, be_word (take 8 bs))) xs),
        length pre + length (enc_xpairs (idWidth cfg) xs))"
  using assms
proof (induction xs arbitrary: pre ios)
  case (Cons x xs)
  obtain i bs where x: "x = (i, bs)" by (cases x)
  let ?w = "idWidth cfg" and ?n = "word_of_nat (length bs) :: u16"
  have n: "unat ?n = length bs" using Cons.prems(3) by (simp add: x unat_of_nat)
  have ep: "enc_xpairs ?w ((i, bs) # xs) = word_be ?w i @ word_be 2 ?n @ bs @ enc_xpairs ?w xs"
    by (simp add: enc_xpairs_def enc_count_def)
  have e1: "elems buf = pre @ word_be ?w i @ (word_be 2 ?n @ bs @ enc_xpairs ?w xs @ post)"
    and e2: "elems buf = (pre @ word_be ?w i) @ word_be 2 ?n @ (bs @ enc_xpairs ?w xs @ post)"
    and e3: "elems buf = (pre @ word_be ?w i @ word_be 2 ?n) @ take 8 bs @ (drop 8 bs @ enc_xpairs ?w xs @ post)"
    and e4: "elems buf = (pre @ word_be ?w i @ word_be 2 ?n @ bs) @ enc_xpairs ?w xs @ post"
    using Cons.prems(1) by (simp_all add: ep x)
  have fits: "unat i < 2 ^ (8 * ?w)"
    "list_all (\<lambda>(i, bs). unat i < 2 ^ (8 * ?w) \<and> length bs < 65536) xs"
    using Cons.prems(3) by (simp_all add: x)
  have r1: "readIOID buf (length pre) ?w = Ok (i, length pre + ?w)"
    by (rule readIOID_enc [OF e1 Cons.prems(2) fits(1)])
  have r2: "be_at 2 buf (length pre + ?w) = Ok ?n"
    by (simp add: be_at_enc [OF e2, of 2, simplified] be_word_round_trip)
  have r3: "variableValue (min (length bs) 8) buf (length pre + ?w + 2) 0 = Ok (be_word (take 8 bs))"
    using variableValue_enc [OF e3, of 0] by (simp add: be_word_def min.commute add.assoc)
  have r4: "length pre + ?w + 2 + length bs \<le> slen buf"
    by (simp add: slen_def e1)
  show ?case
    using Cons.IH [OF e4 Cons.prems(2) fits(2)] r3 r4
    by (simp add: r1 r2 x ep n Let_def add.assoc fun_upd_def)
qed (simp add: enc_xpairs_def)

section \<open>Reading back a record\<close>

lemma layout_widths:
  assumes "layoutForCodec c = Ok cfg"
  shows "eventIDWidth cfg = 1 \<or> eventIDWidth cfg = 2" "countWidth cfg = 1 \<or> countWidth cfg = 2"
    "idWidth cfg = 1 \<or> idWidth cfg = 2"
  using assms by (auto simp: layoutForCodec_def split: if_splits)

lemma parseGroups_enc:
  assumes "elems buf = pre @ (enc_group cfg 1 g1 @ enc_group cfg 2 g2 @ enc_group cfg 4 g4 @
      enc_group cfg 8 g8) @ post"
    and "idWidth cfg = 1 \<or> idWidth cfg = 2" and "countWidth cfg = 1 \<or> countWidth cfg = 2"
    and "fits_pairs cfg 1 g1" "fits_pairs cfg 2 g2" "fits_pairs cfg 4 g4" "fits_pairs cfg 8 g8"
  shows "parseGroups [1, 2, 4, 8] buf cfg (length pre) ios =
    Ok (upd_all ios (g1 @ g2 @ g4 @ g8),
        length pre + length (enc_group cfg 1 g1 @ enc_group cfg 2 g2 @ enc_group cfg 4 g4 @
          enc_group cfg 8 g8))"
proof -
  let ?e1 = "enc_group cfg 1 g1" and ?e2 = "enc_group cfg 2 g2" and ?e4 = "enc_group cfg 4 g4"
    and ?e8 = "enc_group cfg 8 g8"
  have b1: "elems buf = pre @ ?e1 @ (?e2 @ ?e4 @ ?e8 @ post)"
    and b2: "elems buf = (pre @ ?e1) @ ?e2 @ (?e4 @ ?e8 @ post)"
    and b4: "elems buf = (pre @ ?e1 @ ?e2) @ ?e4 @ (?e8 @ post)"
    and b8: "elems buf = (pre @ ?e1 @ ?e2 @ ?e4) @ ?e8 @ post"
    using assms(1) by simp_all
  show ?thesis
    using parseGroup_enc [OF b1 assms(2,3) _ assms(4)] parseGroup_enc [OF b2 assms(2,3) _ assms(5)]
      parseGroup_enc [OF b4 assms(2,3) _ assms(6)] parseGroup_enc [OF b8 assms(2,3) _ assms(7)]
    by (simp add: add.assoc)
qed

lemma parseIOBlock_enc:
  assumes "elems buf = pre @ enc_io cfg a @ post" and "layoutForCodec c = Ok cfg"
    and "fits_record cfg a"
  shows "parseIOBlock buf (length pre) cfg =
    Ok (upd_all Map.empty (io_elements cfg a), length pre + length (enc_io cfg a))"
proof -
  note w = layout_widths [OF assms(2)]
  note fits = assms(3) [unfolded fits_record_def]
  let ?ev = "word_be (eventIDWidth cfg) (a_event a)"
  let ?gen = "if hasGeneration cfg then [a_generation a] else []"
  let ?tot = "word_be (countWidth cfg) (a_total a)"
  let ?gs = "enc_group cfg 1 (a_io1 a) @ enc_group cfg 2 (a_io2 a) @ enc_group cfg 4 (a_io4 a) @
    enc_group cfg 8 (a_io8 a)"
  let ?x = "if hasVariableIO cfg then enc_count (countWidth cfg) (length (a_iox a)) @
    enc_xpairs (idWidth cfg) (a_iox a) else []"
  let ?n = "word_of_nat (length (a_iox a)) :: u16"
  have b1: "elems buf = pre @ ?ev @ (?gen @ ?tot @ ?gs @ ?x @ post)"
    and b2: "elems buf = (pre @ ?ev) @ ?gen @ (?tot @ ?gs @ ?x @ post)"
    and b3: "elems buf = (pre @ ?ev @ ?gen) @ ?tot @ (?gs @ ?x @ post)"
    and b4: "elems buf = (pre @ ?ev @ ?gen @ ?tot) @ ?gs @ (?x @ post)"
    and b5: "elems buf = (pre @ ?ev @ ?gen @ ?tot @ ?gs) @ ?x @ post"
    using assms(1) by (simp_all add: enc_io_def)
  have r1: "readEventIOID buf (length pre) cfg = Ok (a_event a, length pre + eventIDWidth cfg)"
    using readEventIOID_enc [OF b1 w(1) _ refl] fits by simp
  have r2: "skipGeneration buf (length pre + eventIDWidth cfg) cfg =
      Ok (length pre + eventIDWidth cfg + length ?gen)"
    using b2 by (simp add: skipGeneration_def slen_def)
  have r3: "readIOCount buf (length pre + eventIDWidth cfg + length ?gen) (countWidth cfg) =
      Ok (a_total a, length pre + eventIDWidth cfg + length ?gen + countWidth cfg)"
    using readIOCount_enc [OF b3 w(2)] fits by (simp add: add.assoc)
  have r4: "parseGroups [1, 2, 4, 8] buf cfg
        (length pre + eventIDWidth cfg + length ?gen + countWidth cfg) Map.empty =
      Ok (upd_all Map.empty (a_io1 a @ a_io2 a @ a_io4 a @ a_io8 a),
          length pre + eventIDWidth cfg + length ?gen + countWidth cfg + length ?gs)"
    using parseGroups_enc [OF b4 w(3,2)] fits
    by (simp only: length_append length_word_be add.assoc simp_thms)
  have len: "length (enc_io cfg a) = eventIDWidth cfg + length ?gen + countWidth cfg + length ?gs + length ?x"
    by (simp add: enc_io_def)
  show ?thesis
  proof (cases "hasVariableIO cfg")
    case False
    then show ?thesis
      using r1 r2 r3 r4 len
      by (simp add: parseIOBlock_def io_elements_def add.assoc del: parseGroups.simps)
  next
    case True
    have n: "unat ?n = length (a_iox a)"
      using fits w(2) by (auto simp: unat_of_nat)
    have b6: "elems buf = (pre @ ?ev @ ?gen @ ?tot @ ?gs) @ word_be (countWidth cfg) ?n @
        (enc_xpairs (idWidth cfg) (a_iox a) @ post)"
      and b7: "elems buf = (pre @ ?ev @ ?gen @ ?tot @ ?gs @ word_be (countWidth cfg) ?n) @
        enc_xpairs (idWidth cfg) (a_iox a) @ post"
      using b5 True by (simp_all add: enc_count_def)
    have r5: "readIOCount buf
          (length pre + eventIDWidth cfg + length ?gen + countWidth cfg + length ?gs) (countWidth cfg) =
        Ok (?n, length pre + eventIDWidth cfg + length ?gen + countWidth cfg + length ?gs + countWidth cfg)"
      using readIOCount_enc [OF b6 w(2)] fits n by (simp add: add.assoc)
    have r6: "parseVariableLoop (length (a_iox a)) buf cfg
          (length pre + eventIDWidth cfg + length ?gen + countWidth cfg + length ?gs + countWidth cfg)
          (upd_all Map.empty (a_io1 a @ a_io2 a @ a_io4 a @ a_io8 a)) =
        Ok (upd_all Map.empty (io_elements cfg a), length pre + length (enc_io cfg a))"
      using parseVariableLoop_enc [OF b7 w(3)] fits True len
      by (simp add: add.assoc io_elements_def enc_count_def)
    show ?thesis
      using r1 r2 r3 r4 r5 r6 True
      by (simp add: parseIOBlock_def n del: parseGroups.simps)
  qed
qed

lemma length_enc_gps [simp]: "length (enc_gps a) = 15"
  by (simp add: enc_gps_def)

lemma parseGPS_enc:
  assumes "elems buf = enc_gps a"
  shows "parseGPS buf = Ok (degrees7 (a_lat a), degrees7 (a_lon a), a_altitude a, a_angle a,
    a_speed a, a_satellites a)"
proof -
  let ?lon = "word_be 4 (a_lon a)" and ?lat = "word_be 4 (a_lat a)"
    and ?alt = "word_be 2 (a_altitude a)" and ?ang = "word_be 2 (a_angle a)"
    and ?spd = "word_be 2 (a_speed a)"
  have b: "elems buf = [] @ ?lon @ (?lat @ ?alt @ ?ang @ [a_satellites a] @ ?spd)"
    "elems buf = ?lon @ ?lat @ (?alt @ ?ang @ [a_satellites a] @ ?spd)"
    "elems buf = (?lon @ ?lat) @ ?alt @ (?ang @ [a_satellites a] @ ?spd)"
    "elems buf = (?lon @ ?lat @ ?alt) @ ?ang @ ([a_satellites a] @ ?spd)"
    "elems buf = (?lon @ ?lat @ ?alt @ ?ang) @ a_satellites a # ?spd"
    "elems buf = (?lon @ ?lat @ ?alt @ ?ang @ [a_satellites a]) @ ?spd @ []"
    using assms by (simp_all add: enc_gps_def)
  have f: "be_at 4 buf 0 = Ok (a_lon a)" "be_at 4 buf 4 = Ok (a_lat a)"
    "be_at 2 buf 8 = Ok (a_altitude a)" "be_at 2 buf 10 = Ok (a_angle a)"
    "index buf 12 = Ok (a_satellites a)" "be_at 2 buf 13 = Ok (a_speed a)"
    by (simp_all add: be_word_round_trip be_at_enc [OF b(1), of 4, simplified]
        be_at_enc [OF b(2), of 4, simplified] be_at_enc [OF b(3), of 2, simplified]
        be_at_enc [OF b(4), of 2, simplified] index_enc [OF b(5), simplified]
        be_at_enc [OF b(6), of 2, simplified])
  show ?thesis by (simp add: parseGPS_def f degrees7_def Let_def)
qed

lemma decodeRecord_enc:
  assumes "elems buf = enc_record cfg a @ post" and "layoutForCodec c = Ok cfg"
    and "fits_record cfg a"
  shows "decodeRecord buf c = Ok (record_of cfg a, length (enc_record cfg a))"
proof -
  let ?ts = "word_be 8 (a_timestamp a)"
  have b1: "elems buf = [] @ ?ts @ ([a_priority a] @ enc_gps a @ enc_io cfg a @ post)"
    and b2: "elems buf = ?ts @ a_priority a # (enc_gps a @ enc_io cfg a @ post)"
    and b3: "elems buf = (?ts @ [a_priority a]) @ enc_gps a @ (enc_io cfg a @ post)"
    and b4: "elems buf = (?ts @ [a_priority a] @ enc_gps a) @ enc_io cfg a @ post"
    using assms(1) by (simp_all add: enc_record_def)
  have len: "24 + length (enc_io cfg a) \<le> slen buf" and
    tot: "length (enc_record cfg a) = 24 + length (enc_io cfg a)"
    by (simp_all add: slen_def b1 enc_record_def)
  have ts: "be_at 8 buf 0 = Ok (a_timestamp a)"
    by (simp add: be_at_enc [OF b1, of 8, simplified] be_word_round_trip)
  have prio: "index buf 8 = Ok (a_priority a)" by (simp add: index_enc [OF b2, simplified])
  have gps: "parseGPS \<lparr>elems = take 15 (drop 9 (elems buf)), spare = sp\<rparr> =
      Ok (degrees7 (a_lat a), degrees7 (a_lon a), a_altitude a, a_angle a, a_speed a, a_satellites a)"
    for sp by (rule parseGPS_enc) (simp add: b3)
  have io: "parseIOBlock buf 24 cfg = Ok (upd_all Map.empty (io_elements cfg a), 24 + length (enc_io cfg a))"
    using parseIOBlock_enc [OF b4 assms(2,3)] by simp
  have raw: "take (24 + length (enc_io cfg a)) (elems buf) = enc_record cfg a"
    by (simp add: assms(1) flip: tot)
  show ?thesis
    using len
    by (simp add: decodeRecord_def ts prio gps assms(2) io reslice_in_len
        record_of_def raw tot)
qed

lemma parseRecords_enc:
  assumes "elems p = pre @ concat (map (enc_record cfg) as) @ post"
    and "layoutForCodec c = Ok cfg" and "list_all (fits_record cfg) as"
    and "e = length pre + length (concat (map (enc_record cfg) as))"
  shows "parseRecords (length as) i p c e (length pre) recs = Ok (recs @ map (record_of cfg) as, e)"
  using assms
proof (induction as arbitrary: pre i recs)
  case (Cons a as)
  let ?r = "enc_record cfg a" and ?rs = "concat (map (enc_record cfg) as)"
  have e': "elems p = (pre @ ?r) @ ?rs @ post" using Cons.prems(1) by simp
  have le: "length pre < e" "e \<le> slen p"
    using Cons.prems(1,4) by (simp_all add: slen_def enc_record_def)
  obtain buf where buf: "(reslice p (length pre) e :: (packet_error, u8 slice) result) = Ok buf"
    "elems buf = ?r @ ?rs"
    using le Cons.prems(1,4) by (simp add: reslice_in_len)
  have "decodeRecord buf c = Ok (record_of cfg a, length ?r)"
    using Cons.prems(3) by (intro decodeRecord_enc [OF buf(2) Cons.prems(2)]) simp
  with buf le show ?case
    using Cons.IH [OF e' Cons.prems(2), of "i + 1" "recs @ [record_of cfg a]"] Cons.prems(3,4)
    by (simp add: add.assoc)
qed simp

section \<open>The packet\<close>

lemma drop_prefix: "drop (length xs) (xs @ ys) = ys"
  by simp

lemma framed_enc:
  assumes "elems data = enc_frame payload @ junk" and "0 < length payload" and "length payload \<le> 2048"
  shows "framed data" and "elems (packetPayload data) = payload"
    and "receivedCRC data = ucast (CRC16IBM payload)"
    and "spare (packetPayload data) = word_be 4 (ucast (CRC16IBM payload) :: u32) @ junk @ spare data"
proof -
  let ?n = "word_of_nat (length payload) :: u32"
  have x: "elems data = [0, 0, 0, 0] @ word_be 4 ?n @ payload @
      word_be 4 (ucast (CRC16IBM payload) :: u32) @ junk"
    using assms(1) by (simp add: enc_frame_def)
  have n: "unat ?n = length payload" using assms(3) by (simp add: unat_of_nat)
  have d: "dataFieldLen data = ?n"
    by (simp only: dataFieldLen_def x) (simp add: be_word_round_trip del: word_be.simps)
  have zero: "elems data ! i = 0" if "i < 4" for i
    using that by (auto simp: x nth_append eval_nat_numeral less_Suc_eq simp del: word_be.simps)
  show "framed data"
    using assms(2,3) zero by (simp add: framed_def d n) (simp add: x slen_def del: word_be.simps)
  have x8: "elems data = ([0, 0, 0, 0] @ word_be 4 ?n @ payload) @
      (word_be 4 (ucast (CRC16IBM payload) :: u32) @ junk)" by (simp add: x)
  have len8: "8 + length payload = length ([0 :: u8, 0, 0, 0] @ word_be 4 ?n @ payload)" by simp
  have rest: "drop (8 + length payload) (elems data) =
      word_be 4 (ucast (CRC16IBM payload) :: u32) @ junk"
    unfolding x8 len8 by (rule drop_prefix)
  show "elems (packetPayload data) = payload"
    "spare (packetPayload data) = word_be 4 (ucast (CRC16IBM payload) :: u32) @ junk @ spare data"
    by (simp_all add: packetPayload_def d n Let_def rest) (simp add: x del: word_be.simps)
  show "receivedCRC data = ucast (CRC16IBM payload)"
    by (simp add: receivedCRC_def d n rest be_word_round_trip del: word_be.simps)
qed

lemma ParsePacket_enc_frame:
  assumes "elems data = enc_frame payload @ junk" and "0 < length payload" and "length payload \<le> 2048"
  shows "ParsePacket data = decodePayload (packetPayload data)"
  using framed_enc [OF assms] by (simp add: ParsePacket_framed)

lemma decodePayload_enc:
  assumes "layoutForCodec c = Ok cfg" and "list_all (fits_record cfg) as" and "length as \<le> 255"
    and "elems p = [c, word_of_nat (length as)] @ concat (map (enc_record cfg) as) @
      [word_of_nat (length as)]"
  shows "decodePayload p = Ok (c, map (record_of cfg) as)"
proof -
  let ?n = "word_of_nat (length as) :: u8" and ?rs = "concat (map (enc_record cfg) as)"
  have n: "unat ?n = length as" using assms(3) by (simp add: unat_of_nat)
  have p: "slen p = length ?rs + 3" by (simp add: slen_def assms(4))
  from parseRecords_enc [OF assms(4,1,2), of "length ?rs + 2" 0 "[]"]
  have "parseRecords (length as) 0 p c (length ?rs + 2) 2 [] =
      Ok (map (record_of cfg) as, length ?rs + 2)" by (simp add: numeral_2_eq_2)
  then show ?thesis
    by (simp add: decodePayload_def assms(4) p n nth_append Let_def)
qed

lemma ParsePacket_enc_packet:
  assumes "layoutForCodec c = Ok cfg" and "list_all (fits_record cfg) as" and "length as \<le> 255"
    and "length (concat (map (enc_record cfg) as)) \<le> 2045" and "elems data = enc_packet c cfg as @ junk"
  shows "ParsePacket data = Ok (c, map (record_of cfg) as)"
proof -
  let ?n = "word_of_nat (length as) :: u8"
  let ?payload = "[c, ?n] @ concat (map (enc_record cfg) as) @ [?n]"
  have f: "elems data = enc_frame ?payload @ junk" by (simp add: assms(5) enc_packet_def)
  have pl: "length ?payload \<le> 2048" using assms(4) by simp
  show ?thesis
    unfolding ParsePacket_enc_frame [OF f _ pl, simplified]
    by (rule decodePayload_enc [OF assms(1-3)]) (use framed_enc(2) [OF f _ pl] in simp)
qed

end
