(* ===== verification/Codec_Properties.thy ===== *)
theory Codec_Properties
  imports Teltonika_Encoder
begin

text \<open>
  The properties of the AVL packet decoder, with a sample packet of one codec 8 record (one
  one-byte IO element) as their witness.
\<close>

section \<open>A sample packet\<close>

definition codec8 :: ioLayout where
  "codec8 = \<lparr>eventIDWidth = 1, countWidth = 1, idWidth = 1, hasGeneration = False,
     hasVariableIO = False\<rparr>"

definition sample_avl :: avl_record where
  "sample_avl = \<lparr>a_timestamp = 1560161086000, a_priority = 1, a_lon = 513000000, a_lat = 357000000,
     a_altitude = 1190, a_angle = 90, a_satellites = 9, a_speed = 42, a_event = 0,
     a_generation = 0, a_total = 1, a_io1 = [(239, 1)], a_io2 = [], a_io4 = [], a_io8 = [],
     a_iox = []\<rparr>"

lemma sample_fits:
  "layoutForCodec 8 = Ok codec8" "list_all (fits_record codec8) [sample_avl]"
  "length [sample_avl] \<le> 255" "length (concat (map (enc_record codec8) [sample_avl])) \<le> 2045"
  by (simp_all add: layoutForCodec_def codec8_def sample_avl_def fits_record_def fits_pairs_def
      enc_record_def enc_gps_def enc_io_def enc_group_def enc_count_def enc_pairs_def)

abbreviation sample_packet :: "u8 list" where
  "sample_packet \<equiv> enc_packet 8 codec8 [sample_avl]"

lemma sample_accepted:
  "ParsePacket \<lparr>elems = sample_packet @ junk, spare = sp\<rparr> = Ok (8, [record_of codec8 sample_avl])"
  by (simp add: ParsePacket_enc_packet [OF sample_fits])

lemma ucast_up_inj_16_32: "(ucast (a :: u16) :: u32) = ucast b \<longleftrightarrow> a = b"
  by (auto simp: word_uint_eq_iff uint_up_ucast is_up)

section \<open>Properties of the packet decoder\<close>

text \<open>
  C5: A packet that \<open>ParsePacket\<close> accepts has a zero preamble, a data field length between 1
  and 2048 that fits the packet, a matching checksum and equal record counts at both ends;
  the decoder returns exactly that many records, and the raw bytes of the records, put
  together, are all the bytes between the two counts: no byte of the AVL data is skipped.
\<close>

theorem ParsePacket_accepts:
  assumes "ParsePacket data = Ok (codecID, records)"
  defines "n \<equiv> unat (dataFieldLen data)"
  shows "(\<forall>i < 4. elems data ! i = 0) \<and> 3 \<le> n \<and> n \<le> 2048 \<and> 12 + n \<le> slen data \<and>
    be_word (take 4 (drop (8 + n) (elems data))) = (ucast (CRC16IBM (take n (drop 8 (elems data)))) :: u32) \<and>
    codecID = elems data ! 8 \<and> elems data ! 9 = elems data ! (7 + n) \<and>
    length records = unat (elems data ! 9) \<and>
    concat (map RawBytes records) = take (n - 3) (drop 10 (elems data))"
proof -
  note D = ParsePacket_OkD [OF assms(1)]
  note P = decodePayload_OkD [OF D(3)]
  have plen: "slen (packetPayload data) = n" using D(1) by (simp add: slen_packetPayload n_def)
  have pel: "elems (packetPayload data) = take n (drop 8 (elems data))"
    by (simp add: packetPayload_def Let_def n_def)
  have f: "12 + n \<le> slen data" "n \<le> 2048" "\<forall>i < 4. elems data ! i = 0"
    using D(1) by (auto simp: framed_def n_def)
  have n: "3 \<le> n" using P(1) plen by simp
  have nth: "elems (packetPayload data) ! i = elems data ! (8 + i)" if "i < n" for i
    using that f(1) by (simp add: pel slen_def)
  show ?thesis
    using f n P D(2) nth [of 0] nth [of 1] nth [of "n - 1"]
    by (simp add: plen receivedCRC_def n_def [symmetric] pel drop_take)
qed

theorem ParsePacket_accepts_witness:
  "let data = \<lparr>elems = sample_packet, spare = []\<rparr>; n = unat (dataFieldLen data) in
   3 \<le> n \<and> n \<le> 2048 \<and> elems data ! 9 = elems data ! (7 + n)"
  unfolding Let_def
  using ParsePacket_accepts [of "\<lparr>elems = sample_packet, spare = []\<rparr>" 8]
    sample_accepted [of "[]" "[]"] by simp

text \<open>
  A successful decode depends on the visible bytes only: whatever the backing array holds
  beyond the length of the slice, the codec identifier and the records are the same.
\<close>

theorem ParsePacket_visible:
  assumes "ParsePacket \<lparr>elems = xs, spare = ys\<rparr> = Ok r"
  shows "ParsePacket \<lparr>elems = xs, spare = zs\<rparr> = Ok r"
proof -
  let ?d = "\<lambda>sp. \<lparr>elems = xs, spare = sp\<rparr>"
  obtain c recs where r: "r = (c, recs)" by (cases r)
  note D = ParsePacket_OkD [OF assms [unfolded r]]
  have same: "framed (?d zs)" "receivedCRC (?d zs) = receivedCRC (?d ys)"
    "elems (packetPayload (?d zs)) = elems (packetPayload (?d ys))"
    using D(1) by (simp_all add: framed_def slen_def dataFieldLen_def receivedCRC_def
        packetPayload_def Let_def)
  have "decodePayload (packetPayload (?d zs)) = Ok (c, recs)"
    by (rule decodePayload_same [OF D(3) same(3)])
  then show ?thesis using D(2) by (simp add: ParsePacket_framed [OF same(1)] same(2,3) r)
qed

theorem ParsePacket_visible_witness:
  "ParsePacket \<lparr>elems = sample_packet, spare = [1, 2, 3]\<rparr> = Ok (8, [record_of codec8 sample_avl])"
  using ParsePacket_visible [OF sample_accepted [of "[]" "[]"], of "[1, 2, 3]"] by simp

text \<open>
  C11: The decoder inverts the reference encoder: for each of the three codecs, a packet that
  encodes up to 255 records within the 2048-byte limit decodes to exactly those records
  (timestamps, positions, motion fields and IO elements, later elements overriding earlier
  ones of the same identifier), whatever bytes follow the packet.
\<close>

theorem ParsePacket_inverts_encoder:
  assumes "layoutForCodec c = Ok cfg" and "list_all (fits_record cfg) as" and "length as \<le> 255"
    and "length (concat (map (enc_record cfg) as)) \<le> 2045"
  shows "ParsePacket \<lparr>elems = enc_packet c cfg as @ junk, spare = sp\<rparr> =
    Ok (c, map (record_of cfg) as)"
  by (rule ParsePacket_enc_packet [OF assms]) simp

theorem ParsePacket_inverts_encoder_witness:
  "ParsePacket \<lparr>elems = sample_packet @ [7], spare = []\<rparr> = Ok (8, [record_of codec8 sample_avl])"
  using ParsePacket_inverts_encoder [OF sample_fits] by simp

text \<open>
  An accepted packet in which two adjacent bytes of the data field are changed in any way
  is no longer accepted: the decoder reports a checksum mismatch.
\<close>

theorem ParsePacket_detects_pair_corruption:
  assumes "ParsePacket \<lparr>elems = hdr @ pre @ [x, y] @ post, spare = sp\<rparr> = Ok r"
    and "length hdr = 8"
    and "length pre + 2 \<le> unat (be_word (drop 4 hdr) :: u32)"
    and "(x, y) \<noteq> (x', y')"
  shows "\<exists>received computed.
    ParsePacket \<lparr>elems = hdr @ pre @ [x', y'] @ post, spare = sp\<rparr> =
      Err (0, [], CRCMismatch received computed)"
proof -
  let ?d = "\<lambda>a b. \<lparr>elems = hdr @ pre @ [a, b] @ post, spare = sp\<rparr>"
  let ?n = "unat (be_word (drop 4 hdr) :: u32)"
  obtain c recs where r: "r = (c, recs)" by (cases r)
  note D = ParsePacket_OkD [OF assms(1) [unfolded r]]
  have len: "dataFieldLen (?d a b) = be_word (drop 4 hdr)" for a b
    using assms(2) by (simp add: dataFieldLen_def)
  obtain k where k: "?n = length pre + 2 + k" using assms(3) le_iff_add by blast
  have pay: "elems (packetPayload (?d a b)) = pre @ [a, b] @ take k post" for a b
    using assms(2) by (simp add: packetPayload_def Let_def len [simplified] k)
  have rc: "receivedCRC (?d a b) = be_word (take 4 (drop k post))" for a b
    using assms(2) by (simp add: receivedCRC_def len [simplified] k)
  have fr: "framed (?d x' y')"
    using D(1) assms(2) by (simp add: framed_def len [simplified] slen_def nth_append)
  have "CRC16IBM (pre @ [x', y'] @ take k post) \<noteq> CRC16IBM (pre @ [x, y] @ take k post)"
    using CRC16IBM_pair_corruption assms(4) by blast
  then have "ucast (CRC16IBM (pre @ [x', y'] @ take k post)) \<noteq> receivedCRC (?d x' y')"
    using D(2) unfolding pay rc by (metis ucast_up_inj_16_32)
  then show ?thesis unfolding ParsePacket_framed [OF fr] pay by auto
qed

theorem ParsePacket_detects_pair_corruption_witness:
  "\<exists>received computed. ParsePacket \<lparr>elems = take 8 sample_packet @ [] @ [0x8E, 1] @ drop 10 sample_packet,
     spare = []\<rparr> = Err (0, [], CRCMismatch received computed)"
proof -
  have enc: "sample_packet = take 8 sample_packet @ [] @ [8, 1] @ drop 10 sample_packet"
    by (simp add: enc_packet_def enc_frame_def enc_record_def sample_avl_def)
  have "ParsePacket \<lparr>elems = take 8 sample_packet @ [] @ [8, 1] @ drop 10 sample_packet, spare = []\<rparr> =
      Ok (8, [record_of codec8 sample_avl])"
    using sample_accepted [of "[]" "[]"] by (simp only: enc [symmetric] append_Nil2)
  then show ?thesis
    by (rule ParsePacket_detects_pair_corruption)
      (simp_all add: enc_packet_def enc_frame_def enc_record_def be_word_round_trip
        sample_avl_def enc_gps_def enc_io_def enc_group_def enc_count_def enc_pairs_def codec8_def)
qed

text \<open>
  C30: A packet whose slice has at least ten bytes of spare capacity behind it never makes the
  decoder panic, whatever its bytes are.
\<close>

theorem ParsePacket_no_panic:
  assumes "10 \<le> length (spare data)"
  shows "ParsePacket data \<noteq> Panic"
proof (cases "framed data")
  case True
  let ?p = "packetPayload data"
  have "slen ?p + 14 \<le> scap ?p"
    using True assms by (auto simp: packetPayload_def Let_def scap_def slen_def framed_def)
  then have "decodePayload ?p \<noteq> Panic"
    using parseRecords_no_panic [of "slen ?p - 1" ?p]
    by (auto simp: decodePayload_def Let_def result_simps)
  then show ?thesis by (simp add: ParsePacket_framed [OF True])
next
  case False
  then show ?thesis using ParsePacket_not_framed [of data] by auto
qed

text \<open>
  C29: The decoder panics on a checksummed packet that announces one record and carries 9 to
  18 bytes of record data, when its buffer ends with the packet, as the buffer of a TCP
  session does: \<open>decodeRecord\<close> checks for nine bytes and slices twenty-four.
\<close>

theorem ParsePacket_short_record_panics:
  assumes "9 \<le> length body" and "length body \<le> 18"
  shows "ParsePacket (mk_slice (enc_frame ([c, 1] @ body @ [1]))) = Panic"
proof -
  let ?payload = "[c, 1] @ body @ [1]"
  let ?d = "mk_slice (enc_frame ?payload)"
  let ?p = "packetPayload ?d"
  have f: "elems ?d = enc_frame ?payload @ []" by (simp add: mk_slice_def)
  have pl: "0 < length ?payload" "length ?payload \<le> 2048" using assms(2) by simp_all
  have p: "elems ?p = ?payload" "length (spare ?p) = 4"
    using framed_enc(2,4) [OF f pl] by (simp_all add: mk_slice_def)
  obtain b where b: "(reslice ?p 2 (length body + 2) :: (packet_error, _) result) = Ok b"
    and bb: "slen b = length body" "scap b = length body + 5"
    using p by (simp add: reslice_in_len slen_def scap_def)
  have "decodeRecord b c = Panic" using assms bb by (simp add: decodeRecord_panic)
  moreover have "slen ?p = length body + 3" unfolding slen_def p by simp
  moreover have "body \<noteq> []" using assms(1) by auto
  ultimately have "decodePayload ?p = Panic"
    using assms b p(1) by (simp add: decodePayload_def nth_append Let_def)
  then show ?thesis using ParsePacket_enc_frame [OF f pl] by simp
qed

theorem ParsePacket_short_record_panics_witness:
  "ParsePacket (mk_slice (enc_frame ([0x10, 1] @ replicate 9 0 @ [1]))) = Panic"
  by (rule ParsePacket_short_record_panics) simp_all

theorem ParsePacket_no_panic_witness:
  "ParsePacket \<lparr>elems = enc_frame ([0x10, 1] @ replicate 9 0 @ [1]), spare = replicate 10 0\<rparr> \<noteq> Panic"
  by (rule ParsePacket_no_panic) simp

end
