(* ===== verification/Parser_Properties.thy ===== *)
theory Parser_Properties
  imports Gps_Parser_Facts Coordinates Teltonika_Parser Codec_Properties
begin

text \<open>
  The properties of the parsers, each with a concrete instance.
\<close>

section \<open>The text protocol\<close>

abbreviation sample_text :: string where
  "sample_text \<equiv> ''+Hooshnic:V1.06,3530.5,05123.25,0,240229,230000,045,0,1,1,0,86000001''"

text \<open>
  C22: No item of an accepted payload is lost: when the JSON decoder accepts the cleaned text,
  every item is the raw data of exactly one record or of one invalid record (duplicates
  included); when it does not, every object found in the text gives a record or an invalid
  record.
\<close>

theorem parseHooshnicJSON_accounts:
  assumes "slice_sort srt" and "parseHooshnicJSON unmarshal srt data = Ok res"
  shows "case unmarshal (preprocessJSON data) of
      Some items \<Rightarrow> mset (map RawData (Records res)) + mset (map InvRawData (Invalid res)) = mset items
    | None \<Rightarrow> length (Records res) + length (Invalid res) = length (find_data_starts (preprocessJSON data))"
proof -
  note mset_srt = slice_sort.mset_sort [OF assms(1)] and len_srt = slice_sort.length_sort [OF assms(1)]
  let ?t = "preprocessJSON data"
  have raw: "mset (map RawData (srt lt (fst (processDataItems items)))) +
      mset (map InvRawData (snd (processDataItems items))) = mset items" for lt items
    using processDataItems_raw [of items] by (simp add: mset_srt)
  show ?thesis
  proof (cases "unmarshal ?t")
    case (Some items)
    then show ?thesis
      using assms(2) raw [of byDateTime items]
      by (cases "processDataItems items") (auto simp: parseHooshnicJSON_def decodeJSONData_def split: if_splits)
  next
    case None
    obtain items bad where ex: "extractDataItems ?t = (items, bad)" by (cases "extractDataItems ?t")
    then have "length items + length bad = length (find_data_starts ?t)"
      using extract_matches_length [of ?t "find_data_starts ?t" "[]" "[]"] by (simp add: extractDataItems_def)
    moreover have "length (fst (processDataItems items)) + length (snd (processDataItems items)) = length items"
      using arg_cong [OF processDataItems_raw [of items], of size] by simp
    moreover have "items \<noteq> [] \<or> bad \<noteq> []" "res = \<lparr>Records = srt byDateTime (fst (processDataItems items)),
        Invalid = bad @ snd (processDataItems items)\<rparr>"
      using assms(2) None ex
      by (auto simp: parseHooshnicJSON_def decodeJSONData_def Let_def case_prod_beta split: if_splits)
    ultimately show ?thesis using None by (simp add: len_srt)
  qed
qed

lemma sample_accepted_json:
  obtains res where "parseHooshnicJSON (\<lambda>_. Some [sample_text, '''']) insertionSort ''[]'' = Ok res"
  by (simp add: parseHooshnicJSON_def decodeJSONData_def case_prod_beta)

theorem parseHooshnicJSON_accounts_witness:
  "\<exists>res. parseHooshnicJSON (\<lambda>_. Some [sample_text, '''']) insertionSort ''[]'' = Ok res \<and>
     mset (map RawData (Records res)) + mset (map InvRawData (Invalid res)) = {#sample_text, ''''#}"
proof -
  obtain res where res: "parseHooshnicJSON (\<lambda>_. Some [sample_text, '''']) insertionSort ''[]'' = Ok res"
    by (rule sample_accepted_json)
  from parseHooshnicJSON_accounts [OF insertion.slice_sort_axioms this] res show ?thesis by auto
qed

lemma processDataItems_records:
  "r \<in> set (fst (processDataItems items)) \<Longrightarrow> \<exists>d. processDataItem d = Ok r"
  by (auto simp: processDataItems_map_filter List.map_filter_def item_ok_def split: if_splits result.splits)

lemma processDataItem_instant:
  assumes "processDataItem d = Ok r"
  shows "\<exists>k. DateTime r = format_datetime k \<and> 0 \<le> instant_year k \<and> instant_year k \<le> 9999"
proof -
  obtain a b where "parseDateTime a b = Some (DateTime r)"
    using assms by (auto simp: processDataItem_def Let_def result_simps split: if_splits option.splits)
  then show ?thesis by (rule parseDateTime_instant) auto
qed

lemma chronological:
  assumes "slice_sort srt"
    and "\<forall>r \<in> set rs. \<exists>k. DateTime r = format_datetime k \<and> 0 \<le> instant_year k \<and> instant_year k \<le> 9999"
  shows "\<exists>ks. map DateTime (srt byDateTime rs) = map format_datetime ks \<and> sorted ks"
proof -
  obtain f where f: "DateTime r = format_datetime (f r)" "0 \<le> instant_year (f r)" "instant_year (f r) \<le> 9999"
    if "r \<in> set rs" for r using assms(2) by metis
  let ?s = "srt byDateTime rs"
  have set: "set ?s = set rs" by (rule slice_sort.set_sort [OF assms(1)])
  have "sorted (map DateTime ?s)"
    by (rule slice_sort.ordered_key [OF assms(1)]) (simp add: byDateTime_def)
  then have "sorted_wrt (\<lambda>a b. DateTime a \<le> DateTime b) ?s" by (simp add: sorted_wrt_map)
  then have "sorted_wrt (\<lambda>a b. f a \<le> f b) ?s"
  proof (rule sorted_wrt_mono_rel [rotated])
    fix a b
    assume "a \<in> set ?s" "b \<in> set ?s" "DateTime a \<le> DateTime b"
    then show "f a \<le> f b"
      using f [of a] f [of b] format_datetime_less [of "f b" "f a"] by (simp add: set) (metis leI leD)
  qed
  then have "sorted (map f ?s)" by (simp add: sorted_wrt_map)
  moreover have "map DateTime ?s = map format_datetime (map f ?s)" using f set by simp
  ultimately show ?thesis by blast
qed

text \<open>
  C23: The records of an accepted text payload come out in the order of time: their date strings
  are the formatted instants of an ascending sequence, although the code compares the strings.
\<close>

theorem parseHooshnicJSON_chronological:
  assumes "slice_sort srt" and "parseHooshnicJSON unmarshal srt data = Ok res"
  shows "\<exists>ks. map DateTime (Records res) = map format_datetime ks \<and> sorted ks"
proof -
  have "(\<exists>items. Records res = srt byDateTime (fst (processDataItems items))) \<or> Records res = []"
    using assms(2) by (auto simp: parseHooshnicJSON_def result_simps Let_def case_prod_beta split: if_splits)
  moreover have "\<exists>ks. map DateTime (srt byDateTime (fst (processDataItems items))) = map format_datetime ks \<and> sorted ks"
    for items using processDataItems_records processDataItem_instant by (intro chronological [OF assms(1)]) blast
  ultimately show ?thesis by fastforce
qed

theorem parseHooshnicJSON_chronological_witness:
  "\<exists>res ks. parseHooshnicJSON (\<lambda>_. Some [sample_text, '''']) insertionSort ''[]'' = Ok res \<and>
     map DateTime (Records res) = map format_datetime ks \<and> sorted ks"
proof -
  obtain res where res: "parseHooshnicJSON (\<lambda>_. Some [sample_text, '''']) insertionSort ''[]'' = Ok res"
    by (rule sample_accepted_json)
  from parseHooshnicJSON_chronological [OF insertion.slice_sort_axioms this] res show ?thesis by auto
qed

text \<open>
  C25: Recovery from malformed arrays: whatever text without an opening brace surrounds and
  separates them, the extraction finds every object \<open>{"data":"v"}\<close> in order and with its value
  unescaped; an object with an empty value is reported as invalid.
\<close>

theorem extractDataItems_recovers:
  assumes "CHR ''{'' \<notin> set j0" and "\<forall>(v, j) \<in> set vjs. CHR ''{'' \<notin> set j"
  shows "extractDataItems (j0 @ concat (map (\<lambda>(v, j). data_object v @ j) vjs)) =
    (filter (\<lambda>v. v \<noteq> []) (map fst vjs),
     map (\<lambda>v. \<lparr>InvRawData = v, Reason = EmptyDataField\<rparr>) (filter (\<lambda>v. v = []) (map fst vjs)))"
  by (rule extractDataItems_objects [OF assms])

theorem extractDataItems_recovers_witness:
  "extractDataItems (''[[,'' @ data_object ''a,b'' @ '',,} '' @ data_object [] @ '' junk'') =
     ([''a,b''], [\<lparr>InvRawData = [], Reason = EmptyDataField\<rparr>])"
  using extractDataItems_recovers [of "''[[,''" "[(''a,b'', '',,} ''), ([], '' junk'')]"] by simp

text \<open>
  C24: Coordinates: when latitude and longitude read as \<open>100 d + m\<close> with at most 180 whole degrees
  and minutes below 60, the conversion succeeds and each result is within 0.6 millionths of a
  degree of \<open>d + m / 60\<close>, all floating-point roundings included.
\<close>

theorem convertNMEA_accurate:
  assumes "ParseFloat a = (Fin False (100 * of_nat d1 + m1), None)" "d1 \<le> 180" "0 \<le> m1" "m1 < 60"
    and "ParseFloat b = (Fin False (100 * of_nat d2 + m2), None)" "d2 \<le> 180" "0 \<le> m2" "m2 < 60"
  shows "\<exists>lat lon. convertNMEAToDecimalDegrees a b = Ok (Fin False lat, Fin False lon) \<and>
    \<bar>lat - (of_nat d1 + m1 / 60)\<bar> \<le> 6 / 10 ^ 7 \<and> \<bar>lon - (of_nat d2 + m2 / 60)\<bar> \<le> 6 / 10 ^ 7"
proof -
  obtain lat where lat: "round6 (nmeaToDecimalDegrees (Fin False (100 * of_nat d1 + m1))) = Fin False lat"
    "\<bar>lat - (of_nat d1 + m1 / 60)\<bar> \<le> 6 / 10000000"
    by (rule coordinate_error [OF refl assms(2-4)])
  obtain lon where lon: "round6 (nmeaToDecimalDegrees (Fin False (100 * of_nat d2 + m2))) = Fin False lon"
    "\<bar>lon - (of_nat d2 + m2 / 60)\<bar> \<le> 6 / 10000000"
    by (rule coordinate_error [OF refl assms(6-8)])
  show ?thesis using lat lon assms(1,5) by (simp add: convertNMEAToDecimalDegrees_def)
qed

lemma is_double_scaled:
  assumes "0 \<le> k" and "k \<le> 2 ^ 53" and "- 1074 \<le> e" and "e \<le> 0"
  shows "is_double (of_int k * pow2 e)"
proof -
  have "pow2 e \<le> pow2 0" using assms(4) by (rule pow2_mono)
  then have "of_int k * pow2 e \<le> of_int k * 1"
    using assms(1) by (intro mult_left_mono) (simp_all add: pow2_def)
  moreover have "(of_int k :: rat) < pow2 1024"
    using is_double_int [OF assms(1,2)] by (simp add: is_double_def)
  ultimately show ?thesis using assms(1-3) unfolding is_double_def by fastforce
qed

lemma sample_floats:
  "ParseFloat ''3530.5'' = (Fin False (7061 / 2), None)"
  "ParseFloat ''05123.25'' = (Fin False (20493 / 4), None)"
proof -
  have l: "lower (CHR ''5'') = CHR ''5''" by code_simp
  have "readFloat ''3530.5'' = Some (False, 7061 / 2)" "readFloat ''05123.25'' = Some (False, 20493 / 4)"
    "special ''3530.5'' = None" "special ''05123.25'' = None"
    by (simp_all add: readFloat_def strip_sign_def is_digit_def digit_of_def l pow_int_def
        special_def ToLowerASCII_def Let_def)
  moreover have "is_double (of_int 7061 * pow2 (- 1))" "is_double (of_int 20493 * pow2 (- 2))"
    by (rule is_double_scaled; simp)+
  then have "is_double (7061 / 2)" "is_double (20493 / 4)" by (simp_all add: pow2_def)
  ultimately show "ParseFloat ''3530.5'' = (Fin False (7061 / 2), None)"
    "ParseFloat ''05123.25'' = (Fin False (20493 / 4), None)"
    by (simp_all add: ParseFloat_def round64_exact)
qed

theorem convertNMEA_accurate_witness:
  "\<exists>lat lon. convertNMEAToDecimalDegrees ''3530.5'' ''05123.25'' = Ok (Fin False lat, Fin False lon) \<and>
    \<bar>lat - (35 + (61 / 2) / 60)\<bar> \<le> 6 / 10 ^ 7 \<and> \<bar>lon - (51 + (93 / 4) / 60)\<bar> \<le> 6 / 10 ^ 7"
  using convertNMEA_accurate [of "''3530.5''" 35 "61 / 2" "''05123.25''" 51 "93 / 4"] sample_floats by simp

section \<open>Teltonika records\<close>

text \<open>
  An accepted AVL packet becomes one parsed record per AVL record, all with the session's
  IMEI: the raw data of a record is the hexadecimal text that decodes to the record's bytes, and
  the list is in the order of time when the shifted timestamps fall in the years 0 to 9999.
\<close>

theorem parseTeltonikaAVL_records:
  assumes "slice_sort srt" and "ParsePacket data = Ok (c, recs)"
    and "\<forall>rec \<in> set recs. 0 \<le> instant_year (t_sec (t_Add (UnixMilli (sint (TimestampMs rec))) tz)) \<and>
      instant_year (t_sec (t_Add (UnixMilli (sint (TimestampMs rec))) tz)) \<le> 9999"
  shows "\<exists>res ks. parseTeltonikaAVL srt data imei tz = Ok res \<and> Invalid res = [] \<and>
    mset (map (hex_DecodeString \<circ> RawData) (Records res)) = mset (map (Some \<circ> RawBytes) recs) \<and>
    (\<forall>r \<in> set (Records res). IMEI r = imei) \<and>
    map DateTime (Records res) = map format_datetime ks \<and> sorted ks"
proof -
  let ?ps = "teltonikaRecordsToParsed recs imei tz"
  let ?res = "\<lparr>Records = srt byDateTime ?ps, Invalid = []\<rparr>"
  have raw: "hex_DecodeString (RawData (teltonikaRecordToParsed rec imei tz)) = Some (RawBytes rec)" for rec
    by (simp add: teltonikaRecordToParsed_def Let_def hex_round_trip)
  have "mset (map (hex_DecodeString \<circ> RawData) (srt byDateTime ?ps)) = mset (map (Some \<circ> RawBytes) recs)"
    using raw by (simp add: slice_sort.mset_sort [OF assms(1)] teltonikaRecordsToParsed_def image_mset.compositionality comp_def)
  moreover have "\<forall>r \<in> set (srt byDateTime ?ps). IMEI r = imei"
    by (auto simp: slice_sort.set_sort [OF assms(1)] teltonikaRecordsToParsed_def teltonikaRecordToParsed_def Let_def)
  moreover obtain ks where "map DateTime (srt byDateTime ?ps) = map format_datetime ks" "sorted ks"
    using chronological [OF assms(1), of ?ps] assms(3)
    by (fastforce simp: teltonikaRecordsToParsed_def teltonikaRecordToParsed_def Let_def FormatDateTime_def)
  ultimately show ?thesis using assms(2) by (intro exI [of _ ?res] exI [of _ ks]) (simp add: parseTeltonikaAVL_def)
qed

theorem parseTeltonikaAVL_records_witness:
  "\<exists>res ks. parseTeltonikaAVL insertionSort (mk_slice sample_packet) ''860'' defaultTimezoneOffset = Ok res \<and>
    map DateTime (Records res) = map format_datetime ks \<and> sorted ks"
proof -
  have acc: "ParsePacket (mk_slice sample_packet) = Ok (8, [record_of codec8 sample_avl])"
    using sample_accepted [of "[]" "[]"] by (simp add: mk_slice_def)
  have ts: "sint (TimestampMs (record_of codec8 sample_avl)) = 1560161086000"
    by (simp add: record_of_def sample_avl_def)
  have "instant_year (t_sec (t_Add (UnixMilli 1560161086000) defaultTimezoneOffset)) = 2019"
    by (simp add: instant_year_def t_Add_def UnixMilli_def defaultTimezoneOffset_def year_of_def Let_def)
  then show ?thesis
    using parseTeltonikaAVL_records [OF insertion.slice_sort_axioms acc, of defaultTimezoneOffset "''860''"]
    by (auto simp: ts)
qed

section \<open>The queue envelope\<close>

text \<open>
  What the program relies on in the JSON package: an encoded envelope starts with its first
  field and decodes to itself, except the raw data, which is tagged \<open>json:"-"\<close>.
\<close>

definition json_envelope ::
  "(teltonikaEnvelope \<Rightarrow> u8 list option) \<Rightarrow> (u8 list \<Rightarrow> teltonikaEnvelope option) \<Rightarrow> bool" where
  "json_envelope marshal unmarshal_env \<longleftrightarrow>
     (\<forall>env bs. marshal env = Some bs \<longrightarrow> HasPrefix bs (bytes_of teltonikaQueuedPrefix) \<and>
       unmarshal_env bs = Some (env\<lparr>env_Records := map (\<lambda>r. r\<lparr>RawData := []\<rparr>) (env_Records env)\<rparr>))"


definition sample_parsed :: ParsedGPSData where
  "sample_parsed = \<lparr>Coordinate = (Fin False 35, Fin False 51), Speed = 42, Status = 1,
     Directions = \<lparr>EW = 1, NS = 1\<rparr>, DateTime = ''2019-06-10 13:34:46'', IMEI = [], RawData = ''00''\<rparr>"


section \<open>A coordinate that is not a number\<close>

text \<open>
  The latitude text \<open>nan\<close> (any case) is accepted: the record is stored as valid, with a
  coordinate that is not a number and that JSON cannot represent.
\<close>

theorem nan_latitude_accepted:
  assumes "length fs = 12" and "fs ! 1 = ''nan''" and "fs ! 2 = ''05123.25''"
    and "\<forall>f \<in> set fs. CHR '','' \<notin> set f" and "parseDateTime (fs ! 4) (fs ! 5) = Some dt"
  shows "\<exists>r. processDataItem (Join '','' fs) = Ok r \<and> fst (Coordinate r) = NaN"
proof -
  have "fs \<noteq> []" using assms(1) by auto
  then have split: "Split (CHR '','') (Join '','' fs) = fs" using assms(4) by (rule Split_Join)
  have "special ''nan'' = Some NaN"
    by (simp add: special_def strip_sign_def ToLowerASCII_def Let_def)
  then have "ParseFloat ''nan'' = (NaN, None)" by (simp add: ParseFloat_def)
  then have "\<exists>lon. convertNMEAToDecimalDegrees (fs ! 1) (fs ! 2) = Ok (NaN, lon)"
    using assms(2,3) sample_floats(2)
    by (simp add: convertNMEAToDecimalDegrees_def nmeaToDecimalDegrees_def round6_def f_sub_def Let_def)
  then show ?thesis using assms(1,5) by (auto simp: processDataItem_def split Let_def)
qed

lemma sample_time: "\<exists>dt. parseDateTime ''240229'' ''230000'' = Some dt"
proof -
  have d: "dval (CHR ''2'') = 2" "dval (CHR ''4'') = 4" "dval (CHR ''0'') = 0" "dval (CHR ''9'') = 9"
    "dval (CHR ''3'') = 3" by (simp_all add: dval_def)
  have y: "parse_year (''24'' @ s) = Some (2024, s)" for s
    by (simp add: parse_year_def atoi_year_def d)
  have l: "is_leap 2024" by (simp add: is_leap_def)
  show ?thesis
    using y [of "''0229230000''"]
    by (simp add: parseDateTime_def ParseTime_def range_num_def getnum_def is_digit_at_def d l
        parse_fraction_def month_len_def)
qed

theorem nan_latitude_accepted_witness:
  "\<exists>r. processDataItem ''+H,nan,05123.25,0,240229,230000,045,0,1,1,0,86000001'' = Ok r \<and>
     fst (Coordinate r) = NaN"
proof -
  let ?fs = "[''+H'', ''nan'', ''05123.25'', ''0'', ''240229'', ''230000'', ''045'', ''0'', ''1'', ''1'', ''0'', ''86000001'']"
  obtain dt where "parseDateTime ''240229'' ''230000'' = Some dt" using sample_time ..
  then show ?thesis using nan_latitude_accepted [of ?fs dt] by simp
qed

end
