(* ===== verification/Sanitizer.thy ===== *)
theory Sanitizer
  imports Go_Strings
begin

text \<open>
  Cleaning of request bodies (\<open>internal/sanitizer/sanitizer.go\<close>) over the UTF-8 rules of Go's
  \<open>unicode/utf8\<close>: the result is always valid UTF-8 without control characters.
\<close>

section \<open>UTF-8\<close>

text \<open>
  The number of bytes of the character at the head, 0 when there is none: \<open>DecodeRune\<close> reports
  an error of width one exactly then.
\<close>

definition in_range :: "u8 \<Rightarrow> u8 \<Rightarrow> u8 \<Rightarrow> bool" where
  "in_range lo hi b \<longleftrightarrow> lo \<le> b \<and> b \<le> hi"

definition second_ok :: "u8 \<Rightarrow> u8 \<Rightarrow> bool" where
  "second_ok a b \<longleftrightarrow>
     (if a = 0xE0 then in_range 0xA0 0xBF b else if a = 0xED then in_range 0x80 0x9F b
      else if a = 0xF0 then in_range 0x90 0xBF b else if a = 0xF4 then in_range 0x80 0x8F b
      else in_range 0x80 0xBF b)"

fun rune_len :: "u8 list \<Rightarrow> nat" where
  "rune_len [] = 0"
| "rune_len (a # r) =
     (if a < 0x80 then 1
      else if in_range 0xC2 0xDF a
      then (case r of b # _ \<Rightarrow> if second_ok a b then 2 else 0 | _ \<Rightarrow> 0)
      else if in_range 0xE0 0xEF a
      then (case r of b # c # _ \<Rightarrow> if second_ok a b \<and> in_range 0x80 0xBF c then 3 else 0 | _ \<Rightarrow> 0)
      else if in_range 0xF0 0xF4 a
      then (case r of b # c # d # _ \<Rightarrow>
              if second_ok a b \<and> in_range 0x80 0xBF c \<and> in_range 0x80 0xBF d then 4 else 0
            | _ \<Rightarrow> 0)
      else 0)"

function utf8_Valid :: "u8 list \<Rightarrow> bool" where
  "utf8_Valid s =
     (if s = [] then True else if rune_len s = 0 then False else utf8_Valid (drop (rune_len s) s))"
  by pat_completeness auto

termination utf8_Valid
  by (relation "measure length") auto

declare utf8_Valid.simps [simp del]

text \<open>\<open>strings.ToValidUTF8(s, "")\<close>: bytes that start no character are dropped.\<close>

function ToValidUTF8 :: "u8 list \<Rightarrow> u8 list" where
  "ToValidUTF8 s =
     (if s = [] then []
      else if rune_len s = 0 then ToValidUTF8 (drop 1 s)
      else take (rune_len s) s @ ToValidUTF8 (drop (rune_len s) s))"
  by pat_completeness auto

termination ToValidUTF8
  by (relation "measure length") auto

declare ToValidUTF8.simps [simp del]

section \<open>The sanitizer\<close>

definition is_control :: "u8 \<Rightarrow> bool" where
  "is_control b \<longleftrightarrow> b \<le> 0x08 \<or> b = 0x0B \<or> b = 0x0C \<or> in_range 0x0E 0x1F b \<or> b = 0x7F"

text \<open>
  The class of \<open>controlCharsRegex\<close> holds only characters of one byte, and no byte of a longer
  character or of an invalid sequence is one of them: the replacement works bytewise.
\<close>

definition removeControlChars :: "u8 list \<Rightarrow> u8 list" where
  "removeControlChars data = filter (\<lambda>b. \<not> is_control b) data"

definition SanitizeUTF8 :: "u8 list \<Rightarrow> u8 list" where
  "SanitizeUTF8 data =
     (if length data = 0 then data
      else if utf8_Valid data then removeControlChars data
      else let data1 = ToValidUTF8 data;
               data2 = (if \<not> utf8_Valid data1 then removeControlChars data1 else data1)
           in if \<not> utf8_Valid data2 then [] else removeControlChars data2)"

section \<open>Facts\<close>

lemma rune_len_le: "rune_len s \<le> length s"
  by (cases s) (auto split: list.splits)

lemma rune_len_take: "0 < rune_len s \<Longrightarrow> rune_len (take (rune_len s) s @ t) = rune_len s"
  by (cases s) (auto split: list.splits if_splits)

declare rune_len.simps(2) [simp del]

lemma utf8_Valid_Nil [simp]: "utf8_Valid []"
  by (simp add: utf8_Valid.simps)

lemma utf8_Valid_append:
  assumes "0 < rune_len s"
  shows "utf8_Valid (take (rune_len s) s @ t) \<longleftrightarrow> utf8_Valid t"
proof -
  have n: "length (take (rune_len s) s) = rune_len s" using rune_len_le [of s] by simp
  have ne: "s \<noteq> []" using assms by auto
  show ?thesis
    by (subst utf8_Valid.simps) (use n ne assms in \<open>simp add: rune_len_take\<close>)
qed

lemma utf8_Valid_induct [consumes 1, case_names Nil Rune]:
  assumes "utf8_Valid s" and "P []"
    and "\<And>s. 0 < rune_len s \<Longrightarrow> utf8_Valid (drop (rune_len s) s) \<Longrightarrow> P (drop (rune_len s) s) \<Longrightarrow> P s"
  shows "P s"
  using assms(1)
proof (induction s rule: utf8_Valid.induct)
  case (1 s)
  show ?case
  proof (cases "s = []")
    case False
    with 1(2) have "0 < rune_len s" "utf8_Valid (drop (rune_len s) s)"
      by (simp_all add: utf8_Valid.simps [of s] split: if_splits)
    then show ?thesis using 1(1) False assms(3) by blast
  qed (simp add: assms(2))
qed

lemma ToValidUTF8_valid: "utf8_Valid (ToValidUTF8 s)"
proof (induction s rule: ToValidUTF8.induct)
  case (1 s)
  then show ?case by (subst ToValidUTF8.simps) (auto simp: utf8_Valid_append)
qed

lemma ToValidUTF8_id: "utf8_Valid s \<Longrightarrow> ToValidUTF8 s = s"
proof (induction s rule: utf8_Valid_induct)
  case Nil
  show ?case by (simp add: ToValidUTF8.simps)
next
  case (Rune s)
  then show ?case by (subst ToValidUTF8.simps) auto
qed

lemma ToValidUTF8_subseq: "subseq (ToValidUTF8 s) s"
proof (induction s rule: ToValidUTF8.induct)
  case (1 s)
  show ?case
  proof (cases "s = []")
    case True
    then show ?thesis by (simp add: ToValidUTF8.simps)
  next
    case False
    then obtain b r where s: "s = b # r" by (cases s) auto
    show ?thesis
    proof (cases "rune_len s = 0")
      case True
      then have "subseq (ToValidUTF8 r) r" using 1(1) False by (simp add: s)
      then show ?thesis using True by (subst ToValidUTF8.simps) (simp add: s list_emb_Cons)
    next
      case n: False
      then have "subseq (take (rune_len s) s @ ToValidUTF8 (drop (rune_len s) s))
          (take (rune_len s) s @ drop (rune_len s) s)"
        using 1(2) False n by (intro list_emb_append_mono subseq_order.refl) simp
      then show ?thesis using n False by (subst ToValidUTF8.simps) simp
    qed
  qed
qed

text \<open>A character of several bytes has none below 128.\<close>

lemma long_rune:
  assumes "1 < rune_len s" and "b \<in> set (take (rune_len s) s)"
  shows "0x80 \<le> b"
proof -
  obtain a r where s: "s = a # r" using assms(1) by (cases s) auto
  have a: "0x80 \<le> a" using assms(1) s by (auto simp: rune_len.simps not_less split: if_splits)
  have "second_ok a b \<Longrightarrow> 0x80 \<le> b" for b
    by (auto simp: second_ok_def in_range_def word_le_nat_alt split: if_splits)
  then show ?thesis
    using assms a unfolding s
    by (auto simp: rune_len.simps in_range_def eval_nat_numeral split: list.splits if_splits)
qed

lemma not_control_high: "0x80 \<le> b \<Longrightarrow> \<not> is_control b"
  by (auto simp: is_control_def in_range_def word_le_nat_alt)

lemma removeControlChars_valid: "utf8_Valid s \<Longrightarrow> utf8_Valid (removeControlChars s)"
proof (induction s rule: utf8_Valid_induct)
  case (Rune s)
  let ?n = "rune_len s"
  have split: "removeControlChars s = removeControlChars (take ?n s) @ removeControlChars (drop ?n s)"
    unfolding removeControlChars_def by (metis append_take_drop_id filter_append)
  show ?case
  proof (cases "?n = 1")
    case False
    with Rune.hyps(1) have "1 < ?n" by simp
    then have "removeControlChars (take ?n s) = take ?n s"
      using long_rune not_control_high by (auto simp: removeControlChars_def filter_id_conv)
    then show ?thesis using Rune.IH Rune.hyps(1) by (simp add: split utf8_Valid_append)
  next
    case True
    then obtain a r where s: "s = a # r" by (cases s) auto
    show ?thesis
    proof (cases "is_control a")
      case True
      then show ?thesis using Rune.IH \<open>?n = 1\<close> by (simp add: split s removeControlChars_def)
    next
      case False
      then have "removeControlChars (take ?n s) = take ?n s"
        using \<open>?n = 1\<close> by (simp add: s removeControlChars_def)
      then show ?thesis using Rune.IH Rune.hyps(1) by (simp add: split utf8_Valid_append)
    qed
  qed
qed (simp add: removeControlChars_def)

lemma SanitizeUTF8_alt: "SanitizeUTF8 data = removeControlChars (ToValidUTF8 data)"
  by (auto simp: SanitizeUTF8_def Let_def ToValidUTF8_valid ToValidUTF8_id)
    (simp add: ToValidUTF8.simps removeControlChars_def)

section \<open>Property\<close>

text \<open>
  C32: The sanitizer always returns valid UTF-8 without the control characters it names, as a
  subsequence of its input, and leaves a body of that kind as it is; its two fallback branches
  are never taken.
\<close>

theorem SanitizeUTF8_clean:
  "utf8_Valid (SanitizeUTF8 data) \<and> list_all (\<lambda>b. \<not> is_control b) (SanitizeUTF8 data) \<and>
   subseq (SanitizeUTF8 data) data \<and> SanitizeUTF8 (SanitizeUTF8 data) = SanitizeUTF8 data \<and>
   (SanitizeUTF8 data = data \<longleftrightarrow> utf8_Valid data \<and> list_all (\<lambda>b. \<not> is_control b) data) \<and>
   utf8_Valid (ToValidUTF8 data)"
proof -
  have v: "utf8_Valid (SanitizeUTF8 d)" "list_all (\<lambda>b. \<not> is_control b) (SanitizeUTF8 d)" for d
    by (simp_all add: SanitizeUTF8_alt removeControlChars_valid ToValidUTF8_valid)
      (simp add: removeControlChars_def list_all_iff)
  have id: "SanitizeUTF8 d = d" if "utf8_Valid d" "list_all (\<lambda>b. \<not> is_control b) d" for d
    using that by (simp add: SanitizeUTF8_alt ToValidUTF8_id removeControlChars_def list_all_iff filter_id_conv)
  have "subseq (SanitizeUTF8 data) data"
    unfolding SanitizeUTF8_alt removeControlChars_def
    using subseq_filter_left ToValidUTF8_subseq by (rule subseq_order.trans)
  moreover have "SanitizeUTF8 data = data \<longleftrightarrow> utf8_Valid data \<and> list_all (\<lambda>b. \<not> is_control b) data"
    using v [of data] id [of data] by (cases "SanitizeUTF8 data = data") auto
  ultimately show ?thesis using v id [OF v] by (simp add: ToValidUTF8_valid)
qed

end
