(* ===== verification/Sharded_Map.thy ===== *)
theory Sharded_Map
  imports Main
begin

text \<open>
  A map kept in shards: a list of maps, where a function of the key says in which of them the key
  is.  The stoppage filter and the rate limiter keep their states this way.  The contract asks only
  that the function stays below the number of shards; its lemmas say that the shards are one map.
\<close>

definition sharded_ok :: "nat \<Rightarrow> ('k \<Rightarrow> nat) \<Rightarrow> ('k \<rightharpoonup> 'v) list \<Rightarrow> bool" where
  "sharded_ok count idx ms \<longleftrightarrow> length ms = count \<and> (\<forall>i < count. \<forall>k \<in> dom (ms ! i). idx k = i)"

definition sharded_get :: "('k \<Rightarrow> nat) \<Rightarrow> ('k \<rightharpoonup> 'v) list \<Rightarrow> ('k \<rightharpoonup> 'v)" where
  "sharded_get idx ms k = (ms ! idx k) k"

definition sharded_put :: "('k \<Rightarrow> nat) \<Rightarrow> 'k \<Rightarrow> 'v \<Rightarrow> ('k \<rightharpoonup> 'v) list \<Rightarrow> ('k \<rightharpoonup> 'v) list" where
  "sharded_put idx k v ms = ms[idx k := (ms ! idx k)(k \<mapsto> v)]"

lemma foldl_map_add_agree:
  assumes "\<And>x. x \<in> set ms \<Longrightarrow> x k = None \<or> x k = v"
  shows "foldl (++) m ms k = (if \<exists>x \<in> set ms. x k \<noteq> None then v else m k)"
  using assms
proof (induction ms rule: rev_induct)
  case (snoc x xs)
  then have "foldl (++) m xs k = (if \<exists>x \<in> set xs. x k \<noteq> None then v else m k)" by simp
  moreover have "x k = None \<or> x k = v" by (rule snoc.prems) simp
  moreover have "(f ++ x) k = (if x k = None then f k else x k)" for f by (auto simp: map_add_def split: option.splits)
  ultimately show ?case by auto
qed simp

locale sharded_map =
  fixes count :: nat
    and idx :: "'k \<Rightarrow> nat"
  assumes idx_less: "idx k < count"
begin

lemma get_put:
  "sharded_ok count idx ms \<Longrightarrow> sharded_get idx (sharded_put idx k v ms) = (sharded_get idx ms)(k \<mapsto> v)"
  using idx_less by (auto simp: fun_eq_iff sharded_get_def sharded_put_def sharded_ok_def nth_list_update)

lemma ok_put: "sharded_ok count idx ms \<Longrightarrow> sharded_ok count idx (sharded_put idx k v ms)"
  using idx_less by (auto simp: sharded_ok_def sharded_put_def nth_list_update split: if_splits)

lemma ok_empty: "sharded_ok count idx (replicate count Map.empty)"
  by (simp add: sharded_ok_def)

lemma get_empty: "sharded_get idx (replicate count Map.empty) = Map.empty"
  using idx_less by (simp add: fun_eq_iff sharded_get_def)

lemma ok_sweep:
  assumes "sharded_ok count idx ms" and "\<And>m. dom (f m) \<subseteq> dom m"
  shows "sharded_ok count idx (map f ms)"
  using assms(1) subsetD [OF assms(2)] by (simp add: sharded_ok_def)

lemma get_sweep: "sharded_ok count idx ms \<Longrightarrow> sharded_get idx (map f ms) k = f (ms ! idx k) k"
  using idx_less by (simp add: sharded_ok_def sharded_get_def)

lemma only_shard:
  assumes "sharded_ok count idx ms" and "m \<in> set ms" and "m k \<noteq> None"
  shows "m k = sharded_get idx ms k"
proof -
  obtain i where "i < count" "m = ms ! i"
    using assms(1,2) by (auto simp: sharded_ok_def in_set_conv_nth)
  moreover from this have "idx k = i" using assms(1,3) by (auto simp: sharded_ok_def)
  ultimately show ?thesis by (simp add: sharded_get_def)
qed

lemma shard_mem: "sharded_ok count idx ms \<Longrightarrow> ms ! idx k \<in> set ms"
  using idx_less by (simp add: sharded_ok_def)

lemma get_merged:
  assumes "sharded_ok count idx ms"
  shows "foldl (++) Map.empty ms = sharded_get idx ms"
proof
  fix k
  have "foldl (++) Map.empty ms k = (if \<exists>x \<in> set ms. x k \<noteq> None then sharded_get idx ms k else None)"
    by (rule foldl_map_add_agree) (use only_shard [OF assms] in blast)
  then show "foldl (++) Map.empty ms k = sharded_get idx ms k"
    using shard_mem [OF assms, of k] by (auto simp: sharded_get_def)
qed

lemma card_get:
  assumes "sharded_ok count idx ms" and "\<And>m. m \<in> set ms \<Longrightarrow> finite (dom m)"
  shows "sum_list (map (\<lambda>m. card (dom m)) ms) = card (dom (sharded_get idx ms))"
proof -
  have len: "length ms = count" using assms(1) by (simp add: sharded_ok_def)
  have "dom (sharded_get idx ms) = (\<Union>i < count. dom (ms ! i))"
  proof (rule set_eqI)
    fix k
    have "idx k = i" if "i < count" "k \<in> dom (ms ! i)" for i
      using assms(1) that by (simp add: sharded_ok_def)
    then show "k \<in> dom (sharded_get idx ms) \<longleftrightarrow> k \<in> (\<Union>i < count. dom (ms ! i))"
      using idx_less [of k] by (auto simp: sharded_get_def dom_def)
  qed
  also have "card \<dots> = (\<Sum>i < count. card (dom (ms ! i)))"
  proof (rule card_UN_disjoint)
    show "\<forall>i\<in>{..<count}. finite (dom (ms ! i))" using assms(2) len by simp
    show "\<forall>i\<in>{..<count}. \<forall>j\<in>{..<count}. i \<noteq> j \<longrightarrow> dom (ms ! i) \<inter> dom (ms ! j) = {}"
    proof (intro ballI impI)
      fix i j
      assume "i \<in> {..<count}" and "j \<in> {..<count}" and "i \<noteq> j"
      moreover have "\<And>k i. i < count \<Longrightarrow> k \<in> dom (ms ! i) \<Longrightarrow> idx k = i"
        using assms(1) by (simp add: sharded_ok_def)
      ultimately have "k \<notin> dom (ms ! j)" if "k \<in> dom (ms ! i)" for k
        using that by (metis lessThan_iff)
      then show "dom (ms ! i) \<inter> dom (ms ! j) = {}" by blast
    qed
  qed simp
  finally show ?thesis using len by (simp add: sum_list_sum_nth atLeast0LessThan)
qed

end

end
