(* ===== verification/Stoppage_Filter.thy ===== *)
theory Stoppage_Filter
  imports Gps_Parser Sharded_Map
begin

text \<open>
  The stoppage filter (\<open>internal/filter/stoppage_filter.go\<close>): 256 shards, each a map from IMEI
  to whether the last record sent was a stoppage, the filter itself, and the copy of the state
  kept in Redis.  The abstract specification is one flat map.
\<close>

section \<open>Shards\<close>

text \<open>\<open>fnv.New32a\<close>: the 32-bit FNV-1a hash.\<close>

definition fnv32a :: "u8 list \<Rightarrow> u32" where
  "fnv32a bs = foldl (\<lambda>h b. (h XOR ucast b) * 16777619) 2166136261 bs"

definition shardCount :: nat where
  "shardCount = 256"

definition shardIndex :: "string \<Rightarrow> nat" where
  "shardIndex imei = unat (fnv32a (bytes_of imei)) mod shardCount"

record stoppageFilter =
  shards :: "(string \<rightharpoonup> bool) list"
  sf_enabled :: bool

definition shardForIMEI :: "stoppageFilter \<Rightarrow> string \<Rightarrow> (string \<rightharpoonup> bool)" where
  "shardForIMEI sf imei = shards sf ! shardIndex imei"

text \<open>\<open>shard.state[imei] = v\<close>.\<close>

definition set_state :: "stoppageFilter \<Rightarrow> string \<Rightarrow> bool \<Rightarrow> stoppageFilter" where
  "set_state sf imei v = sf\<lparr>shards :=
     (shards sf)[shardIndex imei := (shardForIMEI sf imei)(imei \<mapsto> v)]\<rparr>"

definition isStoppage :: "ParsedGPSData \<Rightarrow> bool" where
  "isStoppage record \<longleftrightarrow> Speed record = 0"

section \<open>The filter\<close>

definition filter_record :: "stoppageFilter \<Rightarrow> ParsedGPSData \<Rightarrow> bool \<times> stoppageFilter" where
  "filter_record sf record =
     (let imei = IMEI record; shard = shardForIMEI sf imei in
      if \<not> isStoppage record then (True, set_state sf imei False)
      else if shard imei = None \<or> shard imei = Some False then (True, set_state sf imei True)
      else (False, sf))"

fun FilterData_loop ::
  "ParsedGPSData list \<Rightarrow> ParsedGPSData list \<Rightarrow> stoppageFilter \<Rightarrow> ParsedGPSData list \<times> stoppageFilter" where
  "FilterData_loop [] filtered sf = (filtered, sf)"
| "FilterData_loop (record # data) filtered sf =
     (let (keep, sf') = filter_record sf record in
      FilterData_loop data (if keep then filtered @ [record] else filtered) sf')"

definition FilterData :: "stoppageFilter \<Rightarrow> ParsedGPSData list \<Rightarrow> ParsedGPSData list \<times> stoppageFilter" where
  "FilterData sf data =
     (if \<not> sf_enabled sf then (data, sf)
      else if length data = 0 then (data, sf)
      else FilterData_loop data [] sf)"

section \<open>Redis\<close>

definition redisKeyPrefix :: string where
  "redisKeyPrefix = ''stoppage_state:''"

text \<open>The maps of the shards, later ones over earlier ones, as the copying loop merges them.\<close>

definition stateCopy :: "stoppageFilter \<Rightarrow> (string \<rightharpoonup> bool)" where
  "stateCopy sf = foldl (++) Map.empty (shards sf)"

text \<open>
  \<open>syncToRedis\<close> with the strings of Redis as a map: \<open>exec_ok\<close> says whether the pipeline ran.  An
  empty state is not written.
\<close>

definition syncToRedis :: "stoppageFilter \<Rightarrow> bool \<Rightarrow> (string \<rightharpoonup> string) \<Rightarrow> (string \<rightharpoonup> string)" where
  "syncToRedis sf exec_ok redis =
     (if dom (stateCopy sf) = {} \<or> \<not> exec_ok then redis
      else (\<lambda>key. if HasPrefix key redisKeyPrefix
              then (case stateCopy sf (drop (length redisKeyPrefix) key) of
                      Some isStop \<Rightarrow> Some (if isStop then ''1'' else ''0'')
                    | None \<Rightarrow> redis key)
              else redis key))"

text \<open>
  One turn of the scan: an error of \<open>SCAN\<close>, an error of \<open>MGET\<close>, or the keys of the page with
  their values (\<open>None\<close> for \<open>nil\<close>); a page without keys makes no \<open>MGET\<close>.
\<close>

datatype scan_page = ScanError | MGetError | Page "(string \<times> string option) list"

fun load_page :: "(string \<times> string option) list \<Rightarrow> stoppageFilter \<Rightarrow> stoppageFilter" where
  "load_page [] sf = sf"
| "load_page ((key, value) # kvs) sf =
     (case value of
        None \<Rightarrow> load_page kvs sf
      | Some strVal \<Rightarrow> load_page kvs (set_state sf (drop (length redisKeyPrefix) key) (strVal = ''1'')))"

fun loadFromRedis :: "scan_page list \<Rightarrow> stoppageFilter \<Rightarrow> stoppageFilter" where
  "loadFromRedis [] sf = sf"
| "loadFromRedis (ScanError # ps) sf = sf"
| "loadFromRedis (MGetError # ps) sf = sf"
| "loadFromRedis (Page kvs # ps) sf = loadFromRedis ps (load_page kvs sf)"

definition NewStoppageFilter :: "bool \<Rightarrow> scan_page list \<Rightarrow> stoppageFilter" where
  "NewStoppageFilter enabled pages =
     loadFromRedis pages \<lparr>shards = replicate shardCount Map.empty, sf_enabled = enabled\<rparr>"

definition GetStateCount :: "stoppageFilter \<Rightarrow> nat" where
  "GetStateCount sf = sum_list (map (\<lambda>shard. card (dom shard)) (shards sf))"

definition ClearState :: "stoppageFilter \<Rightarrow> stoppageFilter" where
  "ClearState sf = sf\<lparr>shards := map (\<lambda>_. Map.empty) (shards sf)\<rparr>"

text \<open>The background goroutine: ticks write the state, cancellation writes it a last time.\<close>

datatype sync_event = Tick bool | Done bool

fun sync_loop :: "stoppageFilter \<Rightarrow> sync_event list \<Rightarrow> (string \<rightharpoonup> string) \<Rightarrow> (string \<rightharpoonup> string)" where
  "sync_loop sf [] redis = redis"
| "sync_loop sf (Tick ok # es) redis = sync_loop sf es (syncToRedis sf ok redis)"
| "sync_loop sf (Done ok # es) redis = syncToRedis sf ok redis"

definition Start :: "stoppageFilter \<Rightarrow> sync_event list \<Rightarrow> (string \<rightharpoonup> string) \<Rightarrow> (string \<rightharpoonup> string)" where
  "Start sf es redis = (if \<not> sf_enabled sf then redis else sync_loop sf es redis)"

section \<open>The well-formed states and their flat map\<close>

definition shards_ok :: "stoppageFilter \<Rightarrow> bool" where
  "shards_ok sf \<longleftrightarrow> sharded_ok shardCount shardIndex (shards sf)"

definition flat :: "stoppageFilter \<Rightarrow> (string \<rightharpoonup> bool)" where
  "flat sf = sharded_get shardIndex (shards sf)"

interpretation device_shards: sharded_map shardCount shardIndex
  by unfold_locales (simp add: shardIndex_def shardCount_def)

lemma shardForIMEI_flat: "shardForIMEI sf imei imei = flat sf imei"
  by (simp add: shardForIMEI_def flat_def sharded_get_def)

lemma shards_set_state: "shards (set_state sf imei v) = sharded_put shardIndex imei v (shards sf)"
  by (simp add: set_state_def shardForIMEI_def sharded_put_def)

lemma sf_enabled_set_state [simp]: "sf_enabled (set_state sf i v) = sf_enabled sf"
  by (simp add: set_state_def)

lemma shards_ok_set_state: "shards_ok sf \<Longrightarrow> shards_ok (set_state sf imei v)"
  by (simp add: shards_ok_def shards_set_state device_shards.ok_put)

lemma flat_set_state: "shards_ok sf \<Longrightarrow> flat (set_state sf imei v) = (flat sf)(imei \<mapsto> v)"
  by (simp add: shards_ok_def flat_def shards_set_state device_shards.get_put)

lemma shards_ok_fresh: "shards_ok \<lparr>shards = replicate shardCount Map.empty, sf_enabled = e\<rparr>"
  by (simp add: shards_ok_def device_shards.ok_empty)

lemma flat_fresh: "flat \<lparr>shards = replicate shardCount Map.empty, sf_enabled = e\<rparr> = Map.empty"
  by (simp add: flat_def device_shards.get_empty)

lemma stateCopy_flat: "shards_ok sf \<Longrightarrow> stateCopy sf = flat sf"
  by (simp add: shards_ok_def stateCopy_def flat_def device_shards.get_merged)

lemma ClearState_flat:
  assumes "shards_ok sf"
  shows "shards_ok (ClearState sf)" and "flat (ClearState sf) = Map.empty"
  using assms device_shards.ok_sweep [of "shards sf" "\<lambda>_. Map.empty"] device_shards.get_sweep [of "shards sf" "\<lambda>_. Map.empty"]
  by (auto simp: shards_ok_def flat_def ClearState_def fun_eq_iff)

lemma GetStateCount_flat:
  "shards_ok sf \<Longrightarrow> (\<And>m. m \<in> set (shards sf) \<Longrightarrow> finite (dom m)) \<Longrightarrow> GetStateCount sf = card (dom (flat sf))"
  by (simp add: shards_ok_def flat_def GetStateCount_def device_shards.card_get)

lemma shards_ok_filter_record: "shards_ok sf \<Longrightarrow> shards_ok (snd (filter_record sf r))"
  by (simp add: filter_record_def Let_def shards_ok_set_state)

lemma shards_ok_loop: "shards_ok sf \<Longrightarrow> shards_ok (snd (FilterData_loop data acc sf))"
proof (induction data acc sf rule: FilterData_loop.induct)
  case (2 r data acc sf)
  then show ?case using shards_ok_filter_record [of sf r] by (simp add: case_prod_beta Let_def)
qed simp

lemma shards_ok_load_page: "shards_ok sf \<Longrightarrow> shards_ok (load_page kvs sf)"
  by (induction kvs sf rule: load_page.induct) (auto simp: shards_ok_set_state split: option.splits)

lemma shards_ok_load: "shards_ok sf \<Longrightarrow> shards_ok (loadFromRedis ps sf)"
  by (induction ps sf rule: loadFromRedis.induct) (auto simp: shards_ok_load_page)

section \<open>The abstract filter\<close>

definition keep_abs :: "bool option \<Rightarrow> ParsedGPSData \<Rightarrow> bool" where
  "keep_abs prev r \<longleftrightarrow> \<not> isStoppage r \<or> prev \<noteq> Some True"

text \<open>
  The specification for one device: a record is kept unless it is a stoppage and the record
  before it was one too.
\<close>

definition keep_spec :: "bool option \<Rightarrow> ParsedGPSData list \<Rightarrow> ParsedGPSData list" where
  "keep_spec prev rs = map snd (filter (\<lambda>(p, r). keep_abs p r) (zip (prev # map (Some \<circ> isStoppage) rs) rs))"

lemma keep_spec_simps [simp]:
  "keep_spec prev [] = []"
  "keep_spec prev (r # rs) = (if keep_abs prev r then [r] else []) @ keep_spec (Some (isStoppage r)) rs"
  by (simp_all add: keep_spec_def)

lemma filter_record_flat:
  assumes "shards_ok sf"
  shows "fst (filter_record sf r) = keep_abs (flat sf (IMEI r)) r"
    and "flat (snd (filter_record sf r)) = (flat sf)(IMEI r \<mapsto> isStoppage r)"
proof -
  show "fst (filter_record sf r) = keep_abs (flat sf (IMEI r)) r"
    by (cases "flat sf (IMEI r)") (auto simp: filter_record_def keep_abs_def shardForIMEI_flat Let_def)
  have "flat sf (IMEI r) = Some True \<Longrightarrow> flat sf = (flat sf)(IMEI r \<mapsto> True)"
    by (auto simp: fun_eq_iff)
  then show "flat (snd (filter_record sf r)) = (flat sf)(IMEI r \<mapsto> isStoppage r)"
    using flat_set_state [OF assms]
    by (cases "flat sf (IMEI r)") (auto simp: filter_record_def shardForIMEI_flat Let_def)
qed

lemma FilterData_loop_spec:
  assumes "shards_ok sf"
  shows "filter (\<lambda>r. IMEI r = i) (fst (FilterData_loop data acc sf)) =
      filter (\<lambda>r. IMEI r = i) acc @ keep_spec (flat sf i) (filter (\<lambda>r. IMEI r = i) data)"
  using assms
proof (induction data arbitrary: acc sf)
  case (Cons r data)
  let ?sf = "snd (filter_record sf r)"
  have IH: "filter (\<lambda>r. IMEI r = i) (fst (FilterData_loop data acc' ?sf)) =
      filter (\<lambda>r. IMEI r = i) acc' @ keep_spec (flat ?sf i) (filter (\<lambda>r. IMEI r = i) data)" for acc'
    using Cons shards_ok_filter_record by blast
  show ?case
    using filter_record_flat [OF Cons.prems, of r] by (simp add: case_prod_beta Let_def IH)
qed simp

lemma FilterData_loop_subseq:
  "\<exists>kept. fst (FilterData_loop data acc sf) = acc @ kept \<and> subseq kept data"
proof (induction data arbitrary: acc sf)
  case (Cons r data)
  obtain keep sf' where f: "filter_record sf r = (keep, sf')" by (cases "filter_record sf r")
  obtain kept where k: "fst (FilterData_loop data (if keep then acc @ [r] else acc) sf') =
      (if keep then acc @ [r] else acc) @ kept" "subseq kept data" using Cons by blast
  then show ?case
    by (intro exI [of _ "(if keep then [r] else []) @ kept"]) (auto simp: f list_emb_Cons)
qed simp

section \<open>Properties\<close>

text \<open>
  C4: The sharded filter refines its specification for every device separately: projected to
  an IMEI, the output is the projected input without the stoppages that follow a stoppage,
  starting from the remembered state; the output is a subsequence of the input, so the order
  is kept; and the next call starts from the last record of each device.
\<close>

theorem FilterData_refines:
  assumes "shards_ok sf" and "sf_enabled sf" and "FilterData sf data = (out, sf')"
  shows "filter (\<lambda>r. IMEI r = i) out = keep_spec (flat sf i) (filter (\<lambda>r. IMEI r = i) data) \<and>
    subseq out data \<and> shards_ok sf' \<and>
    flat sf' i = (case rev (filter (\<lambda>r. IMEI r = i) data) of
        [] \<Rightarrow> flat sf i | r # _ \<Rightarrow> Some (isStoppage r))"
proof -
  have last: "flat (snd (FilterData_loop data acc sf)) i = (case rev (filter (\<lambda>r. IMEI r = i) data) of
        [] \<Rightarrow> flat sf i | r # _ \<Rightarrow> Some (isStoppage r))" if "shards_ok sf" for acc sf
    using that
  proof (induction data arbitrary: acc sf)
    case (Cons r data)
    then show ?case
      using filter_record_flat [of sf r] shards_ok_filter_record [of sf r]
      by (auto simp: case_prod_beta Let_def split: list.splits)
  qed simp
  have res: "(out, sf') = FilterData_loop data [] sf"
    using assms(2,3) by (cases data) (auto simp: FilterData_def)
  show ?thesis
    using FilterData_loop_spec [OF assms(1), of i data "[]"] FilterData_loop_subseq [of data "[]" sf]
      shards_ok_loop [OF assms(1), of data "[]"] last [OF assms(1), of "[]"]
    unfolding res [symmetric] by simp
qed

definition wanted :: "(string \<rightharpoonup> string) \<Rightarrow> (string \<rightharpoonup> bool)" where
  "wanted store imei = map_option (\<lambda>s. s = ''1'') (store (redisKeyPrefix @ imei))"

definition from_store :: "(string \<rightharpoonup> string) \<Rightarrow> (string \<times> string option) list \<Rightarrow> bool" where
  "from_store store kvs \<longleftrightarrow> (\<forall>(k, v) \<in> set kvs. HasPrefix k redisKeyPrefix \<and> v = store k)"

definition loaded :: "(string \<rightharpoonup> string) \<Rightarrow> (string \<times> string option) list \<Rightarrow> (string \<rightharpoonup> bool) \<Rightarrow> (string \<rightharpoonup> bool)" where
  "loaded store kvs m imei =
     (if redisKeyPrefix @ imei \<in> fst ` set kvs \<and> wanted store imei \<noteq> None then wanted store imei else m imei)"

lemma flat_load_page:
  "shards_ok s \<Longrightarrow> from_store store kvs \<Longrightarrow> flat (load_page kvs s) = loaded store kvs (flat s)"
proof (induction kvs arbitrary: s)
  case (Cons kv kvs)
  obtain k v where kv: "kv = (k, v)" by (cases kv)
  obtain j where k: "k = redisKeyPrefix @ j" and v: "v = store k" and rest: "from_store store kvs"
    using Cons.prems(2) kv by (auto simp: from_store_def HasPrefix_iff)
  show ?case
  proof (cases v)
    case None
    then show ?thesis using Cons.IH [OF Cons.prems(1) rest] v
      by (auto simp: kv k wanted_def fun_eq_iff loaded_def)
  next
    case (Some str)
    then have w: "wanted store j = Some (str = ''1'')" using v by (simp add: wanted_def k)
    have "flat (load_page kvs (set_state s j (str = ''1''))) =
        loaded store kvs (flat (set_state s j (str = ''1'')))"
      using Cons.prems(1) rest by (intro Cons.IH) (auto simp: shards_ok_set_state)
    then show ?thesis
      using Cons.prems(1) w Some by (auto simp: kv k fun_eq_iff flat_set_state loaded_def)
  qed
qed (simp add: loaded_def fun_eq_iff)

lemma flat_load:
  "shards_ok s \<Longrightarrow> from_store store (concat kvss) \<Longrightarrow>
   flat (loadFromRedis (map Page kvss) s) = loaded store (concat kvss) (flat s)"
proof (induction kvss arbitrary: s)
  case (Cons kvs kvss)
  then have fs: "from_store store kvs" "from_store store (concat kvss)" by (auto simp: from_store_def)
  have "flat (loadFromRedis (map Page kvss) (load_page kvs s)) = loaded store (concat kvss) (flat (load_page kvs s))"
    using Cons.prems(1) fs(2) by (intro Cons.IH) (auto simp: shards_ok_load_page)
  then show ?case using flat_load_page [OF Cons.prems(1) fs(1)] by (auto simp: fun_eq_iff loaded_def)
qed (simp add: loaded_def fun_eq_iff)


section \<open>Instances\<close>

definition rec_of :: "string \<Rightarrow> int \<Rightarrow> ParsedGPSData" where
  "rec_of imei speed = \<lparr>Coordinate = (Fin False 0, Fin False 0), Speed = speed, Status = 0,
     Directions = \<lparr>EW = 0, NS = 0\<rparr>, DateTime = [], IMEI = imei, RawData = []\<rparr>"

definition fresh_filter :: stoppageFilter where
  "fresh_filter = \<lparr>shards = replicate shardCount Map.empty, sf_enabled = True\<rparr>"

theorem FilterData_refines_witness:
  "\<exists>out sf'. FilterData fresh_filter [rec_of ''1'' 0, rec_of ''2'' 5, rec_of ''1'' 0, rec_of ''1'' 3] = (out, sf') \<and>
     filter (\<lambda>r. IMEI r = ''1'') out = [rec_of ''1'' 0, rec_of ''1'' 3] \<and> flat sf' ''1'' = Some False"
proof -
  let ?data = "[rec_of ''1'' 0, rec_of ''2'' 5, rec_of ''1'' 0, rec_of ''1'' 3]"
  obtain out sf' where o: "FilterData fresh_filter ?data = (out, sf')" by (cases "FilterData fresh_filter ?data")
  have "shards_ok fresh_filter" "sf_enabled fresh_filter" "flat fresh_filter = Map.empty"
    unfolding fresh_filter_def by (rule shards_ok_fresh, simp, rule flat_fresh)
  from FilterData_refines [OF this(1,2) o, of "''1''"] this(3) o show ?thesis
    by (auto simp: rec_of_def keep_abs_def isStoppage_def)
qed


end
