(* ===== verification/Http_Sender.thy ===== *)
theory Http_Sender
  imports Go_Strconv
begin

text \<open>
  The HTTP sender (\<open>internal/sender\<close>): the round-robin load balancer and \<open>Send\<close> with its
  attempts, rate-limit pauses, delays and results.  The clock, the rate limiters, the HTTP
  exchange, the context, the random numbers and \<open>http.ParseTime\<close> are operations of a \<open>world\<close>
  on a state of any type; what the code notifies and records is a log.
\<close>

section \<open>Load balancer (load_balancer.go)\<close>

record LoadBalancer =
  servers :: "string list"
  counter :: u64

definition NewLoadBalancer :: "string list \<Rightarrow> LoadBalancer" where
  "NewLoadBalancer ss = \<lparr>servers = ss, counter = 0\<rparr>"

definition NextServer :: "LoadBalancer \<Rightarrow> string \<times> LoadBalancer" where
  "NextServer lb =
     (if length (servers lb) = 0 then ([], lb)
      else let c = counter lb + 1; index = c - 1
           in (servers lb ! (unat index mod length (servers lb)), lb\<lparr>counter := c\<rparr>))"

definition GetServers :: "LoadBalancer \<Rightarrow> string list" where
  "GetServers lb = servers lb"

definition ServerCount :: "LoadBalancer \<Rightarrow> nat" where
  "ServerCount lb = length (servers lb)"

section \<open>State, errors and the outside world (http_sender.go)\<close>

datatype send_error =
    NoServers
  | RateLimited string int
  | LimiterWait
  | CreateRequest
  | SendRequest
  | BadStatus nat
  | ContextCancelled
  | MaxRetries "send_error option"

record SendResult =
  Success :: bool
  TargetServer :: string
  Attempt :: int
  Error :: "send_error option"

record HTTPSender =
  loadBalancer :: LoadBalancer
  MaxAttempts :: int
  DelayFirst :: int
  limiters :: "string \<rightharpoonup> int \<times> int"
  pausedUntil :: "string \<rightharpoonup> int"

datatype post_result = NotCreated | NotSent | Response nat string

record 'e world =
  w_now :: "'e \<Rightarrow> int \<times> 'e"
  w_wait :: "string \<Rightarrow> 'e \<Rightarrow> bool \<times> 'e"
  w_post :: "string \<Rightarrow> u8 list \<Rightarrow> 'e \<Rightarrow> post_result \<times> 'e"
  w_date :: "string \<Rightarrow> int option"
  w_sleep :: "int \<Rightarrow> 'e \<Rightarrow> bool \<times> 'e"
  w_rand :: "'e \<Rightarrow> float64 \<times> 'e"

datatype send_event =
    Attempted string nat int
  | RequestMetric string string
  | RetryMetric string nat
  | FailureMetric string
  | Paused string int
  | Slept int

record 'e send_state =
  sender :: HTTPSender
  env :: 'e
  send_log :: "send_event list"

definition emit :: "send_event \<Rightarrow> 'e send_state \<Rightarrow> 'e send_state" where
  "emit ev st = st\<lparr>send_log := send_log st @ [ev]\<rparr>"

text \<open>
  \<open>NewHTTPSender\<close>: a limiter (requests per second and burst) per server when a limit is set,
  every server unpaused; the zero \<open>time.Time\<close> is instant 0 here.
\<close>

definition NewHTTPSender :: "string list \<Rightarrow> int \<Rightarrow> int \<Rightarrow> int \<Rightarrow> int \<Rightarrow> HTTPSender" where
  "NewHTTPSender destinationServers requestsPerSecond burstSize maxAttempts delayFirst =
     (let burst = (if burstSize \<le> 0 then requestsPerSecond * 2 else burstSize) in
      \<lparr>loadBalancer = NewLoadBalancer destinationServers, MaxAttempts = maxAttempts,
       DelayFirst = delayFirst,
       limiters = (if requestsPerSecond > 0
         then (\<lambda>s. if s \<in> set destinationServers then Some (requestsPerSecond, burst) else None)
         else Map.empty),
       pausedUntil = (\<lambda>s. if s \<in> set destinationServers then Some 0 else None)\<rparr>)"

section \<open>Pausing and choosing a server\<close>

definition isPaused :: "HTTPSender \<Rightarrow> int \<Rightarrow> string \<Rightarrow> bool" where
  "isPaused s now server = (case pausedUntil s server of Some until \<Rightarrow> now < until | None \<Rightarrow> False)"

definition pauseServer :: "HTTPSender \<Rightarrow> string \<Rightarrow> int \<Rightarrow> HTTPSender" where
  "pauseServer s server until =
     (case pausedUntil s server of
        None \<Rightarrow> s\<lparr>pausedUntil := (pausedUntil s)(server \<mapsto> until)\<rparr>
      | Some existing \<Rightarrow>
          if until > existing then s\<lparr>pausedUntil := (pausedUntil s)(server \<mapsto> until)\<rparr> else s)"

text \<open>The result carries the time read by the check that let the server through.\<close>

fun nextAvailableServer ::
  "'e world \<Rightarrow> nat \<Rightarrow> 'e send_state \<Rightarrow> (string \<times> int) option \<times> 'e send_state" where
  "nextAvailableServer w 0 st = (None, st)"
| "nextAvailableServer w (Suc i) st =
     (let (candidate, lb) = NextServer (loadBalancer (sender st));
          (now, e) = w_now w (env st);
          st' = st\<lparr>sender := (sender st)\<lparr>loadBalancer := lb\<rparr>, env := e\<rparr>
      in if \<not> isPaused (sender st') now candidate then (Some (candidate, now), st')
         else nextAvailableServer w i st')"

section \<open>One exchange\<close>

definition saturate :: "int \<Rightarrow> int" where
  "saturate d = max (- (2 ^ 63)) (min (2 ^ 63 - 1) d)"

text \<open>\<open>time.Duration(seconds) * time.Second\<close> wraps at 64 bits; \<open>time.Until\<close> saturates.\<close>

definition parseRetryAfter :: "'e world \<Rightarrow> string \<Rightarrow> 'e \<Rightarrow> int \<times> 'e" where
  "parseRetryAfter w header e =
     (if header = [] then (0, e)
      else case Atoi header of
        (seconds, None) \<Rightarrow> (sint (word_of_int seconds * 1000000000 :: u64), e)
      | (_, Some _) \<Rightarrow>
          (case w_date w header of
             Some t \<Rightarrow> (let (now, e') = w_now w e; delay = saturate (t - now)
                        in (if delay < 0 then 0 else delay, e'))
           | None \<Rightarrow> (0, e)))"

definition sendToServer :: "'e world \<Rightarrow> HTTPSender \<Rightarrow> string \<Rightarrow> u8 list \<Rightarrow> 'e \<Rightarrow> send_error option \<times> 'e" where
  "sendToServer w s serverURL data e =
     (let (ok, e1) = (if limiters s serverURL \<noteq> None then w_wait w serverURL e else (True, e)) in
      if \<not> ok then (Some LimiterWait, e1)
      else let (res, e2) = w_post w serverURL data e1 in
        case res of
          NotCreated \<Rightarrow> (Some CreateRequest, e2)
        | NotSent \<Rightarrow> (Some SendRequest, e2)
        | Response code header \<Rightarrow>
            if code = 429
            then (let (ra, e3) = parseRetryAfter w header e2;
                      retryAfter = (if ra \<le> 0 then 5000000000 else ra)
                  in (Some (RateLimited serverURL retryAfter), e3))
            else if code < 200 \<or> code \<ge> 300 then (Some (BadStatus code), e2)
            else (None, e2))"

text \<open>
  The conversion of a float to a duration truncates; outside the 64-bit range Go leaves the
  result to the implementation: the argument \<open>ov\<close>.
\<close>

definition duration_of :: "int \<Rightarrow> float64 \<Rightarrow> int" where
  "duration_of ov f =
     (case f of
        Fin s a \<Rightarrow> (let t = (if s then - \<lfloor>a\<rfloor> else \<lfloor>a\<rfloor>) in if - (2 ^ 63) \<le> t \<and> t < 2 ^ 63 then t else ov)
      | _ \<Rightarrow> ov)"

definition maxDelay :: int where
  "maxDelay = 30000000000"

definition getRetryDelay :: "int \<Rightarrow> HTTPSender \<Rightarrow> nat \<Rightarrow> float64 \<Rightarrow> int" where
  "getRetryDelay ov s attempt rnd =
     (let base = DelayFirst s;
          ex = round64 False (2 ^ (attempt - 1));
          delay0 = duration_of ov (f_mul (f_of_int base) ex);
          delay = (if delay0 > maxDelay then maxDelay else delay0);
          jitter = f_mul (f_of_int delay) (Fin False (1 / 4))
      in duration_of ov (f_add (f_of_int delay)
           (f_mul (f_sub (f_mul rnd (Fin False 2)) (Fin False 1)) jitter)))"

section \<open>Send\<close>

definition send_exhausted ::
  "HTTPSender \<Rightarrow> send_error option \<Rightarrow> string \<Rightarrow> (string \<times> int) option \<Rightarrow> 'e send_state \<Rightarrow>
   SendResult \<times> 'e send_state" where
  "send_exhausted s lastErr lastServer rateLimitErr st =
     (case rateLimitErr of
        Some (server, ra) \<Rightarrow>
          (\<lparr>Success = False, TargetServer = server, Attempt = MaxAttempts s,
            Error = Some (RateLimited server ra)\<rparr>, emit (FailureMetric server) st)
      | None \<Rightarrow>
          (\<lparr>Success = False, TargetServer = lastServer, Attempt = MaxAttempts s,
            Error = Some (MaxRetries lastErr)\<rparr>, emit (FailureMetric lastServer) st))"

text \<open>
  The loop over the attempts: the first number is how many are left, the second the current
  one.
\<close>

primrec send_loop ::
  "'e world \<Rightarrow> int \<Rightarrow> nat \<Rightarrow> nat \<Rightarrow> u8 list \<Rightarrow> send_error option \<Rightarrow> string \<Rightarrow> (string \<times> int) option \<Rightarrow>
   'e send_state \<Rightarrow> SendResult \<times> 'e send_state" where
  "send_loop w ov 0 attempt data lastErr lastServer rl st =
     send_exhausted (sender st) lastErr lastServer rl st"
| "send_loop w ov (Suc left) attempt data lastErr lastServer rl st =
     (let (found, st1) = nextAvailableServer w (ServerCount (loadBalancer (sender st))) st in
      case found of
        None \<Rightarrow>
          (case rl of
             Some (server, ra) \<Rightarrow>
               (\<lparr>Success = False, TargetServer = server, Attempt = int attempt - 1,
                 Error = Some (RateLimited server ra)\<rparr>, st1)
           | None \<Rightarrow> send_exhausted (sender st1) lastErr lastServer rl st1)
      | Some (target, checked) \<Rightarrow>
          (let st2 = emit (Attempted target attempt checked) st1;
               (err, e3) = sendToServer w (sender st2) target data (env st2);
               st3 = st2\<lparr>env := e3\<rparr>
           in case err of
                None \<Rightarrow>
                  (\<lparr>Success = True, TargetServer = target, Attempt = int attempt, Error = None\<rparr>,
                   emit (RequestMetric target ''success'') st3)
              | Some (RateLimited server ra) \<Rightarrow>
                  (let (now, e4) = w_now w (env st3);
                       st4 = st3\<lparr>env := e4, sender := pauseServer (sender st3) target (now + ra)\<rparr>;
                       st5 = emit (RequestMetric target ''rate_limited'') (emit (Paused target (now + ra)) st4)
                   in send_loop w ov left (attempt + 1) data err target (Some (server, ra)) st5)
              | Some other \<Rightarrow>
                  (let st4 = emit (RequestMetric target ''error'') st3;
                       st5 = (if attempt > 1 then emit (RetryMetric target attempt) st4 else st4)
                   in if int attempt \<ge> MaxAttempts (sender st5)
                      then send_exhausted (sender st5) err target rl st5
                      else let (rnd, e6) = w_rand w (env st5);
                               delay = getRetryDelay ov (sender st5) attempt rnd;
                               (done, e7) = w_sleep w delay e6;
                               st7 = emit (Slept delay) (st5\<lparr>env := e7\<rparr>)
                           in if done
                              then (\<lparr>Success = False, TargetServer = target, Attempt = int attempt,
                                     Error = Some ContextCancelled\<rparr>, st7)
                              else send_loop w ov left (attempt + 1) data err target rl st7)))"

definition Send :: "'e world \<Rightarrow> int \<Rightarrow> u8 list \<Rightarrow> 'e send_state \<Rightarrow> SendResult \<times> 'e send_state" where
  "Send w ov data st =
     (if ServerCount (loadBalancer (sender st)) = 0
      then (\<lparr>Success = False, TargetServer = [], Attempt = 0, Error = Some NoServers\<rparr>, st)
      else send_loop w ov (nat (MaxAttempts (sender st))) 1 data None [] None st)"


section \<open>Facts about one attempt\<close>

lemma servers_NextServer [simp]: "servers (snd (NextServer lb)) = servers lb"
  by (simp add: NextServer_def Let_def)

lemma NextServer_mem: "servers lb \<noteq> [] \<Longrightarrow> fst (NextServer lb) \<in> set (servers lb)"
  by (simp add: NextServer_def Let_def)

text \<open>Choosing a server moves the counter and reads the clock, and changes nothing else.\<close>

lemma nextAvailableServer_frame:
  "nextAvailableServer w i st = (found, st') \<Longrightarrow>
   send_log st' = send_log st \<and> pausedUntil (sender st') = pausedUntil (sender st) \<and>
   MaxAttempts (sender st') = MaxAttempts (sender st) \<and> DelayFirst (sender st') = DelayFirst (sender st) \<and>
   servers (loadBalancer (sender st')) = servers (loadBalancer (sender st))"
proof (induction w i st rule: nextAvailableServer.induct)
  case (2 w i st)
  obtain c lb where n: "NextServer (loadBalancer (sender st)) = (c, lb)" by (cases "NextServer (loadBalancer (sender st))")
  obtain now e where t: "w_now w (env st) = (now, e)" by (cases "w_now w (env st)")
  have "servers lb = servers (loadBalancer (sender st))" using servers_NextServer [of "loadBalancer (sender st)"] n by simp
  with 2 n t show ?case by (auto simp: Let_def split: if_splits)
qed simp

lemma nextAvailableServer_found:
  "nextAvailableServer w i st = (Some (c, t), st') \<Longrightarrow> servers (loadBalancer (sender st)) \<noteq> [] \<Longrightarrow>
   \<not> isPaused (sender st') t c \<and> c \<in> set (servers (loadBalancer (sender st)))"
proof (induction w i st rule: nextAvailableServer.induct)
  case (2 w i st)
  obtain d lb where n: "NextServer (loadBalancer (sender st)) = (d, lb)" by (cases "NextServer (loadBalancer (sender st))")
  obtain now e where t: "w_now w (env st) = (now, e)" by (cases "w_now w (env st)")
  have d: "d \<in> set (servers (loadBalancer (sender st)))" "servers lb = servers (loadBalancer (sender st))"
    using NextServer_mem [OF 2(3)] servers_NextServer [of "loadBalancer (sender st)"] n by simp_all
  show ?case
  proof (cases "isPaused (sender st) now d")
    case False
    with 2(2) n t d show ?thesis by (auto simp: Let_def isPaused_def)
  next
    case True
    then have "nextAvailableServer w i (st\<lparr>sender := (sender st)\<lparr>loadBalancer := lb\<rparr>, env := e\<rparr>) = (Some (c, t), st')"
      using 2(2) n t by (simp add: Let_def isPaused_def)
    then show ?thesis
      using 2(1) [OF n [symmetric] refl t [symmetric] refl refl] True d 2(3) by (simp add: isPaused_def)
  qed
qed simp

lemma emit_simps [simp]:
  "sender (emit ev st) = sender st" "env (emit ev st) = env st" "send_log (emit ev st) = send_log st @ [ev]"
  by (simp_all add: emit_def)

lemma send_exhausted_log:
  "send_exhausted s le ls rl st = (res, st') \<Longrightarrow>
   \<not> Success res \<and> sender st' = sender st \<and> (\<exists>sv. send_log st' = send_log st @ [FailureMetric sv])"
  by (auto simp: send_exhausted_def split: option.splits)

lemma pauseServer_frame [simp]:
  "loadBalancer (pauseServer s x u) = loadBalancer s" "MaxAttempts (pauseServer s x u) = MaxAttempts s"
  by (simp_all add: pauseServer_def split: option.splits)

section \<open>A paused server is left alone\<close>

fun respects_pause :: "send_event \<Rightarrow> send_event \<Rightarrow> bool" where
  "respects_pause (Paused s u) (Attempted s' n t) \<longleftrightarrow> (s = s' \<longrightarrow> u \<le> t)"
| "respects_pause _ _ \<longleftrightarrow> True"

definition pause_inv :: "'e send_state \<Rightarrow> bool" where
  "pause_inv st \<longleftrightarrow> sorted_wrt respects_pause (send_log st) \<and>
     (\<forall>s u. Paused s u \<in> set (send_log st) \<longrightarrow> (\<exists>v. pausedUntil (sender st) s = Some v \<and> u \<le> v))"

lemma respects_pause_other: "(\<forall>s n t. ev \<noteq> Attempted s n t) \<Longrightarrow> respects_pause a ev"
  by (cases a; cases ev) auto

lemma pause_inv_emit_other:
  assumes "pause_inv st" and "\<forall>s n t. ev \<noteq> Attempted s n t" and "\<forall>s u. ev \<noteq> Paused s u"
  shows "pause_inv (emit ev st)"
  using assms respects_pause_other [OF assms(2)] by (auto simp: pause_inv_def sorted_wrt_append)

lemma pause_inv_env [simp]: "pause_inv (st\<lparr>env := e\<rparr>) = pause_inv st"
  by (simp add: pause_inv_def)

lemma pause_inv_attempt:
  assumes "pause_inv st" and "\<not> isPaused (sender st) t s"
  shows "pause_inv (emit (Attempted s n t) st)"
proof -
  have "respects_pause ev (Attempted s n t)" if mem: "ev \<in> set (send_log st)" for ev
  proof (cases ev)
    case (Paused x u)
    then obtain v where "pausedUntil (sender st) x = Some v" "u \<le> v"
      using assms(1) mem unfolding pause_inv_def by blast
    then show ?thesis using assms(2) by (auto simp: Paused isPaused_def)
  qed simp_all
  then show ?thesis using assms(1) by (auto simp: pause_inv_def sorted_wrt_append)
qed

lemma pause_inv_pause:
  assumes "pause_inv st"
  shows "pause_inv (emit (Paused s u) (st\<lparr>env := e, sender := pauseServer (sender st) s u\<rparr>))"
proof -
  have "\<exists>v. pausedUntil (pauseServer (sender st) s u) x = Some v \<and> k \<le> v"
    if "Paused x k \<in> set (send_log st) \<or> x = s \<and> k = u" for x k
  proof -
    have "Paused x k \<in> set (send_log st) \<Longrightarrow> \<exists>v. pausedUntil (sender st) x = Some v \<and> k \<le> v"
      using assms by (simp add: pause_inv_def)
    with that show ?thesis by (auto simp: pauseServer_def split: option.splits)
  qed
  then show ?thesis
    using assms respects_pause_other [of "Paused s u"] by (auto simp: pause_inv_def sorted_wrt_append)
qed

lemma pause_inv_next:
  assumes "pause_inv st" and "nextAvailableServer w i st = (found, st')"
  shows "pause_inv st'"
  using assms nextAvailableServer_frame [OF assms(2)] by (simp add: pause_inv_def)

lemmas pause_inv_intros = pause_inv_emit_other pause_inv_pause pause_inv_attempt

lemma pause_inv_exhausted:
  "pause_inv st \<Longrightarrow> pause_inv (snd (send_exhausted s le ls rl st))"
  by (auto simp: send_exhausted_def intro!: pause_inv_emit_other split: option.splits)

lemma pause_inv_loop:
  assumes "pause_inv st" and "servers (loadBalancer (sender st)) \<noteq> []"
  shows "pause_inv (snd (send_loop w ov left attempt data le ls rl st))"
  using assms
proof (induction left arbitrary: attempt le ls rl st)
  case 0
  then show ?case by (simp add: pause_inv_exhausted)
next
  case (Suc left)
  obtain found st1 where n: "nextAvailableServer w (ServerCount (loadBalancer (sender st))) st = (found, st1)"
    by fastforce
  note F = nextAvailableServer_frame [OF n] and inv1 = pause_inv_next [OF Suc.prems(1) n]
  show ?case
  proof (cases found)
    case None
    then show ?thesis using n inv1 pause_inv_exhausted [OF inv1] by (auto split: option.splits)
  next
    case (Some ct)
    obtain c t where ct: "ct = (c, t)" by (cases ct)
    let ?st2 = "emit (Attempted c attempt t) st1"
    obtain err e3 where x: "sendToServer w (sender ?st2) c data (env ?st2) = (err, e3)" by fastforce
    have "\<not> isPaused (sender st1) t c"
      using nextAvailableServer_found [of w _ st c t st1] n Some ct Suc.prems(2) by blast
    then have inv2: "pause_inv (?st2\<lparr>env := e3\<rparr>)" using inv1 by (simp add: pause_inv_attempt)
    have srv: "servers (loadBalancer (sender st1)) \<noteq> []" using F Suc.prems(2) by simp
    show ?thesis
    proof (cases err)
      case None
      then show ?thesis using n Some ct x inv2 by (simp add: pause_inv_emit_other Let_def)
    next
      case (Some er)
      let ?IH = "\<lambda>le rl st. pause_inv st \<longrightarrow> servers (loadBalancer (sender st)) \<noteq> [] \<longrightarrow>
        pause_inv (snd (send_loop w ov left (attempt + 1) data le c rl st))"
      have IH: "?IH le rl st" for le rl st using Suc.IH by blast
      have exh: "pause_inv (snd (send_exhausted s le c rl (emit (RequestMetric c m) (?st2\<lparr>env := e3\<rparr>))))"
        "pause_inv (snd (send_exhausted s le c rl (emit (RetryMetric c k) (emit (RequestMetric c m) (?st2\<lparr>env := e3\<rparr>)))))"
        for s le rl m k
        using inv2 by (intro pause_inv_exhausted pause_inv_emit_other; simp)+
      have ev: "pause_inv (emit (Slept d) ((emit (RequestMetric c m) (?st2\<lparr>env := e3\<rparr>))\<lparr>env := e\<rparr>))"
        "pause_inv (emit (Slept d) ((emit (RetryMetric c k) (emit (RequestMetric c m) (?st2\<lparr>env := e3\<rparr>)))\<lparr>env := e\<rparr>))"
        for d m k e
        using inv2 by (intro pause_inv_emit_other; simp add: pause_inv_emit_other)+
      have rl: "pause_inv (emit (RequestMetric c m) (emit (Paused c u)
          ((?st2\<lparr>env := e3\<rparr>)\<lparr>env := e, sender := pauseServer (sender (?st2\<lparr>env := e3\<rparr>)) c u\<rparr>)))" for m u e
        by (rule pause_inv_emit_other [OF pause_inv_pause [OF inv2]]) simp_all
      show ?thesis
        using n \<open>found = Some ct\<close> ct x Some srv IH exh ev rl
        by (cases er) (auto simp: Let_def case_prod_beta)
    qed
  qed
qed

section \<open>The attempts\<close>

fun attempts_of :: "send_event list \<Rightarrow> (string \<times> nat) list" where
  "attempts_of [] = []"
| "attempts_of (Attempted s n t # evs) = (s, n) # attempts_of evs"
| "attempts_of (_ # evs) = attempts_of evs"

lemma attempts_of_append [simp]: "attempts_of (xs @ ys) = attempts_of xs @ attempts_of ys"
  by (induction xs rule: attempts_of.induct) simp_all

text \<open>
  What one run of the loop adds to the log: consecutively numbered attempts on configured
  servers, no more than are left; a success names the last of them.
\<close>

definition loop_ok :: "nat \<Rightarrow> nat \<Rightarrow> string list \<Rightarrow> send_event list \<Rightarrow> SendResult \<times> 'e send_state \<Rightarrow> bool" where
  "loop_ok left attempt srvs log0 out \<longleftrightarrow>
     (\<exists>ss. attempts_of (send_log (snd out)) = attempts_of log0 @ zip ss [attempt ..< attempt + length ss] \<and>
       length ss \<le> left \<and> set ss \<subseteq> set srvs \<and>
       (Success (fst out) \<longrightarrow> ss \<noteq> [] \<and> TargetServer (fst out) = last ss \<and>
          Attempt (fst out) = int (attempt + length ss) - 1 \<and> Error (fst out) = None) \<and>
       (\<not> Success (fst out) \<longrightarrow> Error (fst out) \<noteq> None))"

lemma loop_ok_stop:
  assumes "attempts_of (send_log (snd out)) = attempts_of log0" and "\<not> Success (fst out)" "Error (fst out) \<noteq> None"
  shows "loop_ok left attempt srvs log0 out"
  using assms unfolding loop_ok_def by (intro exI [of _ "[]"]) auto

lemma loop_ok_one:
  assumes "attempts_of (send_log (snd out)) = attempts_of log0 @ [(c, attempt)]" and "c \<in> set srvs"
    and "if Success (fst out) then TargetServer (fst out) = c \<and> Attempt (fst out) = int attempt \<and> Error (fst out) = None
         else Error (fst out) \<noteq> None"
  shows "loop_ok (Suc left) attempt srvs log0 out"
  using assms unfolding loop_ok_def by (intro exI [of _ "[c]"]) (auto split: if_splits)

lemma loop_ok_more:
  assumes "loop_ok left (attempt + 1) srvs log1 out" and "attempts_of log1 = attempts_of log0 @ [(c, attempt)]"
    and "c \<in> set srvs"
  shows "loop_ok (Suc left) attempt srvs log0 out"
proof -
  obtain ss where ss: "attempts_of (send_log (snd out)) = attempts_of log1 @ zip ss [attempt + 1 ..< attempt + 1 + length ss]"
    "length ss \<le> left" "set ss \<subseteq> set srvs"
    "Success (fst out) \<longrightarrow> ss \<noteq> [] \<and> TargetServer (fst out) = last ss \<and>
       Attempt (fst out) = int (attempt + 1 + length ss) - 1 \<and> Error (fst out) = None"
    "\<not> Success (fst out) \<longrightarrow> Error (fst out) \<noteq> None"
    using assms(1) unfolding loop_ok_def by blast
  have "[attempt ..< attempt + length (c # ss)] = attempt # [attempt + 1 ..< attempt + 1 + length ss]"
    by (subst upt_conv_Cons) simp_all
  then show ?thesis
    unfolding loop_ok_def using ss assms(2,3) by (intro exI [of _ "c # ss"]) auto
qed

lemma send_exhausted_ok:
  "Success (fst (send_exhausted s le ls rl st)) = False" "\<exists>y. Error (fst (send_exhausted s le ls rl st)) = Some y"
  "attempts_of (send_log (snd (send_exhausted s le ls rl st))) = attempts_of (send_log st)"
  by (auto simp: send_exhausted_def split: option.splits)

lemma send_loop_ok:
  assumes "servers (loadBalancer (sender st)) = srvs" and "srvs \<noteq> []"
  shows "loop_ok left attempt srvs (send_log st) (send_loop w ov left attempt data le ls rl st)"
  using assms
proof (induction left arbitrary: attempt le ls rl st)
  case 0
  then show ?case by (simp add: loop_ok_stop send_exhausted_ok)
next
  case (Suc left)
  obtain found st1 where n: "nextAvailableServer w (ServerCount (loadBalancer (sender st))) st = (found, st1)"
    by fastforce
  note F = nextAvailableServer_frame [OF n]
  show ?case
  proof (cases found)
    case None
    then show ?thesis using n F
      by (cases rl) (auto intro!: loop_ok_stop simp: send_exhausted_ok)
  next
    case (Some ct)
    obtain c t where ct: "ct = (c, t)" by (cases ct)
    let ?st2 = "emit (Attempted c attempt t) st1"
    obtain err e3 where x: "sendToServer w (sender ?st2) c data (env ?st2) = (err, e3)" by fastforce
    have c: "c \<in> set srvs"
      using nextAvailableServer_found [of w _ st c t st1] n Some ct Suc.prems by blast
    have srv: "servers (loadBalancer (sender st1)) = srvs" using F Suc.prems(1) by simp
    have IH: "loop_ok (Suc left) attempt srvs (send_log st) (send_loop w ov left (Suc attempt) data le c rl st')"
      if "servers (loadBalancer (sender st')) = srvs" "attempts_of (send_log st') = attempts_of (send_log st) @ [(c, attempt)]"
      for le rl st'
      using loop_ok_more [OF Suc.IH [OF that(1) Suc.prems(2), of "attempt + 1"] that(2) c] by simp
    show ?thesis
    proof (cases err)
      case None
      then show ?thesis using n Some ct x F c by (auto simp: Let_def intro!: loop_ok_one)
    next
      case (Some er)
      let ?st3 = "?st2\<lparr>env := e3\<rparr>"
      have log3: "attempts_of (send_log ?st3) = attempts_of (send_log st) @ [(c, attempt)]" using F by simp
      show ?thesis
      proof (cases "\<exists>s r. er = RateLimited s r")
        case True
        then obtain s r where er: "er = RateLimited s r" by blast
        obtain now e4 where t: "w_now w e3 = (now, e4)" by fastforce
        let ?st5 = "emit (RequestMetric c ''rate_limited'') (emit (Paused c (now + r))
          (?st3\<lparr>env := e4, sender := pauseServer (sender ?st3) c (now + r)\<rparr>))"
        have "send_loop w ov (Suc left) attempt data le ls rl st =
            send_loop w ov left (Suc attempt) data err c (Some (s, r)) ?st5"
          using n \<open>found = Some ct\<close> ct x Some er t by (simp add: Let_def)
        then show ?thesis using IH [of ?st5] srv log3 by simp
      next
        case False
        let ?st4 = "emit (RequestMetric c ''error'') ?st3"
        define st5 where "st5 = (if attempt > 1 then emit (RetryMetric c attempt) ?st4 else ?st4)"
        have st5: "attempts_of (send_log st5) = attempts_of (send_log st) @ [(c, attempt)]"
          "servers (loadBalancer (sender st5)) = srvs" using log3 srv by (simp_all add: st5_def)
        obtain rnd e6 where r: "w_rand w (env st5) = (rnd, e6)" by fastforce
        let ?d = "getRetryDelay ov (sender st5) attempt rnd"
        obtain dn e7 where d: "w_sleep w ?d e6 = (dn, e7)" by fastforce
        let ?st7 = "emit (Slept ?d) (st5\<lparr>env := e7\<rparr>)"
        have eq: "send_loop w ov (Suc left) attempt data le ls rl st =
          (if int attempt \<ge> MaxAttempts (sender st5) then send_exhausted (sender st5) err c rl st5
           else if dn then (\<lparr>Success = False, TargetServer = c, Attempt = int attempt,
             Error = Some ContextCancelled\<rparr>, ?st7)
           else send_loop w ov left (Suc attempt) data err c rl ?st7)"
          using n \<open>found = Some ct\<close> ct x Some False r d unfolding st5_def
          by (cases "attempt > 1"; cases er; simp add: Let_def)
        show ?thesis unfolding eq
          using st5 c IH [of ?st7]
          by (auto simp: send_exhausted_ok intro!: loop_ok_one [where c = c])
      qed
    qed
  qed
qed

section \<open>Properties\<close>

text \<open>
  \<open>Send\<close> makes at most \<open>MaxAttempts\<close> attempts, numbered from 1 without gaps, each on a
  configured server; it reports success exactly when it reports no error, and then the result
  names the server and the number of the last attempt.
\<close>

theorem Send_attempts:
  assumes "Send w ov data st = (res, st')" and "send_log st = []"
  shows "\<exists>ss. attempts_of (send_log st') = zip ss [1 ..< 1 + length ss] \<and>
    length ss \<le> nat (MaxAttempts (sender st)) \<and> set ss \<subseteq> set (GetServers (loadBalancer (sender st))) \<and>
    (Success res \<longleftrightarrow> Error res = None) \<and>
    (Success res \<longrightarrow> ss \<noteq> [] \<and> TargetServer res = last ss \<and> Attempt res = int (length ss))"
proof (cases "servers (loadBalancer (sender st)) = []")
  case True
  then show ?thesis using assms
    by (intro exI [of _ "[]"]) (auto simp: Send_def ServerCount_def)
next
  case False
  then have out: "send_loop w ov (nat (MaxAttempts (sender st))) 1 data None [] None st = (res, st')"
    using assms(1) by (simp add: Send_def ServerCount_def)
  have "loop_ok (nat (MaxAttempts (sender st))) 1 (servers (loadBalancer (sender st))) [] (res, st')"
    using send_loop_ok [OF refl False, of "nat (MaxAttempts (sender st))" 1 w ov data None "[]" None]
    unfolding out assms(2) .
  then obtain ss where "attempts_of (send_log st') = zip ss [1 ..< 1 + length ss]"
    "length ss \<le> nat (MaxAttempts (sender st))" "set ss \<subseteq> set (servers (loadBalancer (sender st)))"
    "Success res \<longrightarrow> ss \<noteq> [] \<and> TargetServer res = last ss \<and> Attempt res = int (1 + length ss) - 1 \<and> Error res = None"
    "\<not> Success res \<longrightarrow> Error res \<noteq> None"
    unfolding loop_ok_def fst_conv snd_conv attempts_of.simps append_Nil by blast
  moreover from this(4) have "Success res \<longrightarrow> Attempt res = int (length ss)" by simp
  ultimately show ?thesis unfolding GetServers_def by (intro exI [of _ ss]) blast
qed


end
