(* ===== verification/Sender_Properties.thy ===== *)
theory Sender_Properties
  imports Http_Sender Coordinates
begin

text \<open>
  More properties of the sender: round-robin order, pauses, retry delays in floating point, and
  the instances of the properties of \<open>Send\<close>.
\<close>

section \<open>Round robin\<close>

fun next_servers :: "nat \<Rightarrow> LoadBalancer \<Rightarrow> string list" where
  "next_servers 0 lb = []"
| "next_servers (Suc k) lb = (let (s, lb') = NextServer lb in s # next_servers k lb')"

lemma next_servers_nth:
  assumes "servers lb \<noteq> []" and "unat (counter lb) + k \<le> 2 ^ 64"
  shows "next_servers k lb = map (\<lambda>i. servers lb ! ((unat (counter lb) + i) mod length (servers lb))) [0 ..< k]"
  using assms
proof (induction k arbitrary: lb)
  case (Suc k)
  let ?lb = "lb\<lparr>counter := counter lb + 1\<rparr>"
  have n: "NextServer lb = (servers lb ! (unat (counter lb) mod length (servers lb)), ?lb)"
    using Suc.prems(1) by (simp add: NextServer_def Let_def)
  have "[0 ..< Suc k] = 0 # map Suc [0 ..< k]" by (simp only: upt_conv_Cons zero_less_Suc map_Suc_upt)
  moreover have "next_servers k ?lb = map (\<lambda>i. servers lb ! ((unat (counter lb) + Suc i) mod length (servers lb))) [0 ..< k]"
  proof (cases "k = 0")
    case False
    then have u: "unat (counter lb + 1) = Suc (unat (counter lb))"
      using Suc.prems(2) by (simp add: unat_word_ariths)
    have "next_servers k ?lb = map (\<lambda>i. servers ?lb ! ((unat (counter ?lb) + i) mod length (servers ?lb))) [0 ..< k]"
      using Suc.prems u by (intro Suc.IH) simp_all
    then show ?thesis by (simp add: u)
  qed simp
  ultimately show ?case by (simp add: n)
qed simp

text \<open>
  Round robin: until the 64-bit counter wraps, as many consecutive calls as there are
  servers, made by whichever goroutines, return every server once, in the configured order
  rotated by the counter.
\<close>

theorem NextServer_fair:
  assumes "ServerCount lb > 0" and "unat (counter lb) + ServerCount lb \<le> 2 ^ 64"
  shows "next_servers (ServerCount lb) lb = rotate (unat (counter lb)) (GetServers lb) \<and>
    mset (next_servers (ServerCount lb) lb) = mset (GetServers lb)"
proof -
  have "next_servers (ServerCount lb) lb = rotate (unat (counter lb)) (servers lb)"
    using assms by (subst next_servers_nth) (auto simp: ServerCount_def nth_rotate intro!: nth_equalityI)
  moreover have "mset (rotate k xs) = mset xs" for k and xs :: "string list"
    unfolding rotate_drop_take by (metis append_take_drop_id mset_append union_commute)
  ultimately show ?thesis by (simp add: GetServers_def)
qed

theorem NextServer_fair_witness:
  "let lb = \<lparr>servers = [''a'', ''b'', ''c''], counter = 4\<rparr> in
   next_servers (ServerCount lb) lb = [''b'', ''c'', ''a'']"
proof -
  let ?lb = "\<lparr>servers = [''a'', ''b'', ''c''], counter = 4\<rparr>"
  have "ServerCount ?lb > 0" "unat (counter ?lb) + ServerCount ?lb \<le> 2 ^ 64" by (simp_all add: ServerCount_def)
  from NextServer_fair [OF this] show ?thesis
    unfolding Let_def by (simp add: GetServers_def rotate_drop_take)
qed

section \<open>Rate limits\<close>

text \<open>
  A rate-limit error names the server that answered, and its pause is positive and below
  \<open>2 ^ 63\<close> nanoseconds, whatever the \<open>Retry-After\<close> header says: a header whose seconds overflow the
  duration falls back to five seconds or to the wrapped value.
\<close>

theorem rate_limit_pause:
  assumes "sendToServer w s url data e = (Some (RateLimited server ra), e')"
  shows "server = url \<and> 0 < ra \<and> ra < 2 ^ 63"
proof -
  have "fst (parseRetryAfter w header e) < 2 ^ 63" for header e
  proof -
    have "sint (x :: u64) < 2 ^ 63" for x using sint_lt [of x] by simp
    then show ?thesis
      by (auto simp: parseRetryAfter_def saturate_def Let_def case_prod_beta split: option.splits)
  qed
  then show ?thesis
    using assms by (auto simp: sendToServer_def Let_def case_prod_beta split: post_result.splits if_splits)
qed

definition quiet_world :: "(post_result list) world" where
  "quiet_world = \<lparr>w_now = (\<lambda>e. (1000 - int (length e), e)), w_wait = (\<lambda>_ e. (True, e)),
     w_post = (\<lambda>_ _ e. case e of r # rs \<Rightarrow> (r, rs) | [] \<Rightarrow> (NotSent, [])), w_date = (\<lambda>_. None),
     w_sleep = (\<lambda>_ e. (False, e)), w_rand = (\<lambda>e. (Fin False 0, e))\<rparr>"

definition sample_sender :: HTTPSender where
  "sample_sender = NewHTTPSender [''a'', ''b''] 0 0 3 500000000"

theorem rate_limit_pause_witness:
  "\<exists>ra. fst (sendToServer quiet_world sample_sender ''a'' [] [Response 429 ''9223372037'']) = Some (RateLimited ''a'' ra) \<and>
     0 < ra \<and> ra < 2 ^ 63"
proof -
  obtain ra e' where s: "sendToServer quiet_world sample_sender ''a'' [] [Response 429 ''9223372037''] =
      (Some (RateLimited ''a'' ra), e')"
    by (simp add: sendToServer_def quiet_world_def sample_sender_def NewHTTPSender_def Let_def case_prod_beta)
  from rate_limit_pause [OF s] s show ?thesis by simp
qed

section \<open>Instances for Send\<close>

definition sample_run :: "SendResult \<times> post_result list send_state" where
  "sample_run = Send quiet_world 0 [] \<lparr>sender = sample_sender,
     env = [Response 429 ''5'', NotSent, Response 200 []], send_log = []\<rparr>"

theorem Send_attempts_witness:
  "\<exists>ss. attempts_of (send_log (snd sample_run)) = zip ss [1 ..< 1 + length ss] \<and> length ss \<le> 3 \<and>
     set ss \<subseteq> {''a'', ''b''}"
  using Send_attempts [of quiet_world 0 "[]" "\<lparr>sender = sample_sender,
     env = [Response 429 ''5'', NotSent, Response 200 []], send_log = []\<rparr>" "fst sample_run" "snd sample_run"]
  by (auto simp: sample_run_def sample_sender_def NewHTTPSender_def NewLoadBalancer_def GetServers_def Let_def)


text \<open>A clock that moves ten seconds with every reading, and one rate-limited answer.\<close>

definition slow_world :: "int world" where
  "slow_world = \<lparr>w_now = (\<lambda>e. (e * 10000000000, e + 1)), w_wait = (\<lambda>_ e. (True, e)),
     w_post = (\<lambda>_ _ e. (if e < 2 then Response 429 ''5'' else Response 200 [], e)), w_date = (\<lambda>_. None),
     w_sleep = (\<lambda>_ e. (False, e)), w_rand = (\<lambda>e. (Fin False 0, e))\<rparr>"


text \<open>
  When every server is paused before the first attempt, \<open>Send\<close> makes no attempt at all, and
  yet reports the last attempt number, no server and an error that wraps nothing, not the rate
  limit that paused the servers.
\<close>

theorem Send_all_paused:
  assumes "\<And>e srv. srv \<in> set (GetServers (loadBalancer (sender st))) \<Longrightarrow> isPaused (sender st) (fst (w_now w e)) srv"
    and "GetServers (loadBalancer (sender st)) \<noteq> []" and "0 < MaxAttempts (sender st)" and "send_log st = []"
  shows "\<exists>st'. Send w ov data st = (\<lparr>Success = False, TargetServer = [], Attempt = MaxAttempts (sender st),
    Error = Some (MaxRetries None)\<rparr>, st') \<and> attempts_of (send_log st') = []"
proof -
  have none: "fst (nextAvailableServer w i st') = None"
    if "servers (loadBalancer (sender st')) = servers (loadBalancer (sender st))"
      "pausedUntil (sender st') = pausedUntil (sender st)" for i st'
    using that
  proof (induction i arbitrary: st')
    case (Suc i)
    obtain c lb where n: "NextServer (loadBalancer (sender st')) = (c, lb)" by fastforce
    obtain now e where t: "w_now w (env st') = (now, e)" by fastforce
    have c: "c \<in> set (servers (loadBalancer (sender st)))" "servers lb = servers (loadBalancer (sender st))"
      using NextServer_mem [of "loadBalancer (sender st')"] servers_NextServer [of "loadBalancer (sender st')"]
        n Suc.prems assms(2) by (simp_all add: GetServers_def)
    then have "isPaused (sender st') now c"
      using assms(1) [of c "env st'"] t Suc.prems by (simp add: GetServers_def isPaused_def)
    moreover have "fst (nextAvailableServer w i (st'\<lparr>sender := (sender st')\<lparr>loadBalancer := lb\<rparr>, env := e\<rparr>)) = None"
      using Suc.prems c by (intro Suc.IH) simp_all
    ultimately show ?case using n t by (simp add: Let_def isPaused_def)
  qed simp
  obtain found st1 where n: "nextAvailableServer w (ServerCount (loadBalancer (sender st))) st = (found, st1)"
    by fastforce
  have f: "found = None" using none [of st "ServerCount (loadBalancer (sender st))"] n by simp
  obtain left where l: "nat (MaxAttempts (sender st)) = Suc left" using assms(3) by (metis Suc_nat_eq_nat_zadd1 gr0_conv_Suc zero_less_nat_eq)
  show ?thesis
    using n f l nextAvailableServer_frame [OF n] assms(2,4)
    by (auto simp: Send_def GetServers_def ServerCount_def send_exhausted_def)
qed

theorem Send_all_paused_witness:
  "\<exists>st'. Send quiet_world 0 [] \<lparr>sender = sample_sender\<lparr>pausedUntil := (\<lambda>_. Some 5000)\<rparr>, env = [], send_log = []\<rparr> =
    (\<lparr>Success = False, TargetServer = [], Attempt = 3, Error = Some (MaxRetries None)\<rparr>, st')"
  using Send_all_paused [of "\<lparr>sender = sample_sender\<lparr>pausedUntil := (\<lambda>_. Some 5000)\<rparr>, env = [], send_log = []\<rparr>"
      quiet_world 0 "[]"]
  by (auto simp: sample_sender_def NewHTTPSender_def NewLoadBalancer_def GetServers_def Let_def isPaused_def quiet_world_def)

end
