(* ===== verification/Retry_Delay.thy ===== *)
theory Retry_Delay
  imports Http_Sender Coordinates
begin

text \<open>
  The retry delay of the sender in floating point: a quarter more or less than the capped
  exponential delay, and therefore up to 37.5 seconds.
\<close>

lemma duration_of_near:
  assumes "0 \<le> r" and "r < 2 ^ 63"
  shows "duration_of ov (Fin False r) = \<lfloor>r\<rfloor>"
proof -
  have "0 \<le> \<lfloor>r\<rfloor>" "\<lfloor>r\<rfloor> < 2 ^ 63" using assms by (simp_all add: floor_less_iff)
  then show ?thesis by (simp add: duration_of_def Let_def)
qed

lemma is_double_scaled_up:
  assumes "0 \<le> k" and "k \<le> 2 ^ 53" and "0 \<le> e" and "e \<le> 900"
  shows "is_double (of_int k * pow2 e)"
proof -
  have "(of_int k :: rat) \<le> of_int (2 ^ 53)" using assms(2) by (simp only: of_int_le_iff)
  then have "of_int k * pow2 e \<le> pow2 53 * pow2 e" by (intro mult_right_mono) (simp_all add: pow2_def)
  also have "\<dots> = pow2 (53 + e)" by (simp only: pow2_add)
  also have "\<dots> < pow2 1024" using assms(4) by (intro pow2_less) simp
  finally have lt: "of_int k * pow2 e < pow2 1024" .
  show ?thesis unfolding is_double_def using assms lt by (intro conjI exI [of _ k] exI [of _ e]) auto
qed

lemma base_delay_exact:
  assumes "0 \<le> base" and "base \<le> 2 ^ 53" and "n \<le> 900" and "base * 2 ^ n < 2 ^ 63"
  shows "duration_of ov (f_mul (f_of_int base) (round64 False (2 ^ n))) = base * 2 ^ n"
proof -
  have p: "(2 :: rat) ^ n = of_int 1 * pow2 (int n)" by (simp add: pow2_def)
  have r: "round64 False (2 ^ n) = Fin False (2 ^ n)"
    using is_double_scaled_up [of 1 "int n"] assms(3) unfolding p
    by (intro round64_exact) (simp_all add: less_imp_le [OF pow2_pos])
  have b: "f_of_int base = Fin False (of_int base)" using assms(1,2) by (simp add: f_of_int_exact)
  have q: "of_int base * (2 :: rat) ^ n = of_int base * pow2 (int n)" by (simp add: pow2_def)
  have "round64 False (of_int base * 2 ^ n) = Fin False (of_int base * 2 ^ n)"
    using is_double_scaled_up [OF assms(1,2), of "int n"] assms(1,3) unfolding q
    by (intro round64_exact) (simp_all add: less_imp_le [OF pow2_pos])
  then have "f_mul (f_of_int base) (round64 False (2 ^ n)) = Fin False (of_int (base * 2 ^ n))" by (simp add: b r)
  moreover have "(0 :: rat) \<le> of_int (base * 2 ^ n)" using assms(1) by simp
  moreover have "(of_int (base * 2 ^ n) :: rat) < of_int (2 ^ 63)" using assms(4) by (simp only: of_int_less_iff)
  ultimately have "duration_of ov (f_mul (f_of_int base) (round64 False (2 ^ n))) = \<lfloor>of_int (base * 2 ^ n) :: rat\<rfloor>"
    using duration_of_near by simp
  then show ?thesis by (simp only: floor_of_int)
qed

lemma pow2_numerals':
  "pow2 2 = 4" "pow2 33 = 8589934592" "pow2 34 = 17179869184" "pow2 36 = 68719476736"
  "pow2 (1 - 54) = 1 / 9007199254740992" "pow2 (2 - 54) = 1 / 4503599627370496"
  "pow2 (33 - 54) = 1 / 2097152" "pow2 (34 - 54) = 1 / 1048576" "pow2 (36 - 54) = 1 / 262144"
  by (simp_all add: pow2_def)

text \<open>The random factor lies between minus one and one, up to rounding.\<close>

lemma jitter_factor:
  assumes "0 \<le> r" and "r < 1"
  obtains s m where "f_sub (f_mul (Fin False r) (Fin False 2)) (Fin False 1) = Fin s m"
    and "0 \<le> m" and "m \<le> 1 + 1 / 1000000000000"
proof -
  have b: "0 \<le> r * 2" "r * 2 < pow2 2" using assms unfolding pow2_numerals' by linarith+
  obtain t where t: "round64 False (r * 2) = Fin False t" "0 \<le> t" "\<bar>t - r * 2\<bar> \<le> pow2 (2 - 54)"
    by (rule round64_near [OF b, of False]) auto
  have v: "\<bar>t - 1\<bar> < pow2 1" "\<bar>t - 1\<bar> \<le> 1 + 1 / 4503599627370496"
    using t(2,3) assms unfolding pow2_numerals' pow2_numerals by linarith+
  obtain m where m: "round64 (t - 1 < 0) \<bar>t - 1\<bar> = Fin (t - 1 < 0) m" "0 \<le> m" "\<bar>m - \<bar>t - 1\<bar>\<bar> \<le> pow2 (1 - 54)"
    by (rule round64_near [of "\<bar>t - 1\<bar>" 1 "t - 1 < 0"]) (use v in auto)
  show thesis
  proof (cases "t = 1")
    case True
    then show thesis using that [of False 0] t(1) by (simp add: f_sub_def)
  next
    case False
    then have "f_sub (f_mul (Fin False r) (Fin False 2)) (Fin False 1) = Fin (t - 1 < 0) m"
      using t(1) m(1) by (simp add: f_sub_def)
    moreover have "m \<le> 1 + 1 / 1000000000000" using m(3) v(2) unfolding pow2_numerals by linarith
    ultimately show thesis using that m(2) by blast
  qed
qed

lemma jittered:
  assumes "0 \<le> D" and "D \<le> 30000000000" and "0 \<le> r" and "r < 1"
  shows "3 * D - 4 \<le> 4 * duration_of ov (f_add (f_of_int D)
      (f_mul (f_sub (f_mul (Fin False r) (Fin False 2)) (Fin False 1)) (f_mul (f_of_int D) (Fin False (1 / 4)))))"
    and "4 * duration_of ov (f_add (f_of_int D)
      (f_mul (f_sub (f_mul (Fin False r) (Fin False 2)) (Fin False 1)) (f_mul (f_of_int D) (Fin False (1 / 4))))) \<le> 5 * D"
proof -
  let ?D = "of_int D :: rat"
  have Dr: "0 \<le> ?D" "?D \<le> 30000000000" using assms(1,2) by (simp, metis of_int_le_iff of_int_numeral)
  have d: "f_of_int D = Fin False ?D" using assms by (simp add: f_of_int_exact)
  obtain s m where m: "f_sub (f_mul (Fin False r) (Fin False 2)) (Fin False 1) = Fin s m" "0 \<le> m"
    "m \<le> 1 + 1 / 1000000000000" by (rule jitter_factor [OF assms(3,4)])
  have b: "0 \<le> ?D * (1 / 4)" "?D * (1 / 4) < pow2 33" using Dr unfolding pow2_numerals' by linarith+
  obtain J where J: "round64 False (?D * (1 / 4)) = Fin False J" "0 \<le> J" "\<bar>J - ?D * (1 / 4)\<bar> \<le> pow2 (33 - 54)"
    by (rule round64_near [OF b, of False]) auto
  have "m * J \<le> (1 + 1 / 1000000000000) * J" using m(3) J(2) by (rule mult_right_mono)
  moreover have "(1 + 1 / 1000000000000) * J = J + J / 1000000000000" by (simp add: algebra_simps)
  moreover have Jb: "J \<le> 7500000001" using J(3) Dr unfolding pow2_numerals' by linarith
  ultimately have mJ1: "m * J \<le> J + 1 / 100" by linarith
  have mJ: "0 \<le> m * J" "m * J \<le> J + 1 / 100" "m * J < pow2 34"
    using mJ1 Jb m(2) J(2) unfolding pow2_numerals' by (simp, simp, linarith)
  obtain k where k: "round64 s (m * J) = Fin s k" "0 \<le> k" "\<bar>k - m * J\<bar> \<le> pow2 (34 - 54)"
    by (rule round64_near [OF mJ(1,3), of s]) auto
  have kb: "k \<le> ?D / 4 + 1 / 50" using k(3) mJ(2) J(3) unfolding pow2_numerals' by linarith
  let ?v = "?D + (if s then - k else k)"
  have e: "f_add (f_of_int D) (f_mul (Fin s m) (f_mul (f_of_int D) (Fin False (1 / 4)))) =
      (if ?v = 0 then Fin False 0 else round64 (?v < 0) \<bar>?v\<bar>)"
    using J(1) by (simp add: d k(1) Let_def)
  show "3 * D - 4 \<le> 4 * duration_of ov (f_add (f_of_int D)
      (f_mul (f_sub (f_mul (Fin False r) (Fin False 2)) (Fin False 1)) (f_mul (f_of_int D) (Fin False (1 / 4)))))"
    and "4 * duration_of ov (f_add (f_of_int D)
      (f_mul (f_sub (f_mul (Fin False r) (Fin False 2)) (Fin False 1)) (f_mul (f_of_int D) (Fin False (1 / 4))))) \<le> 5 * D"
    unfolding m(1) e
  proof -
    have zero: "D = 0 \<Longrightarrow> ?v = 0"
    proof -
      assume "D = 0"
      then have "J = 0" using J(1) by (simp add: round64_def)
      then have "k = 0" using k(1) by (simp add: round64_def)
      with \<open>D = 0\<close> show "?v = 0" by simp
    qed
    have one: "D \<noteq> 0 \<Longrightarrow> 1 \<le> ?D" using assms(1) by (simp add: order_less_le)
    have vb: "3 * ?D / 4 - 1 / 50 \<le> ?v" "?v \<le> 5 * ?D / 4 + 1 / 50" using kb k(2) Dr by (auto split: if_splits)
    let ?R = "duration_of ov (if ?v = 0 then Fin False 0 else round64 (?v < 0) \<bar>?v\<bar>)"
    have "3 * D - 4 \<le> 4 * ?R \<and> 4 * ?R \<le> 5 * D"
    proof (cases "?v = 0")
      case True
      then have "D = 0" using one vb by (cases "D = 0") auto
      then show ?thesis using True by (simp add: duration_of_def)
    next
      case False
      then have "D \<noteq> 0" using zero by blast
      then have pos: "0 < ?v" using one vb by linarith
      have lt: "0 \<le> ?v" "?v < pow2 36" using pos vb Dr unfolding pow2_numerals' by linarith+
      obtain R where R: "round64 False ?v = Fin False R" "0 \<le> R" "\<bar>R - ?v\<bar> \<le> pow2 (36 - 54)"
        by (rule round64_near [OF lt, of False]) auto
      have Rb: "3 * ?D / 4 - 1 / 40 \<le> R" "R \<le> 5 * ?D / 4 + 1 / 40"
        using R(3) vb unfolding pow2_numerals' by linarith+
      have "R < 2 ^ 63" using Rb Dr by simp
      then have f: "duration_of ov (Fin False R) = \<lfloor>R\<rfloor>" by (rule duration_of_near [OF R(2)])
      have "of_int (3 * D - 5) < (of_int (4 * \<lfloor>R\<rfloor>) :: rat)" "of_int (4 * \<lfloor>R\<rfloor>) < (of_int (5 * D + 1) :: rat)"
        using Rb floor_correct [of R] by (simp_all only: of_int_mult of_int_diff of_int_add of_int_numeral of_int_1; linarith)+
      then have "3 * D - 5 < 4 * \<lfloor>R\<rfloor>" "4 * \<lfloor>R\<rfloor> < 5 * D + 1" by (simp_all only: of_int_less_iff)
      then show ?thesis using False pos R(1) f by simp
    qed
    then show "3 * D - 4 \<le> 4 * ?R" "4 * ?R \<le> 5 * D" by blast+
  qed
qed

text \<open>
  C34: The delay before a retry is within a quarter of the exponential delay capped at thirty
  seconds, up to one nanosecond, in the floating-point arithmetic of the code, as long as the
  uncapped delay fits a duration; it can never exceed 37.5 seconds.
\<close>

theorem getRetryDelay_bounds:
  assumes "0 \<le> DelayFirst s" and "DelayFirst s \<le> 2 ^ 53" and "1 \<le> attempt" and "attempt \<le> 900"
    and "DelayFirst s * 2 ^ (attempt - 1) < 2 ^ 63" and "0 \<le> r" and "r < 1"
    and "D = min (DelayFirst s * 2 ^ (attempt - 1)) maxDelay"
  shows "3 * D - 4 \<le> 4 * getRetryDelay ov s attempt (Fin False r) \<and>
    4 * getRetryDelay ov s attempt (Fin False r) \<le> 5 * D \<and>
    getRetryDelay ov s attempt (Fin False r) \<le> 37500000000"
proof -
  have base: "duration_of ov (f_mul (f_of_int (DelayFirst s)) (round64 False (2 ^ (attempt - 1)))) =
      DelayFirst s * 2 ^ (attempt - 1)"
    using assms(1-5) by (intro base_delay_exact) auto
  have eq: "getRetryDelay ov s attempt (Fin False r) = duration_of ov (f_add (f_of_int D)
      (f_mul (f_sub (f_mul (Fin False r) (Fin False 2)) (Fin False 1)) (f_mul (f_of_int D) (Fin False (1 / 4)))))"
    unfolding getRetryDelay_def Let_def base assms(8) min_def by (simp add: not_less)
  have D: "0 \<le> D" "D \<le> 30000000000" using assms(1,8) by (simp_all add: maxDelay_def)
  have "3 * D - 4 \<le> 4 * getRetryDelay ov s attempt (Fin False r)"
    "4 * getRetryDelay ov s attempt (Fin False r) \<le> 5 * D"
    unfolding eq by (rule jittered [OF D assms(6,7)])+
  then show ?thesis using D(2) by linarith
qed

text \<open>A first delay of a minute, as an operator may configure it, at the third attempt.\<close>

definition minute_sender :: HTTPSender where
  "minute_sender = NewHTTPSender [''http://a/''] 0 0 5 60000000000"

theorem getRetryDelay_bounds_witness:
  "3 * 30000000000 - 4 \<le> 4 * getRetryDelay 0 minute_sender 3 (Fin False (3 / 4)) \<and>
   4 * getRetryDelay 0 minute_sender 3 (Fin False (3 / 4)) \<le> 5 * 30000000000 \<and>
   getRetryDelay 0 minute_sender 3 (Fin False (3 / 4)) \<le> 37500000000"
  by (rule getRetryDelay_bounds) (simp_all add: minute_sender_def NewHTTPSender_def Let_def maxDelay_def)

end
