(* ===== verification/Go_Duration.thy ===== *)
theory Go_Duration
  imports Go_Strconv
begin

text \<open>
  \<open>time.ParseDuration\<close> of Go's standard library, as the configuration uses it: a sequence of
  decimal numbers with units, in nanoseconds, with its overflow tests and the floating-point
  product for the fraction.
\<close>

text \<open>\<open>leadingInt\<close>: the leading digits; \<open>None\<close> when they pass \<open>2 ^ 63\<close>.\<close>

fun leadingInt :: "string \<Rightarrow> nat \<Rightarrow> (nat \<times> string) option" where
  "leadingInt [] x = Some (x, [])"
| "leadingInt (c # cs) x =
     (if \<not> is_digit c then Some (x, c # cs)
      else if x > 2 ^ 63 div 10 then None
      else let y = x * 10 + digit_of c in if y > 2 ^ 63 then None else leadingInt cs y)"

text \<open>\<open>leadingFraction\<close>: digits after an overflow are skipped.\<close>

fun leadingFraction :: "string \<Rightarrow> nat \<Rightarrow> float64 \<Rightarrow> bool \<Rightarrow> nat \<times> float64 \<times> string" where
  "leadingFraction [] x scale ov = (x, scale, [])"
| "leadingFraction (c # cs) x scale ov =
     (if \<not> is_digit c then (x, scale, c # cs)
      else if ov then leadingFraction cs x scale ov
      else if x > (2 ^ 63 - 1) div 10 then leadingFraction cs x scale True
      else let y = x * 10 + digit_of c in
           if y > 2 ^ 63 then leadingFraction cs x scale True
           else leadingFraction cs y (f_mul scale (Fin False 10)) ov)"

definition unitMap :: "string \<rightharpoonup> nat" where
  "unitMap = map_of
     [(''ns'', 1), (''us'', 1000), (string_of [0xC2, 0xB5, 0x73], 1000), (string_of [0xCE, 0xBC, 0x73], 1000),
      (''ms'', 1000000), (''s'', 1000000000), (''m'', 60000000000), (''h'', 3600000000000)]"

definition unit_char :: "char \<Rightarrow> bool" where
  "unit_char c \<longleftrightarrow> c \<noteq> CHR ''.'' \<and> \<not> is_digit c"

text \<open>\<open>uint64(float64(f) * (float64(unit) / scale))\<close>; the product is below an hour.\<close>

definition fraction_ns :: "nat \<Rightarrow> nat \<Rightarrow> float64 \<Rightarrow> nat" where
  "fraction_ns f unit scale =
     (case f_mul (f_of_int (int f)) (f_div (f_of_int (int unit)) scale) of
        Fin s q \<Rightarrow> nat \<lfloor>q\<rfloor> | _ \<Rightarrow> 0)"

definition fraction_part :: "string \<Rightarrow> nat \<times> float64 \<times> string \<times> bool" where
  "fraction_part s1 =
     (case s1 of
        d # s1' \<Rightarrow>
          if d = CHR ''.'' then
            (let (f, scale, r) = leadingFraction s1' 0 (Fin False 1) False
             in (f, scale, r, length s1' \<noteq> length r))
          else (0, Fin False 1, s1, False)
      | [] \<Rightarrow> (0, Fin False 1, s1, False))"

text \<open>One number with its unit: its nanoseconds and the rest.\<close>

definition duration_item :: "string \<Rightarrow> (nat \<times> string) option" where
  "duration_item s =
     (case s of
        [] \<Rightarrow> None
      | c # _ \<Rightarrow>
          if \<not> (c = CHR ''.'' \<or> is_digit c) then None
          else case leadingInt s 0 of
            None \<Rightarrow> None
          | Some (v, s1) \<Rightarrow>
              let pre = (length s \<noteq> length s1);
                  (f, scale, s2, post) = fraction_part s1;
                  u = takeWhile unit_char s2; s3 = dropWhile unit_char s2
              in if \<not> pre \<and> \<not> post then None
                 else if u = [] then None
                 else case unitMap u of
                   None \<Rightarrow> None
                 | Some unit \<Rightarrow>
                     if v > 2 ^ 63 div unit then None
                     else let w = v * unit + (if f > 0 then fraction_ns f unit scale else 0)
                          in if f > 0 \<and> w > 2 ^ 63 then None else Some (w, s3))"

lemma length_leadingInt: "leadingInt s x = Some (v, r) \<Longrightarrow> length r \<le> length s"
  by (induction s x rule: leadingInt.induct) (fastforce simp: Let_def split: if_splits)+

lemma length_leadingFraction: "leadingFraction s x sc ov = (f, sc', r) \<Longrightarrow> length r \<le> length s"
  by (induction s x sc ov rule: leadingFraction.induct) (fastforce simp: Let_def split: if_splits)+

lemma length_fraction_part: "fraction_part s = (f, sc, r, post) \<Longrightarrow> length r \<le> length s"
  by (auto simp: fraction_part_def le_SucI split: list.splits if_splits prod.splits dest: length_leadingFraction)

lemma duration_item_shorter:
  assumes "duration_item s = Some (w, r)"
  shows "length r < length s"
proof -
  obtain v s1 where v: "leadingInt s 0 = Some (v, s1)"
    using assms by (cases s) (auto simp: duration_item_def simp del: leadingInt.simps split: if_splits option.splits)
  obtain f sc s2 post where f: "fraction_part s1 = (f, sc, s2, post)" by (metis prod_cases4)
  have "takeWhile unit_char s2 \<noteq> [] \<and> r = dropWhile unit_char s2"
    using assms v f by (cases s) (auto simp: duration_item_def Let_def simp del: leadingInt.simps split: if_splits option.splits)
  moreover have "takeWhile unit_char s2 \<noteq> [] \<Longrightarrow> length (dropWhile unit_char s2) < length s2"
    by (metis length_append length_greater_0_conv less_add_same_cancel2 takeWhile_dropWhile_id)
  ultimately show ?thesis using length_leadingInt [OF v] length_fraction_part [OF f] by simp
qed

function duration_items :: "string \<Rightarrow> nat \<Rightarrow> nat option" where
  "duration_items s d =
     (if s = [] then Some d
      else case duration_item s of
        None \<Rightarrow> None
      | Some (v, r) \<Rightarrow>
          (let d' = (d + v) mod 2 ^ 64 in if d' > 2 ^ 63 then None else duration_items r d'))"
  by pat_completeness auto

termination duration_items
  by (relation "measure (\<lambda>(s, _). length s)") (auto dest: duration_item_shorter)

declare duration_items.simps [simp del]

definition ParseDuration :: "string \<Rightarrow> int option" where
  "ParseDuration s =
     (let (neg, r) = strip_sign s in
      if r = ''0'' then Some 0
      else if r = [] then None
      else case duration_items r 0 of
        None \<Rightarrow> None
      | Some d \<Rightarrow> if neg then Some (- int d) else if d > 2 ^ 63 - 1 then None else Some (int d))"

text \<open>A parsed duration fits 64 bits.\<close>

lemma duration_items_bound: "duration_items s d = Some n \<Longrightarrow> d \<le> 2 ^ 63 \<Longrightarrow> n \<le> 2 ^ 63"
proof (induction s d rule: duration_items.induct)
  case (1 s d)
  then show ?case
    by (subst (asm) (2) duration_items.simps)
       (fastforce simp: Let_def split: if_splits option.splits prod.splits)
qed

lemma ParseDuration_range: "ParseDuration s = Some d \<Longrightarrow> - (2 ^ 63) \<le> d \<and> d < 2 ^ 63"
  using duration_items_bound [of _ 0]
  by (fastforce simp: ParseDuration_def Let_def split: prod.splits if_splits option.splits)

end
