(* ===== verification/Config.thy ===== *)
theory Config
  imports Go_Duration Go_Time
begin

text \<open>
  The configuration (\<open>internal/config/config.go\<close>): environment variables with defaults, the
  validation of \<open>Load\<close>, the Redis address and the PostgreSQL connection string.  The environment,
  after \<open>godotenv.Load\<close>, is a function from names to values, empty when unset.
\<close>

section \<open>Records\<close>

record HooshnicsConfig =
  hc_Enabled :: bool
  hc_AuthToken :: string
  hc_RawURL :: string
  hc_ParsedURL :: string
  hc_BufferSize :: int
  hc_SpillDir :: string
  hc_Timeout :: int
  hc_Workers :: int

record ServerConfig =
  srv_Port :: string
  srv_Host :: string
  srv_RequestTimeout :: int
  srv_MaxRequestSize :: int

record RedisConfig =
  rc_Host :: string
  rc_Port :: string
  rc_Password :: string
  rc_DB :: int
  rc_StreamName :: string
  rc_ConsumerGroup :: string
  rc_MaxLen :: int
  rc_PoolSize :: int
  rc_QueueBackpressureLimit :: int

record WorkerConfig =
  wc_Count :: int
  wc_BatchSize :: int

record RetryConfig =
  ry_MaxAttempts :: int
  ry_DelayFirst :: int
  ry_DelaySubsequent :: int

record HTTPConfig =
  http_Timeout :: int
  http_MaxIdleConns :: int
  http_MaxConnsPerHost :: int
  http_DestinationServers :: "string list"

record RateLimitConfig =
  rl_RequestsPerSecond :: int
  rl_Burst :: int

record OutgoingRateLimitConfig =
  orl_RequestsPerSecond :: int
  orl_BurstSize :: int

record LoggingConfig =
  log_Level :: string
  log_Format :: string

record FilterConfig =
  fc_Enabled :: bool
  fc_RedisSyncInterval :: int

record TrackingConfig =
  tc_Enabled :: bool
  tc_SampleRate :: float64
  tc_MaxRequests :: int

record PostgresConfig =
  pg_Enabled :: bool
  pg_Host :: string
  pg_Port :: string
  pg_User :: string
  pg_Password :: string
  pg_DBName :: string
  pg_SSLMode :: string

record TeltonikaConfig =
  tk_TCPEnabled :: bool
  tk_TCPHost :: string
  tk_TCPPort :: string
  tk_TimezoneOffset :: int
  tk_IMEIWhitelist :: "string list"

record Config =
  cfg_Server :: ServerConfig
  cfg_Redis :: RedisConfig
  cfg_Worker :: WorkerConfig
  cfg_Retry :: RetryConfig
  cfg_HTTP :: HTTPConfig
  cfg_RateLimit :: RateLimitConfig
  cfg_OutgoingRateLimit :: OutgoingRateLimitConfig
  cfg_Logging :: LoggingConfig
  cfg_Filter :: FilterConfig
  cfg_Tracking :: TrackingConfig
  cfg_Postgres :: PostgresConfig
  cfg_Teltonika :: TeltonikaConfig
  cfg_Hooshnics :: HooshnicsConfig

section \<open>Reading variables\<close>

abbreviation Millisecond :: int where "Millisecond \<equiv> 1000000"

type_synonym environ = "string \<Rightarrow> string"

definition getEnv :: "environ \<Rightarrow> string \<Rightarrow> string \<Rightarrow> string" where
  "getEnv env key defaultValue = (let value = env key in if value = [] then defaultValue else value)"

fun getEnvAny :: "environ \<Rightarrow> string list \<Rightarrow> string \<Rightarrow> string" where
  "getEnvAny env [] defaultValue = defaultValue"
| "getEnvAny env (key # keys) defaultValue =
     (if env key \<noteq> [] then env key else getEnvAny env keys defaultValue)"

fun getBoolAny :: "environ \<Rightarrow> string list \<Rightarrow> bool \<Rightarrow> bool" where
  "getBoolAny env [] defaultValue = defaultValue"
| "getBoolAny env (key # keys) defaultValue =
     (if env key = [] then getBoolAny env keys defaultValue
      else case ParseBool (env key) of
        None \<Rightarrow> getBoolAny env keys defaultValue
      | Some value \<Rightarrow> value)"

fun getIntAny :: "environ \<Rightarrow> string list \<Rightarrow> int \<Rightarrow> int" where
  "getIntAny env [] defaultValue = defaultValue"
| "getIntAny env (key # keys) defaultValue =
     (if env key = [] then getIntAny env keys defaultValue
      else case Atoi (env key) of
        (_, Some _) \<Rightarrow> getIntAny env keys defaultValue
      | (value, None) \<Rightarrow> value)"

fun getDurationAny :: "environ \<Rightarrow> string list \<Rightarrow> int \<Rightarrow> int" where
  "getDurationAny env [] defaultValue = defaultValue"
| "getDurationAny env (key # keys) defaultValue =
     (if env key = [] then getDurationAny env keys defaultValue
      else case ParseDuration (env key) of
        None \<Rightarrow> getDurationAny env keys defaultValue
      | Some value \<Rightarrow> value)"

definition getInt :: "environ \<Rightarrow> string \<Rightarrow> int \<Rightarrow> int" where
  "getInt env key defaultValue =
     (if env key = [] then defaultValue
      else case Atoi (env key) of (_, Some _) \<Rightarrow> defaultValue | (value, None) \<Rightarrow> value)"

text \<open>\<open>ParseInt(s, 10, 64)\<close> accepts and rejects the same strings as \<open>Atoi\<close> on 64-bit platforms.\<close>

definition getInt64 :: "environ \<Rightarrow> string \<Rightarrow> int \<Rightarrow> int" where
  "getInt64 env key defaultValue =
     (if env key = [] then defaultValue
      else case Atoi (env key) of (_, Some _) \<Rightarrow> defaultValue | (value, None) \<Rightarrow> value)"

definition getDuration :: "environ \<Rightarrow> string \<Rightarrow> int \<Rightarrow> int" where
  "getDuration env key defaultValue =
     (if env key = [] then defaultValue
      else case ParseDuration (env key) of None \<Rightarrow> defaultValue | Some value \<Rightarrow> value)"

definition getSlice :: "environ \<Rightarrow> string \<Rightarrow> string list \<Rightarrow> string list" where
  "getSlice env key defaultValue =
     (if env key = [] then defaultValue
      else filter (\<lambda>trimmed. trimmed \<noteq> []) (map TrimSpace (Split (CHR '','') (env key))))"

definition getBool :: "environ \<Rightarrow> string \<Rightarrow> bool \<Rightarrow> bool" where
  "getBool env key defaultValue =
     (if env key = [] then defaultValue
      else case ParseBool (env key) of None \<Rightarrow> defaultValue | Some value \<Rightarrow> value)"

definition getFloat64 :: "environ \<Rightarrow> string \<Rightarrow> float64 \<Rightarrow> float64" where
  "getFloat64 env key defaultValue =
     (if env key = [] then defaultValue
      else case ParseFloat (env key) of (_, Some _) \<Rightarrow> defaultValue | (value, None) \<Rightarrow> value)"

section \<open>Load\<close>

text \<open>The literal that \<open>Load\<close> builds before it validates.\<close>

definition read_config :: "environ \<Rightarrow> Config" where
  "read_config env =
     \<lparr>cfg_Server =
        \<lparr>srv_Port = getEnv env ''SERVER_PORT'' ''8080'', srv_Host = getEnv env ''SERVER_HOST'' ''0.0.0.0'',
         srv_RequestTimeout = getDuration env ''REQUEST_TIMEOUT'' (5 * Second),
         srv_MaxRequestSize = getInt64 env ''MAX_REQUEST_SIZE'' 1048576\<rparr>,
      cfg_Redis =
        \<lparr>rc_Host = getEnv env ''REDIS_HOST'' ''localhost'', rc_Port = getEnv env ''REDIS_PORT'' ''6379'',
         rc_Password = getEnv env ''REDIS_PASSWORD'' [], rc_DB = getInt env ''REDIS_DB'' 0,
         rc_StreamName = getEnv env ''REDIS_STREAM_NAME'' ''gps:reports'',
         rc_ConsumerGroup = getEnv env ''REDIS_CONSUMER_GROUP'' ''gps-workers'',
         rc_MaxLen = getInt64 env ''REDIS_MAX_LEN'' 50000, rc_PoolSize = getInt env ''REDIS_POOL_SIZE'' 500,
         rc_QueueBackpressureLimit = getInt64 env ''QUEUE_BACKPRESSURE_LIMIT'' 0\<rparr>,
      cfg_Worker =
        \<lparr>wc_Count = getInt env ''WORKER_COUNT'' 50, wc_BatchSize = getInt env ''WORKER_BATCH_SIZE'' 100\<rparr>,
      cfg_Retry =
        \<lparr>ry_MaxAttempts = getInt env ''MAX_RETRY_ATTEMPTS'' 3,
         ry_DelayFirst = getDuration env ''RETRY_DELAY_FIRST'' (500 * Millisecond),
         ry_DelaySubsequent = getDuration env ''RETRY_DELAY_SUBSEQUENT'' (1 * Second)\<rparr>,
      cfg_HTTP =
        \<lparr>http_Timeout = getDuration env ''HTTP_CLIENT_TIMEOUT'' (10 * Second),
         http_MaxIdleConns = getInt env ''HTTP_CLIENT_MAX_IDLE_CONNS'' 500,
         http_MaxConnsPerHost = getInt env ''HTTP_CLIENT_MAX_CONNS_PER_HOST'' 100,
         http_DestinationServers = getSlice env ''DESTINATION_SERVERS'' []\<rparr>,
      cfg_RateLimit =
        \<lparr>rl_RequestsPerSecond = getInt env ''RATE_LIMIT_REQUESTS_PER_SECOND'' 15000,
         rl_Burst = getInt env ''RATE_LIMIT_BURST'' 20000\<rparr>,
      cfg_OutgoingRateLimit =
        \<lparr>orl_RequestsPerSecond = getInt env ''OUTGOING_RATE_LIMIT_RPS'' 50,
         orl_BurstSize = getInt env ''OUTGOING_RATE_LIMIT_BURST'' 100\<rparr>,
      cfg_Logging =
        \<lparr>log_Level = getEnv env ''LOG_LEVEL'' ''info'', log_Format = getEnv env ''LOG_FORMAT'' ''json''\<rparr>,
      cfg_Filter =
        \<lparr>fc_Enabled = getBool env ''FILTER_ENABLED'' False,
         fc_RedisSyncInterval = getDuration env ''FILTER_REDIS_SYNC_INTERVAL'' (30 * Second)\<rparr>,
      cfg_Tracking =
        \<lparr>tc_Enabled = getBool env ''TRACKING_ENABLED'' True,
         tc_SampleRate = getFloat64 env ''TRACKING_SAMPLE_RATE'' (round64 False (1 / 100)),
         tc_MaxRequests = getInt env ''TRACKING_MAX_REQUESTS'' 10000\<rparr>,
      cfg_Postgres =
        \<lparr>pg_Enabled = getBool env ''POSTGRES_ENABLED'' True, pg_Host = getEnv env ''POSTGRES_HOST'' ''localhost'',
         pg_Port = getEnv env ''POSTGRES_PORT'' ''5432'', pg_User = getEnv env ''POSTGRES_USER'' ''gps'',
         pg_Password = getEnv env ''POSTGRES_PASSWORD'' ''gps'',
         pg_DBName = getEnv env ''POSTGRES_DB'' ''gps_receiver'',
         pg_SSLMode = getEnv env ''POSTGRES_SSLMODE'' ''disable''\<rparr>,
      cfg_Teltonika =
        \<lparr>tk_TCPEnabled = getBool env ''TELTONIKA_TCP_ENABLED'' False,
         tk_TCPHost = getEnv env ''TELTONIKA_TCP_HOST'' ''0.0.0.0'',
         tk_TCPPort = getEnv env ''TELTONIKA_TCP_PORT'' ''5055'',
         tk_TimezoneOffset = getDuration env ''TELTONIKA_TIMEZONE_OFFSET'' (3 * Hour + 30 * Minute),
         tk_IMEIWhitelist = getSlice env ''TELTONIKA_IMEI_WHITELIST'' []\<rparr>,
      cfg_Hooshnics =
        \<lparr>hc_Enabled = getBoolAny env [''HOOSHNICS_MIRROR_ENABLED'', ''HOOSHNIX_MIRROR_ENABLED''] False,
         hc_AuthToken = getEnvAny env [''HOOSHNICS_AUTH_TOKEN'', ''HOOSHNIX_AUTH_TOKEN''] [],
         hc_RawURL = getEnvAny env [''HOOSHNICS_RAW_URL'', ''HOOSHNIX_RAW_URL''] [],
         hc_ParsedURL = getEnvAny env [''HOOSHNICS_PARSED_URL'', ''HOOSHNIX_PARSED_URL''] [],
         hc_BufferSize = getIntAny env [''HOOSHNICS_BUFFER_SIZE'', ''HOOSHNIX_BUFFER_SIZE''] 50000,
         hc_SpillDir = getEnvAny env [''HOOSHNICS_SPILL_DIR'', ''HOOSHNIX_SPILL_DIR''] ''logs/hooshnics_spill'',
         hc_Timeout = getDurationAny env [''HOOSHNICS_TIMEOUT'', ''HOOSHNIX_TIMEOUT''] (15 * Second),
         hc_Workers = getIntAny env [''HOOSHNICS_WORKERS'', ''HOOSHNIX_WORKERS''] 4\<rparr>\<rparr>"

datatype config_error = NoDestinationServers | NoAuthToken | NoMirrorURL

text \<open>The validation and the adjustment of the number of workers.\<close>

definition validate_config :: "Config \<Rightarrow> (config_error, Config) result" where
  "validate_config config =
     (if length (http_DestinationServers (cfg_HTTP config)) = 0 then Err NoDestinationServers
      else if hc_Enabled (cfg_Hooshnics config) \<and> hc_AuthToken (cfg_Hooshnics config) = [] then Err NoAuthToken
      else if hc_Enabled (cfg_Hooshnics config) \<and> hc_RawURL (cfg_Hooshnics config) = [] \<and>
              hc_ParsedURL (cfg_Hooshnics config) = [] then Err NoMirrorURL
      else let rps = orl_RequestsPerSecond (cfg_OutgoingRateLimit config) in
        if rps > 0 \<and> wc_Count (cfg_Worker config) > rps
        then Ok (config\<lparr>cfg_Worker := (cfg_Worker config)\<lparr>wc_Count := rps\<rparr>\<rparr>)
        else Ok config)"

definition Load :: "environ \<Rightarrow> (config_error, Config) result" where
  "Load env = validate_config (read_config env)"

definition GetAddr :: "RedisConfig \<Rightarrow> string" where
  "GetAddr c = rc_Host c @ '':'' @ rc_Port c"

definition DSN :: "PostgresConfig \<Rightarrow> string" where
  "DSN c = ''host='' @ pg_Host c @ '' port='' @ pg_Port c @ '' user='' @ pg_User c @
     '' password='' @ pg_Password c @ '' dbname='' @ pg_DBName c @ '' sslmode='' @ pg_SSLMode c"

section \<open>What a loaded configuration satisfies\<close>

lemma getSlice_items: "s \<in> set (getSlice env key []) \<Longrightarrow> s \<noteq> [] \<and> TrimSpace s = s"
  by (auto simp: getSlice_def TrimSpace_TrimSpace split: if_splits)

lemma validate_config_OkD:
  assumes "validate_config c = Ok d"
  shows "cfg_HTTP d = cfg_HTTP c" "cfg_Hooshnics d = cfg_Hooshnics c" "cfg_OutgoingRateLimit d = cfg_OutgoingRateLimit c"
    "http_DestinationServers (cfg_HTTP c) \<noteq> []"
    "hc_Enabled (cfg_Hooshnics c) \<Longrightarrow> hc_AuthToken (cfg_Hooshnics c) \<noteq> [] \<and>
       (hc_RawURL (cfg_Hooshnics c) \<noteq> [] \<or> hc_ParsedURL (cfg_Hooshnics c) \<noteq> [])"
    "orl_RequestsPerSecond (cfg_OutgoingRateLimit c) > 0 \<Longrightarrow>
       wc_Count (cfg_Worker d) \<le> orl_RequestsPerSecond (cfg_OutgoingRateLimit c)"
  using assms by (simp_all add: validate_config_def Let_def split: if_splits) auto

text \<open>
  A configuration that \<open>Load\<close> returns names at least one destination server, each a non-empty
  string without white space at its ends; a mirror that is enabled has a token and a URL; and
  with an outgoing rate limit there are at most as many workers as requests per second.
\<close>

theorem Load_valid:
  assumes "Load env = Ok config"
  shows "http_DestinationServers (cfg_HTTP config) \<noteq> [] \<and>
    (\<forall>s \<in> set (http_DestinationServers (cfg_HTTP config)). s \<noteq> [] \<and> TrimSpace s = s) \<and>
    (hc_Enabled (cfg_Hooshnics config) \<longrightarrow> hc_AuthToken (cfg_Hooshnics config) \<noteq> [] \<and>
       (hc_RawURL (cfg_Hooshnics config) \<noteq> [] \<or> hc_ParsedURL (cfg_Hooshnics config) \<noteq> [])) \<and>
    (orl_RequestsPerSecond (cfg_OutgoingRateLimit config) > 0 \<longrightarrow>
       wc_Count (cfg_Worker config) \<le> orl_RequestsPerSecond (cfg_OutgoingRateLimit config))"
proof -
  let ?c = "read_config env"
  have ok: "validate_config ?c = Ok config" using assms by (simp only: Load_def)
  have "\<forall>s \<in> set (http_DestinationServers (cfg_HTTP ?c)). s \<noteq> [] \<and> TrimSpace s = s"
    using getSlice_items by (simp add: read_config_def)
  then show ?thesis using validate_config_OkD(4-6) [OF ok] unfolding validate_config_OkD(1-3) [OF ok] by blast
qed

definition sample_env :: environ where
  "sample_env key = (if key = ''DESTINATION_SERVERS'' then '' http://a/ , ,http://b/''
     else if key = ''OUTGOING_RATE_LIMIT_RPS'' then ''20'' else [])"

lemma sample_load:
  "\<exists>config. Load sample_env = Ok config \<and> http_DestinationServers (cfg_HTTP config) = [''http://a/'', ''http://b/''] \<and>
    wc_Count (cfg_Worker config) = 20 \<and> orl_RequestsPerSecond (cfg_OutgoingRateLimit config) = 20 \<and> pg_Enabled (cfg_Postgres config) \<and> \<not> tk_TCPEnabled (cfg_Teltonika config) \<and>
    \<not> hc_Enabled (cfg_Hooshnics config)"
proof -
  have s: "getSlice sample_env ''DESTINATION_SERVERS'' [] = [''http://a/'', ''http://b/'']"
  proof -
    have "sample_env ''DESTINATION_SERVERS'' = '' http://a/ , ,http://b/''" by (simp add: sample_env_def)
    moreover have "Split (CHR '','') '' http://a/ , ,http://b/'' = ['' http://a/ '', '' '', ''http://b/'']" by simp
    moreover have "TrimSpace '' http://a/ '' = ''http://a/''" "TrimSpace '' '' = []" "TrimSpace ''http://b/'' = ''http://b/''"
      by (simp_all add: TrimSpace_def space_strings_list trim_seqs.simps HasPrefix_def)
    ultimately show ?thesis by (simp add: getSlice_def)
  qed
  have r: "getInt sample_env ''OUTGOING_RATE_LIMIT_RPS'' 50 = 20"
    by (simp add: getInt_def sample_env_def Atoi_def ParseUint_def strip_sign_def is_digit_def digit_of_def)
  have w: "getInt sample_env ''WORKER_COUNT'' 50 = 50" by (simp add: getInt_def sample_env_def)
  have b: "getBool sample_env ''POSTGRES_ENABLED'' True = True" "getBool sample_env ''TELTONIKA_TCP_ENABLED'' False = False"
    by (simp_all add: getBool_def sample_env_def)
  have h: "getBoolAny sample_env [''HOOSHNICS_MIRROR_ENABLED'', ''HOOSHNIX_MIRROR_ENABLED''] False = False" by (simp add: sample_env_def)
  let ?c = "read_config sample_env"
  have p: "http_DestinationServers (cfg_HTTP ?c) = [''http://a/'', ''http://b/'']"
    "\<not> hc_Enabled (cfg_Hooshnics ?c)" "orl_RequestsPerSecond (cfg_OutgoingRateLimit ?c) = 20" "wc_Count (cfg_Worker ?c) = 50"
    "pg_Enabled (cfg_Postgres ?c)" "\<not> tk_TCPEnabled (cfg_Teltonika ?c)"
    by (simp_all only: read_config_def s r w h b Config.simps HTTPConfig.simps HooshnicsConfig.simps
        OutgoingRateLimitConfig.simps WorkerConfig.simps PostgresConfig.simps TeltonikaConfig.simps not_False_eq_True)
  have "Load sample_env = Ok (?c\<lparr>cfg_Worker := (cfg_Worker ?c)\<lparr>wc_Count := 20\<rparr>\<rparr>)"
    unfolding Load_def validate_config_def Let_def p(1,3,4) using p(2) by simp
  then show ?thesis using p by simp
qed

theorem Load_valid_witness:
  "\<exists>config. Load sample_env = Ok config \<and> http_DestinationServers (cfg_HTTP config) = [''http://a/'', ''http://b/''] \<and>
    wc_Count (cfg_Worker config) = 20 \<and> wc_Count (cfg_Worker config) \<le> orl_RequestsPerSecond (cfg_OutgoingRateLimit config)"
proof -
  obtain config where c: "Load sample_env = Ok config" "http_DestinationServers (cfg_HTTP config) = [''http://a/'', ''http://b/'']"
    "wc_Count (cfg_Worker config) = 20" "0 < orl_RequestsPerSecond (cfg_OutgoingRateLimit config)" using sample_load by auto
  then show ?thesis using Load_valid [OF c(1)] by blast
qed

end
