(* ===== verification/Tcp_Session.thy ===== *)
theory Tcp_Session
  imports Teltonika_Parser Config
begin

text \<open>
  One Teltonika device session (\<open>internal/teltonika/tcp/session.go\<close>) and the server's admission
  of devices (\<open>server.go\<close>): the IMEI handshake, frames, acknowledgements and the jobs handed to
  the post-ACK pipeline.  The peer is the bytes it sends in time and the way they end; the
  outcomes of deadlines, writes and of the check for cancellation are functions of how many
  there have been before.
\<close>

section \<open>Server and jobs\<close>

record postAckJob =
  job_imei :: string
  job_frame :: "u8 list"
  job_envelope :: "u8 list"

text \<open>
  The server: the queue and the mirror may be absent; the set of allowed IMEIs is the keys of
  the map.
\<close>

record Server =
  sv_cfg :: TeltonikaConfig
  sv_queue :: bool
  sv_mirror :: bool
  sv_imeiAllow :: "string set"

definition NewServer :: "TeltonikaConfig \<Rightarrow> bool \<Rightarrow> bool \<Rightarrow> Server option" where
  "NewServer cfg q mirror =
     (if \<not> tk_TCPEnabled cfg then None
      else Some \<lparr>sv_cfg = cfg, sv_queue = q, sv_mirror = mirror, sv_imeiAllow = set (tk_IMEIWhitelist cfg)\<rparr>)"

definition isIMEIAllowed :: "Server \<Rightarrow> string \<Rightarrow> bool" where
  "isIMEIAllowed s imei = (if sv_imeiAllow s = {} then True else imei \<in> sv_imeiAllow s)"

section \<open>The connection\<close>

datatype io_error = EOF | UnexpectedEOF | Timeout | DeadlineFailed

datatype session_error =
    ReadFailed io_error
  | InvalidIMEILength u16
  | InvalidFramePreamble
  | InvalidFrameLength u32

text \<open>What a write does: succeed, fail to set its deadline, or fail after some bytes.\<close>

datatype write_outcome = WriteOk | WriteNoDeadline | WriteFails nat

record conn_world =
  cw_deadline :: "nat \<Rightarrow> bool"
  cw_write :: "nat \<Rightarrow> write_outcome"
  cw_done :: "nat \<Rightarrow> bool"
  cw_ending :: io_error

datatype session_event = Wrote "u8 list" | Submitted postAckJob

record conn =
  incoming :: "u8 list"
  deadlines :: nat
  writes :: nat
  events :: "session_event list"

definition SetReadDeadline :: "conn_world \<Rightarrow> conn \<Rightarrow> bool \<times> conn" where
  "SetReadDeadline w c = (cw_deadline w (deadlines c), c\<lparr>deadlines := deadlines c + 1\<rparr>)"

text \<open>\<open>io.ReadFull\<close> into a buffer of \<open>n\<close> bytes.\<close>

definition readFull :: "conn_world \<Rightarrow> nat \<Rightarrow> conn \<Rightarrow> (session_error, u8 list) result \<times> conn" where
  "readFull w n c =
     (if n \<le> length (incoming c) then (Ok (take n (incoming c)), c\<lparr>incoming := drop n (incoming c)\<rparr>)
      else (Err (ReadFailed (if cw_ending w = EOF \<and> incoming c \<noteq> [] then UnexpectedEOF else cw_ending w)),
            c\<lparr>incoming := []\<rparr>))"

definition writeBytes :: "conn_world \<Rightarrow> u8 list \<Rightarrow> conn \<Rightarrow> bool \<times> conn" where
  "writeBytes w b c =
     (let c' = c\<lparr>writes := writes c + 1\<rparr> in
      case cw_write w (writes c) of
        WriteOk \<Rightarrow> (True, c'\<lparr>events := events c @ [Wrote b]\<rparr>)
      | WriteNoDeadline \<Rightarrow> (False, c')
      | WriteFails k \<Rightarrow> (False, c'\<lparr>events := events c @ [Wrote (take k b)]\<rparr>))"

definition writeAck :: "conn_world \<Rightarrow> u32 \<Rightarrow> conn \<Rightarrow> bool \<times> conn" where
  "writeAck w n c = writeBytes w (word_be 4 n) c"

section \<open>Handshake and frames\<close>

definition readIMEI :: "conn_world \<Rightarrow> conn \<Rightarrow> (session_error, string) result \<times> conn" where
  "readIMEI w c =
     (let (ok, c1) = SetReadDeadline w c in
      if \<not> ok then (Err (ReadFailed DeadlineFailed), c1)
      else let (r, c2) = readFull w 2 c1 in
        case r of
          Ok lenBuf \<Rightarrow>
            (let imeiLen = be_word lenBuf :: u16 in
             if imeiLen = 0 \<or> imeiLen > 32 then (Err (InvalidIMEILength imeiLen), c2)
             else let (r', c3) = readFull w (unat imeiLen) c2 in
               case r' of
                 Ok imeiBuf \<Rightarrow> (Ok (string_of imeiBuf), c3)
               | Err e \<Rightarrow> (Err e, c3)
               | Panic \<Rightarrow> (Panic, c3))
        | Err e \<Rightarrow> (Err e, c2)
        | Panic \<Rightarrow> (Panic, c2))"

definition readFrame :: "conn_world \<Rightarrow> conn \<Rightarrow> (session_error, u8 list) result \<times> conn" where
  "readFrame w c =
     (let (ok, c1) = SetReadDeadline w c in
      if \<not> ok then (Err (ReadFailed DeadlineFailed), c1)
      else let (r, c2) = readFull w 8 c1 in
        case r of
          Ok header \<Rightarrow>
            if header ! 0 OR header ! 1 OR header ! 2 OR header ! 3 \<noteq> 0 then (Err InvalidFramePreamble, c2)
            else (let dataFieldLen = be_word (drop 4 header) :: u32 in
              if dataFieldLen = 0 \<or> dataFieldLen > 2048 then (Err (InvalidFrameLength dataFieldLen), c2)
              else let (r', c3) = readFull w (unat (dataFieldLen + 4)) c2 in
                case r' of
                  Ok payload \<Rightarrow> (Ok (header @ payload), c3)
                | Err e \<Rightarrow> (Err e, c3)
                | Panic \<Rightarrow> (Panic, c3))
        | Err e \<Rightarrow> (Err e, c2)
        | Panic \<Rightarrow> (Panic, c2))"

text \<open>
  \<open>validateFrame\<close>: the frame is a slice made with its exact length, so it has no spare capacity;
  \<open>marshal\<close> is the JSON encoder of the envelope.
\<close>

definition validateFrame ::
  "(teltonikaEnvelope \<Rightarrow> u8 list option) \<Rightarrow> int \<Rightarrow> string \<Rightarrow> u8 list \<Rightarrow>
   (unit, u32 \<times> postAckJob option) result" where
  "validateFrame marshal tzOffset imei frame =
     (case ParsePacket (mk_slice frame) of
        Panic \<Rightarrow> Panic
      | Err _ \<Rightarrow> Ok (0, None)
      | Ok (_, records) \<Rightarrow>
          (let parsed = TeltonikaRecordsToParsed records imei tzOffset in
           if length parsed = 0 then Ok (0, None)
           else case ParseTeltonikaEnvelope marshal imei parsed of
             None \<Rightarrow> Ok (0, None)
           | Some envelope \<Rightarrow>
               Ok (word_of_nat (length parsed),
                   Some \<lparr>job_imei = imei, job_frame = frame, job_envelope = envelope\<rparr>)))"

section \<open>The session\<close>

datatype session_end =
    HandshakeFailed session_error
  | Rejected
  | AcceptWriteFailed
  | Cancelled
  | ReadEnded session_error
  | AckWriteFailed
  | Crashed

lemma readFull_incoming:
  "readFull w n c = (Ok bs, c') \<Longrightarrow> length bs = n \<and> incoming c = bs @ incoming c' \<and>
     events c' = events c \<and> writes c' = writes c"
  by (auto simp: readFull_def split: if_splits)

lemma readFull_not_Panic [simp]: "readFull w n c \<noteq> (Panic, c')"
  by (simp add: readFull_def)

lemma writeBytes_incoming [simp]: "incoming (snd (writeBytes w b c)) = incoming c"
  by (simp add: writeBytes_def Let_def split: write_outcome.splits)

lemma readFrame_OkD:
  assumes "readFrame w c = (Ok frame, c')"
  shows "incoming c = frame @ incoming c' \<and> 13 \<le> length frame \<and> events c' = events c"
proof -
  obtain ok c1 where d: "SetReadDeadline w c = (ok, c1)" by fastforce
  have c1: "incoming c1 = incoming c" "events c1 = events c" using d by (auto simp: SetReadDeadline_def)
  obtain r c2 where r: "readFull w 8 c1 = (r, c2)" by fastforce
  obtain header where h: "r = Ok header" using assms d r by (cases r) (auto simp: readFrame_def split: if_splits)
  let ?len = "be_word (drop 4 header) :: u32"
  obtain r' c3 where r': "readFull w (unat (?len + 4)) c2 = (r', c3)" by fastforce
  have cond: "\<not> (header ! 0 OR header ! 1 OR header ! 2 OR header ! 3 \<noteq> 0)" "ok" "\<not> (?len = 0 \<or> ?len > 2048)"
    using assms d r h by (auto simp: readFrame_def split: if_splits)
  obtain payload where p: "r' = Ok payload"
    using assms d r h cond r' by (cases r') (auto simp: readFrame_def Let_def)
  have f: "frame = header @ payload" "c' = c3" using assms d r h cond r' p by (simp_all add: readFrame_def Let_def)
  have "unat ?len \<noteq> 0" using cond(3) by (simp add: unat_eq_0)
  moreover have "unat ?len \<le> 2048" using cond(3) by (simp add: word_less_nat_alt not_less)
  then have "unat (?len + 4) = unat ?len + 4" by (simp add: unat_word_ariths)
  ultimately have "5 \<le> length payload" using readFull_incoming [OF r' [unfolded p]] by simp
  then show ?thesis
    using readFull_incoming [OF r [unfolded h]] readFull_incoming [OF r' [unfolded p]] c1 f by simp
qed

text \<open>
  The loop of \<open>run\<close>; \<open>turn\<close> counts the checks of \<open>ctx.Done()\<close>.  Every turn that reads a frame
  consumes at least thirteen bytes, so the loop ends on every finite input.
\<close>

function frame_loop ::
  "(teltonikaEnvelope \<Rightarrow> u8 list option) \<Rightarrow> conn_world \<Rightarrow> Server \<Rightarrow> string \<Rightarrow> nat \<Rightarrow> conn \<Rightarrow> session_end \<times> conn" where
  "frame_loop marshal w s imei turn c =
     (if cw_done w turn then (Cancelled, c)
      else case readFrame w c of
        (Err e, c1) \<Rightarrow> (ReadEnded e, c1)
      | (Panic, c1) \<Rightarrow> (Crashed, c1)
      | (Ok frame, c1) \<Rightarrow>
          (case validateFrame marshal (tk_TimezoneOffset (sv_cfg s)) imei frame of
             Ok (accepted, job) \<Rightarrow>
               (let (ok, c2) = writeAck w accepted c1 in
                if \<not> ok then (AckWriteFailed, c2)
                else case job of
                  None \<Rightarrow> frame_loop marshal w s imei (turn + 1) c2
                | Some j \<Rightarrow>
                    frame_loop marshal w s imei (turn + 1) (c2\<lparr>events := events c2 @ [Submitted j]\<rparr>))
           | _ \<Rightarrow> (Crashed, c1)))"
  by pat_completeness auto

lemma writeAck_incoming: "writeAck w n c = (ok, c') \<Longrightarrow> incoming c' = incoming c"
  using writeBytes_incoming [of w "word_be 4 n" c] by (simp add: writeAck_def)

lemma frame_progress:
  "readFrame w c = (Ok frame, c1) \<Longrightarrow> writeAck w n c1 = (ok, c2) \<Longrightarrow> length (incoming c2) < length (incoming c)"
  by (drule readFrame_OkD, drule writeAck_incoming) fastforce

termination frame_loop
  by (relation "measure (\<lambda>(_, _, _, _, _, c). length (incoming c))")
     (auto dest: frame_progress [OF sym sym])

declare frame_loop.simps [simp del]

definition run ::
  "(teltonikaEnvelope \<Rightarrow> u8 list option) \<Rightarrow> conn_world \<Rightarrow> Server \<Rightarrow> conn \<Rightarrow> session_end \<times> conn" where
  "run marshal w s c =
     (case readIMEI w c of
        (Err e, c1) \<Rightarrow> (HandshakeFailed e, c1)
      | (Panic, c1) \<Rightarrow> (Crashed, c1)
      | (Ok imei, c1) \<Rightarrow>
          if \<not> isIMEIAllowed s imei then (Rejected, snd (writeBytes w [0x00] c1))
          else let (ok, c2) = writeBytes w [0x01] c1 in
            if \<not> ok then (AcceptWriteFailed, c2)
            else frame_loop marshal w s imei 0 c2)"

definition connect :: "u8 list \<Rightarrow> conn" where
  "connect bs = \<lparr>incoming = bs, deadlines = 0, writes = 0, events = []\<rparr>"

text \<open>\<open>handleConn\<close>: a fresh session on an accepted connection, closed at its end.\<close>

definition handleConn ::
  "(teltonikaEnvelope \<Rightarrow> u8 list option) \<Rightarrow> conn_world \<Rightarrow> Server \<Rightarrow> u8 list \<Rightarrow> session_end \<times> session_event list" where
  "handleConn marshal w s bs = (let (e, c) = run marshal w s (connect bs) in (e, events c))"

end
