(* ===== verification/Tcp_Properties.thy ===== *)
theory Tcp_Properties
  imports Tcp_Session Codec_Properties
begin

text \<open>
  The conversation of a device session as a step relation on phases, and that every run of a
  session, on any bytes and with any failures, is a trace of it.
\<close>

section \<open>The protocol\<close>

datatype phase = AwaitIMEI | Streaming string | MustSubmit string postAckJob | Finished

inductive proto ::
  "(teltonikaEnvelope \<Rightarrow> u8 list option) \<Rightarrow> Server \<Rightarrow> phase \<Rightarrow> session_event \<Rightarrow> phase \<Rightarrow> bool"
  for marshal s where
  accept: "isIMEIAllowed s imei \<Longrightarrow> proto marshal s AwaitIMEI (Wrote [1]) (Streaming imei)"
| reject: "\<not> isIMEIAllowed s imei \<Longrightarrow> proto marshal s AwaitIMEI (Wrote [0]) Finished"
| nack: "proto marshal s (Streaming imei) (Wrote (word_be 4 (0 :: u32))) (Streaming imei)"
| ack: "validateFrame marshal (tk_TimezoneOffset (sv_cfg s)) imei frame = Ok (n, Some j) \<Longrightarrow>
    proto marshal s (Streaming imei) (Wrote (word_be 4 n)) (MustSubmit imei j)"
| submit: "proto marshal s (MustSubmit imei j) (Submitted j) (Streaming imei)"
| cut: "proto marshal s p (Wrote (take k b)) Finished"

inductive_cases proto_submitted: "proto marshal s p (Submitted j) q"

inductive_cases proto_streaming: "proto marshal s p e (Streaming imei)"

inductive_cases proto_must_submit: "proto marshal s p e (MustSubmit imei j)"

inductive trace ::
  "(teltonikaEnvelope \<Rightarrow> u8 list option) \<Rightarrow> Server \<Rightarrow> phase \<Rightarrow> session_event list \<Rightarrow> phase \<Rightarrow> bool"
  for marshal s where
  trace_Nil [intro]: "trace marshal s p [] p"
| trace_snoc: "trace marshal s p es q \<Longrightarrow> proto marshal s q e r \<Longrightarrow> trace marshal s p (es @ [e]) r"

inductive_simps trace_Nil_iff [simp]: "trace marshal s p [] q"

lemma trace_append:
  "trace marshal s q es' r \<Longrightarrow> trace marshal s p es q \<Longrightarrow> trace marshal s p (es @ es') r"
proof (induction rule: trace.induct)
  case (trace_snoc q es' q' e r)
  then have "trace marshal s p ((es @ es') @ [e]) r" by (blast intro: trace.trace_snoc)
  then show ?case by simp
qed simp

lemma trace_snoc_iff: "trace marshal s p (es @ [e]) r \<longleftrightarrow> (\<exists>q. trace marshal s p es q \<and> proto marshal s q e r)"
  by (auto intro: trace_snoc elim: trace.cases)

lemma trace_split:
  "trace marshal s p (pre @ e # post) r \<Longrightarrow> \<exists>q q'. trace marshal s p pre q \<and> proto marshal s q e q'"
proof (induction post arbitrary: r rule: rev_induct)
  case Nil
  then show ?case by (auto simp: trace_snoc_iff)
next
  case (snoc x post)
  have "trace marshal s p ((pre @ e # post) @ [x]) r" using snoc.prems by simp
  then show ?case using snoc.IH unfolding trace_snoc_iff by blast
qed

lemma trace_one: "proto marshal s p e q \<Longrightarrow> trace marshal s p [e] q"
  using trace_snoc [OF trace_Nil] by fastforce

lemma trace_cut [simp]: "\<exists>q. trace marshal s p [Wrote (take k b)] q"
  using trace_one [OF proto.cut] by blast

lemma trace_none [simp]: "\<exists>q. trace marshal s p [] q"
  by blast

text \<open>What a phase says about the conversation that led to it.\<close>

lemma trace_allowed:
  "trace marshal s p evs q \<Longrightarrow> p = AwaitIMEI \<Longrightarrow> (q = Streaming imei \<or> q = MustSubmit imei j) \<Longrightarrow> isIMEIAllowed s imei"
proof (induction arbitrary: j rule: trace.induct)
  case (trace_snoc p es q e r)
  from trace_snoc.hyps(2) show ?case
    using trace_snoc.IH trace_snoc.prems by cases blast+
qed simp

lemma trace_acked:
  assumes "trace marshal s AwaitIMEI evs (MustSubmit imei j)"
  obtains pre n frame where "evs = pre @ [Wrote (word_be 4 n)]"
    and "validateFrame marshal (tk_TimezoneOffset (sv_cfg s)) imei frame = Ok (n, Some j)"
  using assms
proof (cases rule: trace.cases)
  case (trace_snoc es q e)
  from trace_snoc(3) show ?thesis
    by (rule proto_must_submit) (use that trace_snoc(1) in blast)
qed

section \<open>Sessions are traces\<close>

lemma writeBytes_cases:
  assumes "writeBytes w b c = (ok, c')"
  obtains (written) "ok" "events c' = events c @ [Wrote b]"
  | (cut) k where "\<not> ok" "events c' = events c @ [Wrote (take k b)]"
  | (silent) "\<not> ok" "events c' = events c"
  using assms by (auto simp: writeBytes_def Let_def split: write_outcome.splits)

lemma validateFrame_nack:
  assumes "validateFrame marshal tz imei frame = Ok (n, None)"
  shows "n = 0"
  using assms by (auto simp: validateFrame_def Let_def split: result.splits if_splits option.splits prod.splits)

lemma frame_loop_trace:
  "frame_loop marshal w s imei turn c = (e, c') \<Longrightarrow>
   \<exists>evs q. events c' = events c @ evs \<and> trace marshal s (Streaming imei) evs q"
proof (induction marshal w s imei turn c rule: frame_loop.induct)
  case (1 marshal w s imei turn c)
  note run = "1.prems" [unfolded frame_loop.simps [of marshal w s imei turn c]]
  show ?case
  proof (cases "cw_done w turn")
    case True
    then show ?thesis using run by auto
  next
    case False
    obtain r c1 where r: "readFrame w c = (r, c1)" by fastforce
    have ev1: "events c1 = events c" if "r = Ok frame" for frame using readFrame_OkD [of w c frame c1] r that by simp
    show ?thesis
    proof (cases r)
      case (Ok frame)
      let ?v = "validateFrame marshal (tk_TimezoneOffset (sv_cfg s)) imei frame"
      show ?thesis
      proof (cases ?v)
        case v: (Ok a)
        obtain n job where a: "a = (n, job)" by (cases a)
        obtain ok c2 where wr: "writeAck w n c1 = (ok, c2)" by fastforce
        then have wb: "writeBytes w (word_be 4 n) c1 = (ok, c2)" by (simp add: writeAck_def)
        from wb show ?thesis
        proof (cases rule: writeBytes_cases)
          case (cut k)
          then show ?thesis using run False r Ok v a wr ev1 [OF Ok] by auto
        next
          case silent
          then show ?thesis using run False r Ok v a wr ev1 [OF Ok] by auto
        next
          case written
          show ?thesis
          proof (cases job)
            case None
            have n: "n = 0" using v a None validateFrame_nack by blast
            have "frame_loop marshal w s imei (turn + 1) c2 = (e, c')"
              using run False r Ok v a wr written None by simp
            then obtain evs q where evs: "events c' = events c2 @ evs" "trace marshal s (Streaming imei) evs q"
              using "1.IH"(1) [OF False r [symmetric] Ok v a [symmetric] refl wr [symmetric]] written None by auto
            show ?thesis
              using evs written ev1 [OF Ok] trace_append [OF evs(2) trace_one [OF proto.nack]] n by auto
          next
            case (Some j)
            let ?c = "c2\<lparr>events := events c2 @ [Submitted j]\<rparr>"
            have "frame_loop marshal w s imei (turn + 1) ?c = (e, c')"
              using run False r Ok v a wr written Some by simp
            then obtain evs q where evs: "events c' = events ?c @ evs" "trace marshal s (Streaming imei) evs q"
              using "1.IH"(2) [OF False r [symmetric] Ok v a [symmetric] refl wr [symmetric]] written Some by auto
            have "trace marshal s (Streaming imei) ([Wrote (word_be 4 n)] @ [Submitted j]) (Streaming imei)"
              using v a Some by (intro trace_append [OF trace_one [OF proto.submit]] trace_one proto.ack) simp
            from trace_append [OF evs(2) this] show ?thesis using evs(1) written ev1 [OF Ok] by auto
          qed
        qed
      qed (use run False r Ok ev1 in auto)
    qed (use run False r in \<open>auto simp: readFrame_def SetReadDeadline_def readFull_def Let_def split: if_splits\<close>)
  qed
qed

lemma session_trace:
  assumes "handleConn marshal w s bs = (e, evs)"
  shows "\<exists>q. trace marshal s AwaitIMEI evs q"
proof -
  obtain r c1 where r: "readIMEI w (connect bs) = (r, c1)" by fastforce
  have ev1: "events c1 = []"
    using r by (auto simp: readIMEI_def connect_def SetReadDeadline_def readFull_def Let_def split: if_splits)
  obtain c' where run: "run marshal w s (connect bs) = (e, c')" "evs = events c'"
    using assms by (auto simp: handleConn_def split: prod.splits)
  show ?thesis
  proof (cases r)
    case (Ok imei)
    show ?thesis
    proof (cases "isIMEIAllowed s imei")
      case False
      obtain ok c2 where wb: "writeBytes w [0] c1 = (ok, c2)" by fastforce
      have "c' = c2" using run(1) r Ok False wb by (simp add: run_def)
      then have "evs = events c2" using run(2) by simp
      from wb show ?thesis
      proof (cases rule: writeBytes_cases)
        case written
        then show ?thesis using \<open>evs = events c2\<close> ev1 trace_one [OF proto.reject [OF False]] by auto
      next
        case (cut k)
        then show ?thesis using \<open>evs = events c2\<close> ev1 by auto
      qed (use \<open>evs = events c2\<close> ev1 in auto)
    next
      case True
      obtain ok c2 where wb: "writeBytes w [1] c1 = (ok, c2)" by fastforce
      from wb show ?thesis
      proof (cases rule: writeBytes_cases)
        case written
        then have "frame_loop marshal w s imei 0 c2 = (e, c')" using run(1) r Ok True wb by (simp add: run_def)
        from frame_loop_trace [OF this] written ev1 run(2)
        show ?thesis using trace_append [OF _ trace_one [OF proto.accept [OF True]]] by fastforce
      next
        case (cut k)
        then show ?thesis using run r Ok True wb ev1 by (auto simp: run_def)
      next
        case silent
        then show ?thesis using run r Ok True wb ev1 by (auto simp: run_def)
      qed
    qed
  qed (use run r ev1 in \<open>auto simp: run_def\<close>)
qed

section \<open>Jobs and acknowledgements\<close>

text \<open>
  C3: Whatever bytes a device sends and whichever reads and writes fail, a job reaches the
  pipeline only from a device whose IMEI is allowed, only for a frame that decodes to at least
  one record, and only right after the acknowledgement that counts exactly those records has
  been written; its envelope is the encoding of those records.
\<close>

theorem session_jobs_acked:
  assumes "handleConn marshal w s bs = (e, pre @ Submitted j # post)"
  shows "isIMEIAllowed s (job_imei j) \<and>
    (\<exists>codec records pre'. ParsePacket (mk_slice (job_frame j)) = Ok (codec, records) \<and> records \<noteq> [] \<and>
       pre = pre' @ [Wrote (word_be 4 (word_of_nat (length records) :: u32))] \<and>
       ParseTeltonikaEnvelope marshal (job_imei j)
         (TeltonikaRecordsToParsed records (job_imei j) (tk_TimezoneOffset (sv_cfg s))) = Some (job_envelope j))"
proof -
  obtain q where "trace marshal s AwaitIMEI (pre @ Submitted j # post) q" using session_trace [OF assms] by blast
  then obtain p p' where t: "trace marshal s AwaitIMEI pre p" "proto marshal s p (Submitted j) p'"
    using trace_split by blast
  from t(2) obtain imei where p: "p = MustSubmit imei j" by (rule proto_submitted)
  obtain pre' n frame where a: "pre = pre' @ [Wrote (word_be 4 n)]"
    "validateFrame marshal (tk_TimezoneOffset (sv_cfg s)) imei frame = Ok (n, Some j)"
    using t(1) unfolding p by (rule trace_acked)
  have "isIMEIAllowed s imei" using trace_allowed [OF t(1) refl] p by blast
  moreover obtain codec records where r: "ParsePacket (mk_slice frame) = Ok (codec, records)"
    using a(2) by (auto simp: validateFrame_def split: result.splits)
  ultimately show ?thesis
    using a by (auto simp: validateFrame_def Let_def TeltonikaRecordsToParsed_def teltonikaRecordsToParsed_def
        split: if_splits option.splits)
qed

section \<open>The turns of a session\<close>

lemma writeBytes_events: "writeBytes w b c = (ok, c') \<Longrightarrow> length (events c') \<le> Suc (length (events c))"
  by (erule writeBytes_cases) simp_all

lemma frame_loop_events:
  "frame_loop marshal w s imei turn c = (e, c') \<Longrightarrow>
   length (events c') \<le> length (events c) + 2 * (length (incoming c) div 13)"
proof (induction marshal w s imei turn c rule: frame_loop.induct)
  case (1 marshal w s imei turn c)
  note run = "1.prems" [unfolded frame_loop.simps [of marshal w s imei turn c]]
  show ?case
  proof (cases "cw_done w turn")
    case True
    then show ?thesis using run by simp
  next
    case False
    obtain r c1 where r: "readFrame w c = (r, c1)" by fastforce
    show ?thesis
    proof (cases r)
      case (Ok frame)
      note F = readFrame_OkD [OF r [unfolded Ok]]
      have turn: "length (incoming c1) div 13 + 1 \<le> length (incoming c) div 13"
      proof -
        have "(length (incoming c1) + 13) div 13 \<le> length (incoming c) div 13" using F by (intro div_le_mono) simp
        then show ?thesis by simp
      qed
      let ?v = "validateFrame marshal (tk_TimezoneOffset (sv_cfg s)) imei frame"
      show ?thesis
      proof (cases ?v)
        case v: (Ok a)
        obtain n job where a: "a = (n, job)" by (cases a)
        obtain ok c2 where wr: "writeAck w n c1 = (ok, c2)" by fastforce
        have len: "length (events c2) \<le> Suc (length (events c))" "incoming c2 = incoming c1"
          using writeBytes_events [of w "word_be 4 n" c1 ok c2] wr F writeAck_incoming [OF wr] by (simp_all add: writeAck_def)
        show ?thesis
        proof (cases "ok")
          case False
          then show ?thesis using run \<open>\<not> cw_done w turn\<close> r Ok v a wr len turn by simp
        next
          case True
          show ?thesis
            using run False r Ok v a wr len turn True
              "1.IH"(1) [OF False r [symmetric] Ok v a [symmetric] refl wr [symmetric]]
              "1.IH"(2) [OF False r [symmetric] Ok v a [symmetric] refl wr [symmetric]]
            by (cases job) fastforce+
        qed
      qed (use run False r Ok F in auto)
    qed (use run False r in \<open>auto simp: readFrame_def SetReadDeadline_def readFull_def Let_def split: if_splits\<close>)
  qed
qed

text \<open>
  C38: A session ends on every finite input: every turn of its loop consumes a frame of at least
  thirteen bytes, so it answers at most one acknowledgement and hands over at most one job per
  thirteen bytes received, besides the answer to the handshake.
\<close>

theorem session_bounded:
  "\<exists>e evs. handleConn marshal w s bs = (e, evs) \<and> length evs \<le> 1 + 2 * (length bs div 13)"
proof -
  obtain r c1 where r: "readIMEI w (connect bs) = (r, c1)" by fastforce
  have c1: "events c1 = []" "length (incoming c1) \<le> length bs"
    using r by (auto simp: readIMEI_def connect_def SetReadDeadline_def readFull_def Let_def split: if_splits)
  obtain e c' where run: "run marshal w s (connect bs) = (e, c')" by fastforce
  have "length (events c') \<le> 1 + 2 * (length (incoming c1) div 13)"
  proof (cases r)
    case (Ok imei)
    obtain ok c2 where wb: "writeBytes w [1] c1 = (ok, c2)" by fastforce
    obtain ok' c2' where wb': "writeBytes w [0] c1 = (ok', c2')" by fastforce
    note len = writeBytes_events [OF wb] writeBytes_events [OF wb'] writeBytes_incoming [of w "[1]" c1]
    show ?thesis
      using run r Ok wb wb' len c1 frame_loop_events [of marshal w s imei 0 c2 e c'] by (auto simp: run_def split: if_splits)
  qed (use run r c1 in \<open>auto simp: run_def\<close>)
  moreover have "length (incoming c1) div 13 \<le> length bs div 13" using c1(2) by (rule div_le_mono)
  ultimately show ?thesis using run by (simp add: handleConn_def)
qed

section \<open>The conversation with a well-behaved device\<close>

text \<open>A packet of the reference encoder: codec, layout and records.\<close>

type_synonym packet = "u8 \<times> ioLayout \<times> avl_record list"

definition packet_bytes :: "packet \<Rightarrow> u8 list" where
  "packet_bytes p = (case p of (c, cfg, as) \<Rightarrow> enc_packet c cfg as)"

definition packet_ok :: "packet \<Rightarrow> bool" where
  "packet_ok p = (case p of (c, cfg, as) \<Rightarrow>
     layoutForCodec c = Ok cfg \<and> list_all (fits_record cfg) as \<and> as \<noteq> [] \<and> length as \<le> 255 \<and>
     length (concat (map (enc_record cfg) as)) \<le> 2045)"

definition packet_records :: "packet \<Rightarrow> Record list" where
  "packet_records p = (case p of (c, cfg, as) \<Rightarrow> map (record_of cfg) as)"

text \<open>What the server answers to a packet and the job it makes of it.\<close>

definition packet_events :: "(teltonikaEnvelope \<Rightarrow> u8 list) \<Rightarrow> int \<Rightarrow> string \<Rightarrow> packet \<Rightarrow> session_event list" where
  "packet_events enc tz imei p =
     [Wrote (word_be 4 (word_of_nat (length (packet_records p)) :: u32)),
      Submitted \<lparr>job_imei = imei, job_frame = packet_bytes p,
        job_envelope = enc \<lparr>env_Teltonika = True, env_IMEI = imei,
          env_Records = TeltonikaRecordsToParsed (packet_records p) imei tz\<rparr>\<rparr>]"

definition calm :: "conn_world \<Rightarrow> bool" where
  "calm w \<longleftrightarrow> (\<forall>n. cw_deadline w n \<and> cw_write w n = WriteOk \<and> \<not> cw_done w n) \<and> cw_ending w = EOF"

lemma readFull_append: "length bs = n \<Longrightarrow> incoming c = bs @ rest \<Longrightarrow> readFull w n c = (Ok bs, c\<lparr>incoming := rest\<rparr>)"
  by (simp add: readFull_def)

lemma readFrame_enc_frame:
  assumes "calm w" and "incoming c = enc_frame payload @ rest" and "0 < length payload" and "length payload \<le> 2048"
  shows "readFrame w c = (Ok (enc_frame payload), c\<lparr>deadlines := deadlines c + 1, incoming := rest\<rparr>)"
proof -
  let ?n = "word_of_nat (length payload) :: u32"
  let ?h = "[0, 0, 0, 0] @ word_be 4 ?n :: u8 list"
  let ?p = "payload @ word_be 4 (ucast (CRC16IBM payload) :: u32)"
  let ?c = "c\<lparr>deadlines := deadlines c + 1\<rparr>"
  have b: "be_word (drop 4 ?h) = ?n" by (simp add: be_word_round_trip)
  have n: "unat ?n = length payload" using assms(4) by (simp add: unat_of_nat)
  then have n': "unat (?n + 4) = length ?p" using assms(4) by (simp add: unat_word_ariths)
  have "\<not> (?n = 0 \<or> ?n > 2048)" using n assms(3,4) by (auto simp: word_less_nat_alt unat_eq_0 [symmetric])
  moreover have h: "readFull w 8 ?c = (Ok ?h, ?c\<lparr>incoming := ?p @ rest\<rparr>)"
    using assms(2) by (intro readFull_append) (simp_all add: enc_frame_def)
  moreover have p: "readFull w (unat (?n + 4)) (?c\<lparr>incoming := ?p @ rest\<rparr>) = (Ok ?p, ?c\<lparr>incoming := rest\<rparr>)"
    unfolding n' by (subst readFull_append) simp_all
  ultimately show ?thesis
    using assms(1) b by (simp add: readFrame_def SetReadDeadline_def calm_def Let_def enc_frame_def)
qed

lemma validateFrame_packet:
  assumes "packet_ok p"
  shows "validateFrame (\<lambda>e. Some (enc e)) tz imei (packet_bytes p) =
    Ok (word_of_nat (length (packet_records p)),
        Some \<lparr>job_imei = imei, job_frame = packet_bytes p,
          job_envelope = enc \<lparr>env_Teltonika = True, env_IMEI = imei,
            env_Records = TeltonikaRecordsToParsed (packet_records p) imei tz\<rparr>\<rparr>)"
proof -
  obtain c cfg as where p: "p = (c, cfg, as)" by (cases p)
  have ok: "layoutForCodec c = Ok cfg" "list_all (fits_record cfg) as" "length as \<le> 255"
    "length (concat (map (enc_record cfg) as)) \<le> 2045" "as \<noteq> []"
    using assms by (simp_all add: p packet_ok_def)
  have "ParsePacket (mk_slice (enc_packet c cfg as)) = Ok (c, map (record_of cfg) as)"
    using ParsePacket_enc_packet [OF ok(1-4), of "mk_slice (enc_packet c cfg as)" "[]"] by simp
  then show ?thesis
    using ok(5) by (simp add: p validateFrame_def packet_bytes_def packet_records_def ParseTeltonikaEnvelope_def
        TeltonikaRecordsToParsed_def teltonikaRecordsToParsed_def Let_def)
qed

lemma frame_loop_packets:
  assumes "calm w" and "list_all packet_ok ps" and "incoming c = concat (map packet_bytes ps)"
  shows "\<exists>c'. frame_loop (\<lambda>e. Some (enc e)) w s imei turn c = (ReadEnded (ReadFailed EOF), c') \<and>
    events c' = events c @ concat (map (packet_events enc (tk_TimezoneOffset (sv_cfg s)) imei) ps)"
  using assms(2,3)
proof (induction ps arbitrary: c turn)
  case Nil
  then show ?case
    using assms(1) by (subst frame_loop.simps) (simp add: readFrame_def SetReadDeadline_def readFull_def calm_def Let_def)
next
  case (Cons p ps)
  obtain co cfg as where p: "p = (co, cfg, as)" by (cases p)
  let ?payload = "[co, word_of_nat (length as)] @ concat (map (enc_record cfg) as) @ [word_of_nat (length as)]"
  have ok: "packet_ok p" and ps: "list_all packet_ok ps" using Cons.prems(1) by simp_all
  have pl: "0 < length ?payload" "length ?payload \<le> 2048" using ok by (simp_all add: p packet_ok_def)
  have b: "packet_bytes p = enc_frame ?payload" by (simp add: p packet_bytes_def enc_packet_def)
  let ?rest = "concat (map packet_bytes ps)"
  let ?c1 = "c\<lparr>deadlines := deadlines c + 1, incoming := ?rest\<rparr>"
  have r: "readFrame w c = (Ok (packet_bytes p), ?c1)"
    using readFrame_enc_frame [OF assms(1) _ pl, of c ?rest] Cons.prems(2) b by simp
  let ?n = "word_of_nat (length (packet_records p)) :: u32"
  let ?c2 = "?c1\<lparr>writes := writes c + 1, events := events c @ packet_events enc (tk_TimezoneOffset (sv_cfg s)) imei p\<rparr>"
  have "frame_loop (\<lambda>e. Some (enc e)) w s imei turn c = frame_loop (\<lambda>e. Some (enc e)) w s imei (turn + 1) ?c2"
    using assms(1) by (subst frame_loop.simps)
      (simp add: calm_def r validateFrame_packet [OF ok] writeAck_def writeBytes_def Let_def packet_events_def)
  then show ?case using Cons.IH [OF ps, of ?c2 "turn + 1"] by simp
qed

lemma handshake_run:
  assumes "calm w" and "isIMEIAllowed s imei" and "0 < length imei" and "length imei \<le> 32"
  obtains c where "incoming c = rest" and "events c = [Wrote [1]]" and
    "handleConn marshal w s (word_be 2 (word_of_nat (length imei) :: u16) @ bytes_of imei @ rest) =
      (let (e, c') = frame_loop marshal w s imei 0 c in (e, events c'))"
proof
  let ?l = "word_of_nat (length imei) :: u16"
  let ?bs = "word_be 2 ?l @ bytes_of imei @ rest"
  let ?c = "connect ?bs\<lparr>deadlines := 1, incoming := rest, writes := 1, events := [Wrote [1]]\<rparr>"
  have l: "unat ?l = length imei" using assms(4) by (simp add: unat_of_nat)
  have "\<not> (?l = 0 \<or> ?l > 32)" using l assms(3,4) by (auto simp: word_less_nat_alt unat_eq_0 [symmetric])
  moreover have "readFull w 2 (connect ?bs\<lparr>deadlines := 1\<rparr>) =
      (Ok (word_be 2 ?l), connect ?bs\<lparr>deadlines := 1, incoming := bytes_of imei @ rest\<rparr>)"
    by (subst readFull_append) (simp_all add: connect_def)
  moreover have "readFull w (length imei) (connect ?bs\<lparr>deadlines := 1, incoming := bytes_of imei @ rest\<rparr>) =
      (Ok (bytes_of imei), connect ?bs\<lparr>deadlines := 1, incoming := rest\<rparr>)"
    by (subst readFull_append) (simp_all add: connect_def)
  ultimately have "readIMEI w (connect ?bs) = (Ok imei, connect ?bs\<lparr>deadlines := 1, incoming := rest\<rparr>)"
    using assms(1) l by (simp add: readIMEI_def SetReadDeadline_def calm_def Let_def be_word_round_trip connect_def)
  then show "handleConn marshal w s ?bs = (let (e, c') = frame_loop marshal w s imei 0 ?c in (e, events c'))"
    using assms(1,2) by (simp add: handleConn_def run_def writeBytes_def calm_def Let_def connect_def)
qed (simp_all add: connect_def)

text \<open>
  C12: The conversation with a device: a device whose IMEI is allowed and that sends well-formed
  packets, in any of the three codecs and however many, is accepted, gets the number of records
  of every packet as its acknowledgement, and each packet becomes one job with its raw frame and
  the envelope of its records, in the order sent.
\<close>

theorem session_conversation:
  assumes "calm w" and "isIMEIAllowed s imei" and "0 < length imei" and "length imei \<le> 32" and "list_all packet_ok ps"
    and "bs = word_be 2 (word_of_nat (length imei) :: u16) @ bytes_of imei @ concat (map packet_bytes ps)"
  shows "handleConn (\<lambda>e. Some (enc e)) w s bs = (ReadEnded (ReadFailed EOF),
    Wrote [1] # concat (map (packet_events enc (tk_TimezoneOffset (sv_cfg s)) imei) ps))"
proof -
  obtain c where c: "incoming c = concat (map packet_bytes ps)" "events c = [Wrote [1]]"
    "handleConn (\<lambda>e. Some (enc e)) w s bs = (let (e, c') = frame_loop (\<lambda>e. Some (enc e)) w s imei 0 c in (e, events c'))"
    unfolding assms(6) by (rule handshake_run [OF assms(1-4)])
  show ?thesis using frame_loop_packets [OF assms(1,5) c(1), of enc s imei 0] c(2,3) by auto
qed

section \<open>Witnesses\<close>

definition calm_world :: conn_world where
  "calm_world = \<lparr>cw_deadline = \<lambda>_. True, cw_write = \<lambda>_. WriteOk, cw_done = \<lambda>_. False, cw_ending = EOF\<rparr>"

definition sample_server :: Server where
  "sample_server = \<lparr>sv_cfg = \<lparr>tk_TCPEnabled = True, tk_TCPHost = ''0.0.0.0'', tk_TCPPort = ''5055'',
     tk_TimezoneOffset = 0, tk_IMEIWhitelist = [''356307042441013'']\<rparr>, sv_queue = True, sv_mirror = True,
     sv_imeiAllow = {''356307042441013''}\<rparr>"

definition sample_enc :: "teltonikaEnvelope \<Rightarrow> u8 list" where
  "sample_enc e = bytes_of (env_IMEI e)"

abbreviation sample_frame_packet :: packet where
  "sample_frame_packet \<equiv> (8, codec8, [sample_avl])"

lemma sample_packet_ok: "packet_ok sample_frame_packet"
  using sample_fits by (simp add: packet_ok_def)

lemma sample_calm: "calm calm_world" "isIMEIAllowed sample_server ''356307042441013''"
  by (simp_all add: calm_def calm_world_def isIMEIAllowed_def sample_server_def)

theorem session_conversation_witness:
  "handleConn (\<lambda>e. Some (sample_enc e)) calm_world sample_server
     (word_be 2 (15 :: u16) @ bytes_of ''356307042441013'' @ packet_bytes sample_frame_packet @ packet_bytes sample_frame_packet) =
   (ReadEnded (ReadFailed EOF), Wrote [1] # packet_events sample_enc 0 ''356307042441013'' sample_frame_packet @
      packet_events sample_enc 0 ''356307042441013'' sample_frame_packet)"
  using session_conversation [OF sample_calm, of "[sample_frame_packet, sample_frame_packet]" _ sample_enc]
    sample_packet_ok
  by (simp add: sample_server_def)

theorem session_jobs_acked_witness:
  "\<exists>e pre j post codec records.
     handleConn (\<lambda>e. Some (sample_enc e)) calm_world sample_server
       (word_be 2 (15 :: u16) @ bytes_of ''356307042441013'' @ packet_bytes sample_frame_packet) = (e, pre @ Submitted j # post) \<and>
     isIMEIAllowed sample_server (job_imei j) \<and>
     ParsePacket (mk_slice (job_frame j)) = Ok (codec, records) \<and> records \<noteq> []"
proof -
  let ?bs = "word_be 2 (15 :: u16) @ bytes_of ''356307042441013'' @ packet_bytes sample_frame_packet"
  let ?ev = "packet_events sample_enc 0 ''356307042441013'' sample_frame_packet"
  obtain c where c: "incoming c = packet_bytes sample_frame_packet" "events c = [Wrote [1]]"
    "handleConn (\<lambda>e. Some (sample_enc e)) calm_world sample_server ?bs =
      (let (e, c') = frame_loop (\<lambda>e. Some (sample_enc e)) calm_world sample_server ''356307042441013'' 0 c in (e, events c'))"
    using handshake_run [OF sample_calm, of "packet_bytes sample_frame_packet" "\<lambda>e. Some (sample_enc e)"] by auto
  have "handleConn (\<lambda>e. Some (sample_enc e)) calm_world sample_server ?bs = (ReadEnded (ReadFailed EOF), Wrote [1] # ?ev)"
    using frame_loop_packets [OF sample_calm(1), of "[sample_frame_packet]" c sample_enc sample_server "''356307042441013''" 0]
      sample_packet_ok c by (auto simp: sample_server_def)
  then obtain j where run: "handleConn (\<lambda>e. Some (sample_enc e)) calm_world sample_server ?bs =
      (ReadEnded (ReadFailed EOF), [Wrote [1], ?ev ! 0] @ Submitted j # [])"
    by (auto simp: packet_events_def)
  from session_jobs_acked [OF run] run show ?thesis by blast
qed

end
