(* ===== verification/Tcp_Pipeline.thy ===== *)
theory Tcp_Pipeline
  imports Tcp_Session "HOL-Library.Multiset"
begin

text \<open>
  The post-ACK pipeline (\<open>internal/teltonika/tcp/pipeline.go\<close>) and the life of the server
  (\<open>Start\<close> and \<open>Stop\<close> of \<open>server.go\<close>): sessions submit jobs to a bounded channel without blocking,
  workers take and process them, and \<open>Stop\<close> waits for the sessions before it closes the channel.
  The goroutines interleave as the steps of a transition relation.
\<close>

section \<open>State\<close>

definition defaultPipelineWorkers :: nat where
  "defaultPipelineWorkers = 64"

definition defaultPipelineBuffer :: nat where
  "defaultPipelineBuffer = 100000"

text \<open>What a worker does with a job.\<close>

datatype effect = Mirrored string "u8 list" | Enqueued "u8 list"

text \<open>
  \<open>pl_loop\<close> and \<open>pl_live\<close> are what the wait group of the sessions counts: the accept loop and the
  open sessions.  The last five fields are history: the jobs the channel took, refused and gave
  out, those whose processing ended, and their effects.
\<close>

record pipeline =
  pl_jobs :: "postAckJob chan option"
  pl_closed :: bool
  pl_stopping :: bool
  pl_loop :: bool
  pl_live :: nat
  pl_working :: "postAckJob list"
  pl_panicked :: bool
  pl_accepted :: "postAckJob list"
  pl_dropped :: "postAckJob list"
  pl_taken :: "postAckJob list"
  pl_done :: "postAckJob list"
  pl_effects :: "effect list"

section \<open>Operations\<close>

definition startPipeline :: "pipeline" where
  "startPipeline = \<lparr>pl_jobs = Some (make_chan defaultPipelineBuffer), pl_closed = False, pl_stopping = False,
     pl_loop = False, pl_live = 0, pl_working = [], pl_panicked = False, pl_accepted = [], pl_dropped = [],
     pl_taken = [], pl_done = [], pl_effects = []\<rparr>"

text \<open>\<open>Start\<close>: without a listener the pipeline, still empty, is stopped again.\<close>

definition Start_server :: "bool \<Rightarrow> bool \<times> pipeline" where
  "Start_server listen_ok =
     (if listen_ok then (True, startPipeline\<lparr>pl_loop := True\<rparr>)
      else (False, startPipeline\<lparr>pl_closed := True, pl_jobs := None\<rparr>))"

text \<open>A send on a closed channel panics; on the nil channel of a stopped server it returns.\<close>

definition submitPostAck :: "postAckJob \<Rightarrow> pipeline \<Rightarrow> pipeline" where
  "submitPostAck job p =
     (case pl_jobs p of
        None \<Rightarrow> p
      | Some ch \<Rightarrow>
          if pl_closed p then p\<lparr>pl_panicked := True\<rparr>
          else let (ok, ch') = try_send job ch in
            if ok then p\<lparr>pl_jobs := Some ch', pl_accepted := pl_accepted p @ [job]\<rparr>
            else p\<lparr>pl_dropped := pl_dropped p @ [job]\<rparr>)"

definition processPostAck :: "Server \<Rightarrow> postAckJob \<Rightarrow> effect list" where
  "processPostAck s job =
     (if sv_mirror s \<and> length (job_frame job) > 0 then [Mirrored (job_imei job) (job_frame job)] else []) @
     (if length (job_envelope job) = 0 \<or> \<not> sv_queue s then [] else [Enqueued (job_envelope job)])"

text \<open>
  The steps: connections open and end, sessions submit, workers take and finish jobs, and \<open>Stop\<close>
  cancels, waits for the accept loop and the sessions, closes the channel and waits for the
  workers.
\<close>

datatype pipe_event =
  Connect | Disconnect | Submit postAckJob | Take | Finish postAckJob | Cancel | LeaveLoop | CloseJobs | Stopped

inductive pipe_step :: "Server \<Rightarrow> pipeline \<Rightarrow> pipe_event \<Rightarrow> pipeline \<Rightarrow> bool" for s where
  Connect: "pl_loop p \<Longrightarrow> pipe_step s p Connect (p\<lparr>pl_live := Suc (pl_live p)\<rparr>)"
| Disconnect: "pl_live p > 0 \<Longrightarrow> pipe_step s p Disconnect (p\<lparr>pl_live := pl_live p - 1\<rparr>)"
| Submit: "pl_live p > 0 \<Longrightarrow> pipe_step s p (Submit j) (submitPostAck j p)"
| Take: "pl_jobs p = Some ch \<Longrightarrow> length (pl_working p) < defaultPipelineWorkers \<Longrightarrow> try_recv ch = Some (j, ch') \<Longrightarrow>
    pipe_step s p Take (p\<lparr>pl_jobs := Some ch', pl_working := pl_working p @ [j], pl_taken := pl_taken p @ [j]\<rparr>)"
| Finish: "j \<in> set (pl_working p) \<Longrightarrow>
    pipe_step s p (Finish j) (p\<lparr>pl_working := remove1 j (pl_working p), pl_done := pl_done p @ [j],
      pl_effects := pl_effects p @ processPostAck s j\<rparr>)"
| Cancel: "\<not> pl_stopping p \<Longrightarrow> pipe_step s p Cancel (p\<lparr>pl_stopping := True\<rparr>)"
| LeaveLoop: "pl_stopping p \<Longrightarrow> pl_loop p \<Longrightarrow> pipe_step s p LeaveLoop (p\<lparr>pl_loop := False\<rparr>)"
| CloseJobs: "pl_stopping p \<Longrightarrow> \<not> pl_loop p \<Longrightarrow> pl_live p = 0 \<Longrightarrow> pl_jobs p \<noteq> None \<Longrightarrow> \<not> pl_closed p \<Longrightarrow>
    pipe_step s p CloseJobs (p\<lparr>pl_closed := True\<rparr>)"
| Stopped: "pl_closed p \<Longrightarrow> pl_jobs p = Some ch \<Longrightarrow> try_recv ch = None \<Longrightarrow> pl_working p = [] \<Longrightarrow>
    pipe_step s p Stopped (p\<lparr>pl_jobs := None\<rparr>)"

inductive pipe_run :: "Server \<Rightarrow> pipeline \<Rightarrow> pipe_event list \<Rightarrow> pipeline \<Rightarrow> bool" for s where
  pipe_Nil [intro]: "pipe_run s p [] p"
| pipe_Cons: "pipe_step s p e q \<Longrightarrow> pipe_run s q es r \<Longrightarrow> pipe_run s p (e # es) r"

inductive_cases pipe_ConsE [elim]: "pipe_run s p (e # es) r"

inductive_simps pipe_run_Nil [simp]: "pipe_run s p [] q"

section \<open>The invariant\<close>

abbreviation waiting :: "pipeline \<Rightarrow> postAckJob list" where
  "waiting p \<equiv> (case pl_jobs p of None \<Rightarrow> [] | Some ch \<Rightarrow> queued ch)"

definition pipe_inv :: "Server \<Rightarrow> pipeline \<Rightarrow> bool" where
  "pipe_inv s p \<longleftrightarrow>
     \<not> pl_panicked p \<and>
     (\<forall>ch. pl_jobs p = Some ch \<longrightarrow> bufsize ch = defaultPipelineBuffer \<and> chan_ok ch) \<and>
     length (pl_working p) \<le> defaultPipelineWorkers \<and>
     pl_accepted p = pl_taken p @ waiting p \<and>
     mset (pl_taken p) = mset (pl_working p) + mset (pl_done p) \<and>
     pl_effects p = concat (map (processPostAck s) (pl_done p)) \<and>
     (pl_closed p \<longrightarrow> pl_live p = 0 \<and> \<not> pl_loop p \<and> pl_stopping p) \<and>
     (pl_jobs p = None \<longrightarrow> pl_closed p \<and> pl_working p = [])"

lemma pipe_inv_start: "Start_server True = (ok, p) \<Longrightarrow> pipe_inv s p"
  by (auto simp: Start_server_def startPipeline_def pipe_inv_def make_chan_def chan_ok_def)

lemma queued_try_send: "queued (snd (try_send j ch)) = queued ch @ (if fst (try_send j ch) then [j] else [])"
  by (rule ch.contents_send)

lemma pipe_inv_submit:
  assumes "pipe_inv s p" and "pl_live p > 0"
  shows "pipe_inv s (submitPostAck j p)"
proof (cases "pl_jobs p")
  case (Some ch)
  have "\<not> pl_closed p" using assms by (auto simp: pipe_inv_def)
  then show ?thesis
    using assms Some ch.wf_send [of ch j] queued_try_send [of j ch]
    by (auto simp: submitPostAck_def pipe_inv_def try_send_def chan_ok_def split: prod.splits)
qed (use assms in \<open>simp add: submitPostAck_def\<close>)

lemma pipe_inv_step: "pipe_step s p e q \<Longrightarrow> pipe_inv s p \<Longrightarrow> pipe_inv s q"
proof (induction rule: pipe_step.induct)
  case (Submit p j)
  then show ?case by (simp add: pipe_inv_submit)
next
  case (Take p ch j ch')
  note R = ch.recv_Some [OF Take(3)]
  have "chan_ok ch'" "bufsize ch' = bufsize ch"
    using Take by (auto simp: pipe_inv_def try_recv_def chan_ok_def split: list.splits)
  with Take R show ?case by (auto simp: pipe_inv_def)
next
  case (Finish j p)
  then show ?case by (auto simp: pipe_inv_def length_remove1 dest: in_set_remove1)
next
  case (Stopped p ch)
  then show ?case by (auto simp: pipe_inv_def ch.recv_iff)
qed (auto simp: pipe_inv_def)

lemma pipe_inv_run: "pipe_run s p es q \<Longrightarrow> pipe_inv s p \<Longrightarrow> pipe_inv s q"
  by (induction rule: pipe_run.induct) (auto intro: pipe_inv_step)

text \<open>What one step adds to the history: a submission is accepted or dropped, never both.\<close>

lemma step_submitted:
  "pipe_step s p e q \<Longrightarrow> pipe_inv s p \<Longrightarrow>
   mset (pl_accepted q) + mset (pl_dropped q) =
     mset (pl_accepted p) + mset (pl_dropped p) + (case e of Submit j \<Rightarrow> {#j#} | _ \<Rightarrow> {#})"
proof (induction rule: pipe_step.induct)
  case (Submit p j)
  then obtain ch where "pl_jobs p = Some ch" "\<not> pl_closed p"
    by (cases "pl_jobs p") (auto simp: pipe_inv_def)
  then show ?case by (auto simp: submitPostAck_def split: prod.splits)
qed auto

lemma step_dropped:
  "pipe_step s p e q \<Longrightarrow> pipe_inv s p \<Longrightarrow>
   pl_dropped q \<noteq> pl_dropped p \<Longrightarrow> length (waiting p) = defaultPipelineBuffer"
  by (induction rule: pipe_step.induct)
     (auto simp: submitPostAck_def pipe_inv_def try_send_def chan_ok_def split: prod.splits option.splits if_splits)

fun submissions :: "pipe_event list \<Rightarrow> postAckJob list" where
  "submissions [] = []"
| "submissions (Submit j # es) = j # submissions es"
| "submissions (_ # es) = submissions es"

lemma run_submitted:
  "pipe_run s p es q \<Longrightarrow> pipe_inv s p \<Longrightarrow>
   mset (pl_accepted q) + mset (pl_dropped q) =
     mset (pl_accepted p) + mset (pl_dropped p) + mset (submissions es)"
proof (induction rule: pipe_run.induct)
  case (pipe_Cons p e q es r)
  have "mset (submissions (e # es)) = (case e of Submit j \<Rightarrow> {#j#} | _ \<Rightarrow> {#}) + mset (submissions es)"
    by (cases e) simp_all
  then show ?case
    using pipe_Cons.IH [OF pipe_inv_step [OF pipe_Cons.hyps(1) pipe_Cons.prems]]
      step_submitted [OF pipe_Cons.hyps(1) pipe_Cons.prems] by simp
qed simp

text \<open>
  C14: However sessions, workers and \<open>Stop\<close> interleave, no submission meets a closed channel, at
  most 100000 jobs wait and 64 are processed at a time, the workers take the accepted jobs in
  the order of their submission, and every submitted job is at any time in exactly one place:
  dropped, waiting, in the hands of a worker, or processed once with all its effects.
\<close>

theorem pipeline_conserves:
  assumes "Start_server True = (True, p)" and "pipe_run s p es q"
  shows "\<not> pl_panicked q \<and> length (waiting q) \<le> 100000 \<and> length (pl_working q) \<le> 64 \<and>
    pl_accepted q = pl_taken q @ waiting q \<and>
    mset (submissions es) = mset (pl_dropped q) + mset (waiting q) + mset (pl_working q) + mset (pl_done q) \<and>
    pl_effects q = concat (map (processPostAck s) (pl_done q))"
proof -
  have inv: "pipe_inv s p" using assms(1) by (rule pipe_inv_start)
  have "pl_accepted p = []" "pl_dropped p = []"
    using assms(1) by (auto simp: Start_server_def startPipeline_def)
  with run_submitted [OF assms(2) inv]
  have sub: "mset (submissions es) = mset (pl_accepted q) + mset (pl_dropped q)" by simp
  have I: "pipe_inv s q" by (rule pipe_inv_run [OF assms(2) inv])
  have "length (waiting q) \<le> 100000"
    using I by (auto simp: pipe_inv_def chan_ok_def defaultPipelineBuffer_def split: option.splits)
  moreover have "pl_accepted q = pl_taken q @ waiting q" "mset (pl_taken q) = mset (pl_working q) + mset (pl_done q)"
    "length (pl_working q) \<le> 64" "\<not> pl_panicked q" "pl_effects q = concat (map (processPostAck s) (pl_done q))"
    using I unfolding pipe_inv_def defaultPipelineWorkers_def by blast+
  ultimately show ?thesis by (simp add: sub ac_simps)
qed

section \<open>Stopping\<close>

definition work_left :: "pipeline \<Rightarrow> nat" where
  "work_left p = 2 * length (waiting p) + length (pl_working p) + (if pl_jobs p = None then 0 else 1)"

lemma closed_step:
  assumes "pipe_step s p e q" and "pipe_inv s p" and "pl_closed p"
  shows "work_left q < work_left p \<and> pl_closed q \<and> pl_accepted q = pl_accepted p"
  using assms
proof (induction rule: pipe_step.induct)
  case (Take p ch j ch')
  then show ?case using ch.recv_Some [OF Take(3)] by (simp add: work_left_def)
next
  case (Finish j p)
  then have "length (remove1 j (pl_working p)) < length (pl_working p)"
    using length_pos_if_in_set [of j "pl_working p"] by (simp add: length_remove1)
  then show ?case using Finish by (simp add: work_left_def)
next
  case (Stopped p ch)
  then show ?case by (simp add: work_left_def ch.recv_iff)
qed (auto simp: pipe_inv_def)

lemma closed_run:
  "pipe_run s p es q \<Longrightarrow> pipe_inv s p \<Longrightarrow> pl_closed p \<Longrightarrow>
   length es + work_left q \<le> work_left p \<and> pl_closed q \<and> pl_accepted q = pl_accepted p"
proof (induction rule: pipe_run.induct)
  case (pipe_Cons p e q es r)
  then show ?case using closed_step [of s p e q] pipe_inv_step [of s p e q] by fastforce
qed simp

lemma stuck_done:
  assumes "pipe_inv s p" and "pl_closed p" and "\<And>e q. \<not> pipe_step s p e q"
  shows "pl_jobs p = None \<and> mset (pl_done p) = mset (pl_accepted p)"
proof -
  have w: "pl_working p = []" using assms(3) pipe_step.Finish [of _ p s] by (cases "pl_working p") auto
  have "pl_jobs p = None"
  proof (rule ccontr)
    assume "pl_jobs p \<noteq> None"
    then obtain ch where ch: "pl_jobs p = Some ch" by blast
    show False
    proof (cases "try_recv ch")
      case None
      then show False using assms(2,3) ch w pipe_step.Stopped by blast
    next
      case (Some x)
      then show False
        using assms(3) ch w pipe_step.Take [of p ch "fst x" "snd x" s] by (simp add: defaultPipelineWorkers_def)
    qed
  qed
  then show ?thesis using assms(1) w by (auto simp: pipe_inv_def)
qed

text \<open>
  C15: Graceful stop: once \<open>Stop\<close> has closed the channel, every order of the remaining steps is
  finite, at most two per waiting job, one per job in hand and one for the end; and where no
  step is left, every job the channel ever accepted has been processed, with all its effects.
\<close>

theorem pipeline_drains:
  assumes "Start_server True = (True, p)" and "pipe_run s p es q" and "pl_closed q" and "pipe_run s q es' r"
  shows "length es' \<le> 2 * length (waiting q) + length (pl_working q) + 1 \<and>
    ((\<forall>e r'. \<not> pipe_step s r e r') \<longrightarrow>
       pl_jobs r = None \<and> mset (pl_done r) = mset (pl_accepted q) \<and>
       pl_effects r = concat (map (processPostAck s) (pl_done r)))"
proof -
  have Iq: "pipe_inv s q" using pipe_inv_run [OF assms(2)] pipe_inv_start [OF assms(1)] by blast
  have Ir: "pipe_inv s r" by (rule pipe_inv_run [OF assms(4) Iq])
  note R = closed_run [OF assms(4) Iq assms(3)]
  have "work_left q \<le> 2 * length (waiting q) + length (pl_working q) + 1" by (simp add: work_left_def)
  moreover have "pl_effects r = concat (map (processPostAck s) (pl_done r))" using Ir by (simp add: pipe_inv_def)
  ultimately show ?thesis using R stuck_done [OF Ir] by force
qed

section \<open>Running the steps\<close>

text \<open>The step of an event is determined; the function computes it.\<close>

fun pipe_exec :: "Server \<Rightarrow> pipeline \<Rightarrow> pipe_event \<Rightarrow> pipeline option" where
  "pipe_exec s p Connect = (if pl_loop p then Some (p\<lparr>pl_live := Suc (pl_live p)\<rparr>) else None)"
| "pipe_exec s p Disconnect = (if pl_live p > 0 then Some (p\<lparr>pl_live := pl_live p - 1\<rparr>) else None)"
| "pipe_exec s p (Submit j) = (if pl_live p > 0 then Some (submitPostAck j p) else None)"
| "pipe_exec s p Take =
     (case pl_jobs p of
        None \<Rightarrow> None
      | Some ch \<Rightarrow>
          if length (pl_working p) < defaultPipelineWorkers
          then (case try_recv ch of
                  None \<Rightarrow> None
                | Some (j, ch') \<Rightarrow>
                    Some (p\<lparr>pl_jobs := Some ch', pl_working := pl_working p @ [j], pl_taken := pl_taken p @ [j]\<rparr>))
          else None)"
| "pipe_exec s p (Finish j) =
     (if j \<in> set (pl_working p)
      then Some (p\<lparr>pl_working := remove1 j (pl_working p), pl_done := pl_done p @ [j],
             pl_effects := pl_effects p @ processPostAck s j\<rparr>) else None)"
| "pipe_exec s p Cancel = (if \<not> pl_stopping p then Some (p\<lparr>pl_stopping := True\<rparr>) else None)"
| "pipe_exec s p LeaveLoop = (if pl_stopping p \<and> pl_loop p then Some (p\<lparr>pl_loop := False\<rparr>) else None)"
| "pipe_exec s p CloseJobs =
     (if pl_stopping p \<and> \<not> pl_loop p \<and> pl_live p = 0 \<and> pl_jobs p \<noteq> None \<and> \<not> pl_closed p
      then Some (p\<lparr>pl_closed := True\<rparr>) else None)"
| "pipe_exec s p Stopped =
     (case pl_jobs p of
        None \<Rightarrow> None
      | Some ch \<Rightarrow>
          if pl_closed p \<and> try_recv ch = None \<and> pl_working p = [] then Some (p\<lparr>pl_jobs := None\<rparr>) else None)"

lemma pipe_exec_step: "pipe_exec s p e = Some q \<longleftrightarrow> pipe_step s p e q"
proof
  show "pipe_exec s p e = Some q \<Longrightarrow> pipe_step s p e q"
    by (cases e) (auto intro: pipe_step.intros simp del: One_nat_def split: if_splits option.splits)
  show "pipe_step s p e q \<Longrightarrow> pipe_exec s p e = Some q"
    by (induction rule: pipe_step.induct) simp_all
qed

fun pipe_execs :: "Server \<Rightarrow> pipeline \<Rightarrow> pipe_event list \<Rightarrow> pipeline option" where
  "pipe_execs s p [] = Some p"
| "pipe_execs s p (e # es) = (case pipe_exec s p e of None \<Rightarrow> None | Some q \<Rightarrow> pipe_execs s q es)"

lemma pipe_execs_run: "pipe_execs s p es = Some q \<Longrightarrow> pipe_run s p es q"
  by (induction s p es rule: pipe_execs.induct)
     (auto simp: pipe_exec_step intro: pipe_Cons split: option.splits)

definition plain_server :: Server where
  "plain_server = \<lparr>sv_cfg = \<lparr>tk_TCPEnabled = True, tk_TCPHost = ''0.0.0.0'', tk_TCPPort = ''5055'',
     tk_TimezoneOffset = 0, tk_IMEIWhitelist = []\<rparr>, sv_queue = True, sv_mirror = True, sv_imeiAllow = {}\<rparr>"

definition sample_job :: postAckJob where
  "sample_job = \<lparr>job_imei = ''86'', job_frame = [0, 1], job_envelope = [7]\<rparr>"

lemmas pipe_eval = Start_server_def startPipeline_def submitPostAck_def make_chan_def try_send_def try_recv_def
  defaultPipelineBuffer_def defaultPipelineWorkers_def

theorem pipeline_conserves_witness:
  "\<exists>q. pipe_execs plain_server (snd (Start_server True)) [Connect, Submit sample_job, Submit sample_job, Take] = Some q \<and>
     {#sample_job, sample_job#} = mset (pl_dropped q) + mset (waiting q) + mset (pl_working q) + mset (pl_done q)"
proof -
  obtain q where q: "pipe_execs plain_server (snd (Start_server True)) [Connect, Submit sample_job, Submit sample_job, Take] = Some q"
    by (simp add: pipe_eval)
  have start: "Start_server True = (True, snd (Start_server True))" by (simp add: Start_server_def)
  from pipeline_conserves [OF start pipe_execs_run [OF q]] q show ?thesis by auto
qed

theorem pipeline_drains_witness:
  "\<exists>q r. pipe_execs plain_server (snd (Start_server True))
       [Connect, Submit sample_job, Cancel, Disconnect, LeaveLoop, CloseJobs] = Some q \<and>
     pipe_execs plain_server q [Take, Finish sample_job, Stopped] = Some r \<and> 3 \<le> 2 * length (waiting q) + length (pl_working q) + 1 \<and>
     mset (pl_done r) = {#sample_job#} \<and> pl_effects r = [Mirrored ''86'' [0, 1], Enqueued [7]]"
proof -
  obtain q where q: "pipe_execs plain_server (snd (Start_server True))
      [Connect, Submit sample_job, Cancel, Disconnect, LeaveLoop, CloseJobs] = Some q"
    and closed: "pl_closed q" "pl_accepted q = [sample_job]"
    and jobs: "pl_jobs q = Some \<lparr>queued = [sample_job], bufsize = 100000\<rparr>" "pl_working q = []" "pl_done q = []" "pl_effects q = []"
    by (simp add: pipe_eval)
  obtain r where r: "pipe_execs plain_server q [Take, Finish sample_job, Stopped] = Some r"
    and stop: "pl_jobs r = None" "pl_working r = []" "pl_stopping r" "\<not> pl_loop r" "pl_live r = 0" "pl_closed r"
      "pl_effects r = [Mirrored ''86'' [0, 1], Enqueued [7]]"
    using q by (auto simp: pipe_eval processPostAck_def plain_server_def sample_job_def)
  have start: "Start_server True = (True, snd (Start_server True))" by (simp add: Start_server_def)
  have "\<not> pipe_step plain_server r e r'" for e r'
    using stop unfolding pipe_exec_step [symmetric] by (cases e) simp_all
  with pipeline_drains [OF start pipe_execs_run [OF q] closed(1) pipe_execs_run [OF r]] q r closed stop show ?thesis by auto
qed

end
