(* ===== verification/Redis_Queue.thy ===== *)
theory Redis_Queue
  imports Config
begin

text \<open>
  The Redis stream behind the service (\<open>internal/queue/redis_queue.go\<close>).  The client library
  and the server are a record of operations on a state of any type; what the program relies on
  in them is stated as laws over three observers: the entries of the stream, the identifiers
  ever given out, and the delivery counts.
\<close>

section \<open>The client\<close>

datatype redis_error = RedisNil | RedisCanceled | RedisDeadline | RedisText string

datatype field = FString string | FBytes "u8 list" | FOther

record XMessage =
  ID :: string
  Values :: "string \<rightharpoonup> field"

text \<open>
  The commands the program sends, on the stream and the group of the queue: \<open>XADD\<close> (with its
  \<open>MAXLEN ~\<close>, data and timestamp), \<open>XLEN\<close>, \<open>XGROUP CREATE MKSTREAM\<close>, \<open>XREADGROUP\<close> with a consumer
  and a count, \<open>XAUTOCLAIM\<close>, \<open>XPENDING\<close> with a count, and \<open>XACK\<close> with \<open>XDEL\<close> in one pipeline.
\<close>

record 'r redis_ops =
  op_Ping :: "'r \<Rightarrow> (redis_error, unit) result \<times> 'r"
  op_XAdd :: "int \<Rightarrow> u8 list \<Rightarrow> int \<Rightarrow> 'r \<Rightarrow> (redis_error, string) result \<times> 'r"
  op_XLen :: "'r \<Rightarrow> (redis_error, int) result \<times> 'r"
  op_XGroupCreate :: "'r \<Rightarrow> (redis_error, unit) result \<times> 'r"
  op_XReadGroup :: "string \<Rightarrow> int \<Rightarrow> 'r \<Rightarrow> (redis_error, XMessage list list) result \<times> 'r"
  op_XAutoClaim :: "string \<Rightarrow> int \<Rightarrow> 'r \<Rightarrow> (redis_error, XMessage list) result \<times> 'r"
  op_XPending :: "int \<Rightarrow> 'r \<Rightarrow> (redis_error, (string \<times> nat) list) result \<times> 'r"
  op_XAckDel :: "string list \<Rightarrow> 'r \<Rightarrow> (redis_error, unit) result \<times> 'r"

section \<open>The queue\<close>

record RedisQueue =
  rq_streamName :: string
  rq_consumerGroup :: string
  rq_maxLen :: int

datatype queue_error = ConnectFailed redis_error | GroupInit redis_error | EnqueueFailed redis_error

text \<open>\<open>strings.Contains(err.Error(), s)\<close>; the texts of the other errors hold neither word looked for.\<close>

definition error_contains :: "redis_error \<Rightarrow> string \<Rightarrow> bool" where
  "error_contains e s = (case e of RedisText t \<Rightarrow> Contains t s | _ \<Rightarrow> False)"

definition EnsureConsumerGroup :: "'r redis_ops \<Rightarrow> 'r \<Rightarrow> redis_error option \<times> 'r" where
  "EnsureConsumerGroup ops r =
     (case op_XGroupCreate ops r of
        (Err e, r') \<Rightarrow> (if error_contains e ''BUSYGROUP'' then None else Some e, r')
      | (_, r') \<Rightarrow> (None, r'))"

text \<open>The retries at startup; the third component counts the pauses of one backoff each.\<close>

fun ensure_loop :: "'r redis_ops \<Rightarrow> nat \<Rightarrow> nat \<Rightarrow> redis_error option \<Rightarrow> nat \<Rightarrow> 'r \<Rightarrow> redis_error option \<times> nat \<times> 'r" where
  "ensure_loop ops 0 i lastErr sleeps r = (lastErr, sleeps, r)"
| "ensure_loop ops (Suc left) i lastErr sleeps r =
     (let sleeps' = (if i > 0 then sleeps + 1 else sleeps) in
      case EnsureConsumerGroup ops r of
        (None, r') \<Rightarrow> (None, sleeps', r')
      | (Some e, r') \<Rightarrow> ensure_loop ops left (i + 1) (Some e) sleeps' r')"

definition ensureConsumerGroupWithRetry :: "'r redis_ops \<Rightarrow> nat \<Rightarrow> 'r \<Rightarrow> redis_error option \<times> nat \<times> 'r" where
  "ensureConsumerGroupWithRetry ops attempts r = ensure_loop ops attempts 0 None 0 r"

definition pool_size :: "RedisConfig \<Rightarrow> int" where
  "pool_size cfg = (if rc_PoolSize cfg \<le> 0 then 200 else rc_PoolSize cfg)"

definition NewRedisQueue :: "'r redis_ops \<Rightarrow> RedisConfig \<Rightarrow> 'r \<Rightarrow> (queue_error, RedisQueue) result \<times> 'r" where
  "NewRedisQueue ops cfg r =
     (case op_Ping ops r of
        (Err e, r') \<Rightarrow> (Err (ConnectFailed e), r')
      | (_, r') \<Rightarrow>
          (let queue = \<lparr>rq_streamName = rc_StreamName cfg, rq_consumerGroup = rc_ConsumerGroup cfg,
                 rq_maxLen = rc_MaxLen cfg\<rparr>;
               (err, _, r'') = ensureConsumerGroupWithRetry ops 3 r'
           in case err of Some e \<Rightarrow> (Err (GroupInit e), r'') | None \<Rightarrow> (Ok queue, r'')))"

text \<open>
  \<open>EnqueueWithDepth\<close>: both commands travel in one pipeline and an error of either is the error of
  the call, also when the message has been added.
\<close>

definition EnqueueWithDepth ::
  "'r redis_ops \<Rightarrow> RedisQueue \<Rightarrow> int \<Rightarrow> u8 list \<Rightarrow> 'r \<Rightarrow> (queue_error, string \<times> int) result \<times> 'r" where
  "EnqueueWithDepth ops q now data r =
     (let (add, r1) = op_XAdd ops (rq_maxLen q) data now r; (len, r2) = op_XLen ops r1 in
      case add of
        Err e \<Rightarrow> (Err (EnqueueFailed e), r2)
      | Panic \<Rightarrow> (Panic, r2)
      | Ok messageID \<Rightarrow>
          (case len of
             Err e \<Rightarrow> (Err (EnqueueFailed e), r2)
           | Panic \<Rightarrow> (Panic, r2)
           | Ok depth \<Rightarrow> (Ok (messageID, depth), r2)))"

definition Enqueue :: "'r redis_ops \<Rightarrow> RedisQueue \<Rightarrow> int \<Rightarrow> u8 list \<Rightarrow> 'r \<Rightarrow> (queue_error, string) result \<times> 'r" where
  "Enqueue ops q now data r =
     (let (add, r1) = op_XAdd ops (rq_maxLen q) data now r in (mapErr EnqueueFailed add, r1))"

definition GetStreamName :: "RedisQueue \<Rightarrow> string" where
  "GetStreamName q = rq_streamName q"

definition GetConsumerGroup :: "RedisQueue \<Rightarrow> string" where
  "GetConsumerGroup q = rq_consumerGroup q"

definition GetMaxLen :: "RedisQueue \<Rightarrow> int" where
  "GetMaxLen q = rq_maxLen q"

definition Len :: "'r redis_ops \<Rightarrow> 'r \<Rightarrow> (redis_error, int) result \<times> 'r" where
  "Len ops r = op_XLen ops r"

section \<open>What the program relies on in Redis\<close>

text \<open>The entry that \<open>XADD\<close> makes of data and timestamp; the client hands every value back as a string.\<close>

definition stream_entry :: "string \<Rightarrow> u8 list \<Rightarrow> int \<Rightarrow> XMessage" where
  "stream_entry i data now =
     \<lparr>ID = i, Values = [''data'' \<mapsto> FString (string_of data), ''timestamp'' \<mapsto> FString (Itoa now)]\<rparr>"

text \<open>
  The documented behaviour.  \<open>XADD\<close> appends at most one entry with an identifier never given out
  before, exactly one when it succeeds; approximate trimming removes old entries only while the
  stream keeps the bound at least, and none without a bound.  Reading and claiming return
  entries of the stream and count a delivery of each at most; the pending list shows delivery
  counts; acknowledging and deleting removes entries of the given identifiers only, all of them
  when it succeeds.  No other command changes the entries.
\<close>

record 'r redis_view =
  entries :: "'r \<Rightarrow> XMessage list"
  used :: "'r \<Rightarrow> string set"
  counts :: "'r \<Rightarrow> string \<Rightarrow> nat"

definition unchanged :: "'r redis_view \<Rightarrow> 'r \<Rightarrow> 'r \<Rightarrow> bool" where
  "unchanged v r r' \<longleftrightarrow> entries v r' = entries v r \<and> used v r' = used v r \<and> counts v r' = counts v r"

definition delivered_once :: "'r redis_view \<Rightarrow> XMessage list \<Rightarrow> 'r \<Rightarrow> 'r \<Rightarrow> bool" where
  "delivered_once v ms r r' \<longleftrightarrow>
     entries v r' = entries v r \<and> used v r' = used v r \<and> set ms \<subseteq> set (entries v r) \<and> distinct (map ID ms) \<and>
     (\<forall>i. counts v r' i \<le> counts v r i + (if i \<in> ID ` set ms then 1 else 0))"

definition xadd_law :: "'r redis_view \<Rightarrow> int \<Rightarrow> u8 list \<Rightarrow> int \<Rightarrow> (redis_error, string) result \<Rightarrow> 'r \<Rightarrow> 'r \<Rightarrow> bool" where
  "xadd_law v maxLen data now res r r' \<longleftrightarrow>
     (\<exists>k new. entries v r' = drop k (entries v r @ map (\<lambda>i. stream_entry i data now) new) \<and>
        used v r' = used v r \<union> set new \<and> set new \<inter> used v r = {} \<and> length new \<le> 1 \<and>
        (0 < k \<longrightarrow> 0 < maxLen \<and> maxLen \<le> int (length (entries v r'))) \<and>
        (\<forall>i. res = Ok i \<longrightarrow> new = [i])) \<and>
     counts v r' = counts v r"

definition xackdel_law :: "'r redis_view \<Rightarrow> string list \<Rightarrow> (redis_error, unit) result \<Rightarrow> 'r \<Rightarrow> 'r \<Rightarrow> bool" where
  "xackdel_law v ids res r r' \<longleftrightarrow>
     (\<exists>gone \<subseteq> set ids. entries v r' = filter (\<lambda>m. ID m \<notin> gone) (entries v r) \<and> (res = Ok () \<longrightarrow> gone = set ids)) \<and>
     used v r' = used v r \<and> (\<forall>i. counts v r' i \<le> counts v r i)"

definition redis_laws :: "'r redis_ops \<Rightarrow> 'r redis_view \<Rightarrow> bool" where
  "redis_laws ops v \<longleftrightarrow>
     (\<forall>r. ID ` set (entries v r) \<subseteq> used v r \<and> distinct (map ID (entries v r))) \<and>
     (\<forall>r. unchanged v r (snd (op_Ping ops r)) \<and> unchanged v r (snd (op_XLen ops r)) \<and>
          unchanged v r (snd (op_XGroupCreate ops r))) \<and>
     (\<forall>m d t r. xadd_law v m d t (fst (op_XAdd ops m d t r)) r (snd (op_XAdd ops m d t r))) \<and>
     (\<forall>c n r. delivered_once v (case fst (op_XReadGroup ops c n r) of Ok mss \<Rightarrow> concat mss | _ \<Rightarrow> [])
        r (snd (op_XReadGroup ops c n r))) \<and>
     (\<forall>c n r. delivered_once v (case fst (op_XAutoClaim ops c n r) of Ok ms \<Rightarrow> ms | _ \<Rightarrow> [])
        r (snd (op_XAutoClaim ops c n r))) \<and>
     (\<forall>n r. unchanged v r (snd (op_XPending ops n r)) \<and>
        (\<forall>ps. fst (op_XPending ops n r) = Ok ps \<longrightarrow> (\<forall>(i, k) \<in> set ps. k = counts v r i))) \<and>
     (\<forall>ids r. xackdel_law v ids (fst (op_XAckDel ops ids r)) r (snd (op_XAckDel ops ids r)))"

text \<open>The laws, one per command.\<close>

lemma law_view: "redis_laws ops v \<Longrightarrow> ID ` set (entries v r) \<subseteq> used v r \<and> distinct (map ID (entries v r))"
  by (simp add: redis_laws_def)

lemma law_XLen: "redis_laws ops v \<Longrightarrow> op_XLen ops r = (res, r') \<Longrightarrow> unchanged v r r'"
  by (metis redis_laws_def snd_conv)

lemma law_XAdd: "redis_laws ops v \<Longrightarrow> op_XAdd ops m d t r = (res, r') \<Longrightarrow> xadd_law v m d t res r r'"
  by (metis redis_laws_def fst_conv snd_conv)

lemma law_XReadGroup:
  "redis_laws ops v \<Longrightarrow> op_XReadGroup ops c n r = (res, r') \<Longrightarrow>
   delivered_once v (case res of Ok mss \<Rightarrow> concat mss | _ \<Rightarrow> []) r r'"
  by (metis redis_laws_def fst_conv snd_conv)

lemma law_XAutoClaim:
  "redis_laws ops v \<Longrightarrow> op_XAutoClaim ops c n r = (res, r') \<Longrightarrow>
   delivered_once v (case res of Ok ms \<Rightarrow> ms | _ \<Rightarrow> []) r r'"
  by (metis redis_laws_def fst_conv snd_conv)

lemma law_XPending:
  assumes "redis_laws ops v" and "op_XPending ops n r = (res, r')"
  shows "unchanged v r r'" and "res = Ok ps \<Longrightarrow> (i, k) \<in> set ps \<Longrightarrow> k = counts v r i"
proof -
  have "unchanged v r (snd (op_XPending ops n r)) \<and>
      (\<forall>ps. fst (op_XPending ops n r) = Ok ps \<longrightarrow> (\<forall>(i, k) \<in> set ps. k = counts v r i))"
    using assms(1) by (simp add: redis_laws_def)
  then show "unchanged v r r'" and "res = Ok ps \<Longrightarrow> (i, k) \<in> set ps \<Longrightarrow> k = counts v r i"
    using assms(2) by auto
qed

lemma law_XGroupCreate: "redis_laws ops v \<Longrightarrow> op_XGroupCreate ops r = (res, r') \<Longrightarrow> unchanged v r r'"
  by (metis redis_laws_def snd_conv)

lemma law_XAckDel: "redis_laws ops v \<Longrightarrow> op_XAckDel ops ids r = (res, r') \<Longrightarrow> xackdel_law v ids res r r'"
  by (metis redis_laws_def fst_conv snd_conv)

lemma unchanged_refl [simp]: "unchanged v r r"
  by (simp add: unchanged_def)

end
