(* ===== verification/Reachability.thy ===== *)
theory Reachability
  imports Main
begin

text \<open>
  The states that a step relation reaches, and the two contracts under which the parts of the
  receiver that run concurrently are proved correct: an invariant that every step keeps, and a
  part of the state that no step changes while the invariant holds.
\<close>

inductive reachable :: "('s \<Rightarrow> bool) \<Rightarrow> ('s \<Rightarrow> 's \<Rightarrow> bool) \<Rightarrow> 's \<Rightarrow> bool" for init step where
  reach_init: "init s \<Longrightarrow> reachable init step s"
| reach_step: "reachable init step s \<Longrightarrow> step s t \<Longrightarrow> reachable init step t"

lemma reachable_mono:
  assumes "reachable init step s" and "\<And>s. init s \<Longrightarrow> init' s" and "\<And>s t. step s t \<Longrightarrow> step' s t"
  shows "reachable init' step' s"
  using assms(1) by (induction rule: reachable.induct) (auto intro: reach_init reach_step assms(2,3))

lemma reachable_from: "reachable ((=) s) step t \<Longrightarrow> reachable init step s \<Longrightarrow> reachable init step t"
  by (induction rule: reachable.induct) (auto intro: reach_step)

locale invariant_system =
  fixes init :: "'s \<Rightarrow> bool"
    and step :: "'s \<Rightarrow> 's \<Rightarrow> bool"
    and inv :: "'s \<Rightarrow> bool"
  assumes inv_init: "init s \<Longrightarrow> inv s"
    and inv_step: "step s t \<Longrightarrow> inv s \<Longrightarrow> inv t"
begin

lemma reachable_inv: "reachable init step s \<Longrightarrow> inv s"
  by (induction rule: reachable.induct) (auto intro: inv_init inv_step)

lemma inv_from: "reachable ((=) s) step t \<Longrightarrow> inv s \<Longrightarrow> inv t"
  by (induction rule: reachable.induct) (auto intro: inv_step)

end

locale conserving_system = invariant_system init step inv
  for init :: "'s \<Rightarrow> bool" and step :: "'s \<Rightarrow> 's \<Rightarrow> bool" and inv :: "'s \<Rightarrow> bool" +
  fixes part :: "'s \<Rightarrow> 'p"
  assumes part_step: "step s t \<Longrightarrow> inv s \<Longrightarrow> part t = part s"
begin

lemma part_from:
  assumes "reachable ((=) s) step t" and "inv s"
  shows "part t = part s"
  using assms(1)
proof (induction rule: reachable.induct)
  case (reach_step t u)
  then show ?case using part_step [OF reach_step.hyps(2)] inv_from [OF reach_step.hyps(1) assms(2)] by simp
qed simp

end

end
