(* ===== verification/Queue_Consumer.thy ===== *)
theory Queue_Consumer
  imports Redis_Queue Reachability
begin

text \<open>
  The consumer (\<open>internal/queue/consumer.go\<close>): what happens to one message, to a batch handled
  by concurrent goroutines, to a read of the stream, and to messages left pending.  The message
  handler is an operation on a state of any type; it may return, fail with or without a delay,
  or panic.
\<close>

section \<open>State\<close>

text \<open>\<open>nil\<close>, an error (with its delay when it is a \<open>retryableError\<close>), or a panic.\<close>

datatype handler_result = HandlerNil | HandlerError "int option" | HandlerPanic

type_synonym 'h handler = "u8 list \<Rightarrow> 'h \<Rightarrow> handler_result \<times> 'h"

record Consumer =
  co_queue :: RedisQueue
  co_workerCount :: int
  co_batchSize :: int
  co_maxRetries :: int
  co_consumerPrefix :: string

definition NewConsumer :: "RedisQueue \<Rightarrow> int \<Rightarrow> int \<Rightarrow> int \<Rightarrow> int \<Rightarrow> Consumer" where
  "NewConsumer queue workerCount batchSize maxRetries nowUnix =
     \<lparr>co_queue = queue, co_workerCount = workerCount, co_batchSize = batchSize, co_maxRetries = maxRetries,
      co_consumerPrefix = ''worker-'' @ Itoa nowUnix\<rparr>"

text \<open>\<open>Start\<close>: the workers' numbers; \<open>worker\<close> makes the consumer's name of its number.\<close>

definition Start_workers :: "Consumer \<Rightarrow> int list" where
  "Start_workers c = map int [0 ..< nat (co_workerCount c)]"

definition worker_name :: "Consumer \<Rightarrow> int \<Rightarrow> string" where
  "worker_name c workerID = co_consumerPrefix c @ ''-'' @ Itoa workerID"

definition reclaimer_name :: "Consumer \<Rightarrow> string" where
  "reclaimer_name c = co_consumerPrefix c @ ''-reclaimer''"

section \<open>One message\<close>

text \<open>The outcome of \<open>handleMessage\<close> as its goroutine sees it: acknowledge, leave, or a recovered panic.\<close>

datatype msg_outcome = AckIt | LeaveIt | PanickedIt

definition maxRedeliveryDelay :: int where
  "maxRedeliveryDelay = 30 * Second"

text \<open>How long the goroutine waits after an error before it gives up the message.\<close>

definition redelivery_wait :: "int option \<Rightarrow> int" where
  "redelivery_wait re =
     (case re of
        None \<Rightarrow> 0
      | Some d \<Rightarrow> (let delay = (if d > maxRedeliveryDelay then maxRedeliveryDelay else d) in if delay > 0 then delay else 0))"

definition message_data :: "XMessage \<Rightarrow> u8 list option" where
  "message_data msg =
     (case Values msg ''data'' of
        Some (FString v) \<Rightarrow> Some (bytes_of v)
      | Some (FBytes v) \<Rightarrow> Some v
      | _ \<Rightarrow> None)"

text \<open>The result: the outcome, the wait, and the handler's state.\<close>

definition handleMessage :: "'h handler \<Rightarrow> XMessage \<Rightarrow> 'h \<Rightarrow> msg_outcome \<times> int \<times> 'h" where
  "handleMessage handler msg h =
     (case message_data msg of
        None \<Rightarrow> (AckIt, 0, h)
      | Some data \<Rightarrow>
          (case handler data h of
             (HandlerNil, h') \<Rightarrow> (AckIt, 0, h')
           | (HandlerError re, h') \<Rightarrow> (LeaveIt, redelivery_wait re, h')
           | (HandlerPanic, h') \<Rightarrow> (PanickedIt, 0, h')))"

section \<open>Batches\<close>

text \<open>
  The goroutine of one message: its identifier joins \<open>ackIDs\<close> when the message is done.  A batch
  is the messages whose goroutines have started, in the order in which they end, as the order of
  the identifiers is; once the consumer is cancelled no further message of the batch is started.
\<close>

definition finish_message :: "'h handler \<Rightarrow> XMessage \<Rightarrow> string list \<Rightarrow> 'h \<Rightarrow> string list \<times> 'h" where
  "finish_message handler msg ackIDs h =
     (let (out, _, h') = handleMessage handler msg h in
      (if out = AckIt then ackIDs @ [ID msg] else ackIDs, h'))"

fun finish_all :: "'h handler \<Rightarrow> XMessage list \<Rightarrow> string list \<Rightarrow> 'h \<Rightarrow> string list \<times> 'h" where
  "finish_all handler [] ackIDs h = (ackIDs, h)"
| "finish_all handler (msg # msgs) ackIDs h =
     (let (ackIDs', h') = finish_message handler msg ackIDs h in finish_all handler msgs ackIDs' h')"

definition batchAck :: "'r redis_ops \<Rightarrow> string list \<Rightarrow> 'r \<Rightarrow> 'r" where
  "batchAck ops ids r = (if length ids = 0 then r else snd (op_XAckDel ops ids r))"

definition processBatchConcurrently ::
  "'r redis_ops \<Rightarrow> 'h handler \<Rightarrow> XMessage list \<Rightarrow> 'r \<Rightarrow> 'h \<Rightarrow> 'r \<times> 'h" where
  "processBatchConcurrently ops handler finished r h =
     (let (ackIDs, h') = finish_all handler finished [] h in (batchAck ops ackIDs r, h'))"

section \<open>Reading the stream\<close>

text \<open>
  \<open>processMessages\<close>: the batches that were read, after the recovery of a lost group, and whether
  the worker pauses for a second.
\<close>

definition processMessages ::
  "'r redis_ops \<Rightarrow> Consumer \<Rightarrow> string \<Rightarrow> 'r \<Rightarrow> (XMessage list list \<times> bool) \<times> 'r" where
  "processMessages ops c consumerName r =
     (case op_XReadGroup ops consumerName (co_batchSize c) r of
        (Err e, r') \<Rightarrow>
          if e = RedisCanceled \<or> e = RedisDeadline \<or> e = RedisNil then (([], False), r')
          else if error_contains e ''NOGROUP'' then (([], True), snd (EnsureConsumerGroup ops r'))
          else (([], True), r')
      | (Ok streams, r') \<Rightarrow> ((filter (\<lambda>ms. length ms \<noteq> 0) streams, False), r')
      | (Panic, r') \<Rightarrow> (([], True), r'))"

section \<open>Pending messages\<close>

definition dropExcessiveRetries :: "'r redis_ops \<Rightarrow> Consumer \<Rightarrow> 'r \<Rightarrow> string list \<times> 'r" where
  "dropExcessiveRetries ops c r =
     (if co_maxRetries c \<le> 0 then ([], r)
      else case op_XPending ops 200 r of
        (Ok pending, r') \<Rightarrow>
          (let deadIDs = map fst (filter (\<lambda>(_, retryCount). int retryCount \<ge> co_maxRetries c) pending) in
           if length deadIDs > 0 then (deadIDs, batchAck ops deadIDs r') else ([], r'))
      | (_, r') \<Rightarrow> ([], r'))"

text \<open>\<open>claimStaleMessages\<close>: the identifiers dropped, and the batch claimed for reprocessing.\<close>

definition claimStaleMessages ::
  "'r redis_ops \<Rightarrow> Consumer \<Rightarrow> 'r \<Rightarrow> (string list \<times> XMessage list) \<times> 'r" where
  "claimStaleMessages ops c r =
     (let (dropped, r1) = dropExcessiveRetries ops c r in
      case op_XAutoClaim ops (reclaimer_name c) (co_batchSize c) r1 of
        (Ok messages, r2) \<Rightarrow> ((dropped, messages), r2)
      | (_, r2) \<Rightarrow> ((dropped, []), r2))"

section \<open>The system\<close>

text \<open>
  Producers, workers, the reclaimer and the stop of the process as one transition relation.  A
  batch in work has the messages whose goroutines have not ended and the identifiers to
  acknowledge.  The other fields are history: the entries enqueued, those done (\<open>AckIt\<close>), the
  identifiers dropped, the entries trimmed away with the length the stream kept, and the number
  of deliveries.
\<close>

record batch =
  b_running :: "XMessage list"
  b_acks :: "string list"

record ('r, 'h) system =
  s_redis :: 'r
  s_handler :: 'h
  s_batches :: "batch list"
  s_enqueued :: "XMessage list"
  s_done :: "XMessage list"
  s_dropped :: "string list"
  s_trimmed :: "(XMessage \<times> nat) list"
  s_deliveries :: "string \<Rightarrow> nat"

definition deliver :: "XMessage list \<Rightarrow> (string \<Rightarrow> nat) \<Rightarrow> (string \<Rightarrow> nat)" where
  "deliver ms d = (\<lambda>i. d i + length (filter (\<lambda>m. ID m = i) ms))"

definition start_batches :: "XMessage list list \<Rightarrow> batch list" where
  "start_batches mss = map (\<lambda>ms. \<lparr>b_running = ms, b_acks = []\<rparr>) mss"

inductive qstep ::
  "'r redis_ops \<Rightarrow> 'r redis_view \<Rightarrow> Consumer \<Rightarrow> 'h handler \<Rightarrow> ('r, 'h) system \<Rightarrow> ('r, 'h) system \<Rightarrow> bool"
  for ops v c handler where
  enqueue: "Enqueue ops (co_queue c) now data (s_redis s) = (res, r') \<Longrightarrow>
    qstep ops v c handler s (s\<lparr>s_redis := r',
      s_enqueued := s_enqueued s @ (case res of Ok i \<Rightarrow> [stream_entry i data now] | _ \<Rightarrow> []),
      s_trimmed := s_trimmed s @ map (\<lambda>m. (m, length (entries v r'))) (filter (\<lambda>m. m \<notin> set (entries v r'))
        (entries v (s_redis s) @ (case res of Ok i \<Rightarrow> [stream_entry i data now] | _ \<Rightarrow> [])))\<rparr>)"
| depth: "op_XLen ops (s_redis s) = (res, r') \<Longrightarrow> qstep ops v c handler s (s\<lparr>s_redis := r'\<rparr>)"
| read: "i \<in> set (Start_workers c) \<Longrightarrow>
    processMessages ops c (worker_name c i) (s_redis s) = ((mss, pause), r') \<Longrightarrow>
    qstep ops v c handler s (s\<lparr>s_redis := r', s_batches := s_batches s @ start_batches mss,
      s_deliveries := deliver (concat mss) (s_deliveries s)\<rparr>)"
| finish: "b \<in> set (s_batches s) \<Longrightarrow> m \<in> set (b_running b) \<Longrightarrow>
    finish_message handler m (b_acks b) (s_handler s) = (acks, h') \<Longrightarrow>
    qstep ops v c handler s (s\<lparr>s_handler := h',
      s_batches := remove1 b (s_batches s) @ [\<lparr>b_running = remove1 m (b_running b), b_acks = acks\<rparr>],
      s_done := s_done s @ (if fst (handleMessage handler m (s_handler s)) = AckIt then [m] else [])\<rparr>)"
| ack: "b \<in> set (s_batches s) \<Longrightarrow> b_running b = [] \<Longrightarrow>
    qstep ops v c handler s (s\<lparr>s_redis := batchAck ops (b_acks b) (s_redis s),
      s_batches := remove1 b (s_batches s)\<rparr>)"
| cancel: "b \<in> set (s_batches s) \<Longrightarrow> b_running b = rest @ skipped \<Longrightarrow>
    qstep ops v c handler s (s\<lparr>s_batches := remove1 b (s_batches s) @ [b\<lparr>b_running := rest\<rparr>]\<rparr>)"
| reclaim: "claimStaleMessages ops c (s_redis s) = ((dropped, ms), r') \<Longrightarrow>
    qstep ops v c handler s (s\<lparr>s_dropped := s_dropped s @ dropped, s_redis := r',
      s_batches := s_batches s @ start_batches [ms], s_deliveries := deliver ms (s_deliveries s)\<rparr>)"
| crash: "qstep ops v c handler s (s\<lparr>s_batches := [], s_handler := h'\<rparr>)"

definition fresh_system :: "'r redis_view \<Rightarrow> ('r, 'h) system \<Rightarrow> bool" where
  "fresh_system v s \<longleftrightarrow> entries v (s_redis s) = [] \<and> counts v (s_redis s) = (\<lambda>_. 0) \<and> s_batches s = [] \<and> s_enqueued s = [] \<and>
     s_done s = [] \<and> s_dropped s = [] \<and> s_trimmed s = [] \<and> s_deliveries s = (\<lambda>_. 0)"

abbreviation qreach ::
  "'r redis_ops \<Rightarrow> 'r redis_view \<Rightarrow> Consumer \<Rightarrow> 'h handler \<Rightarrow> ('r, 'h) system \<Rightarrow> bool" where
  "qreach ops v c handler \<equiv> reachable (fresh_system v) (qstep ops v c handler)"

section \<open>At-least-once delivery\<close>

definition known :: "'r redis_view \<Rightarrow> ('r, 'h) system \<Rightarrow> XMessage set" where
  "known v s = set (entries v (s_redis s)) \<union> set (s_enqueued s) \<union> set (s_done s) \<union>
     (\<Union>b \<in> set (s_batches s). set (b_running b))"

definition done_ok :: "'h handler \<Rightarrow> XMessage \<Rightarrow> bool" where
  "done_ok handler m \<longleftrightarrow> (\<forall>data. message_data m = Some data \<longrightarrow> (\<exists>h. fst (handler data h) = HandlerNil))"

definition accounted :: "'r redis_view \<Rightarrow> ('r, 'h) system \<Rightarrow> XMessage \<Rightarrow> bool" where
  "accounted v s m \<longleftrightarrow> m \<in> set (entries v (s_redis s)) \<or> m \<in> set (s_done s) \<or> ID m \<in> set (s_dropped s) \<or>
     m \<in> fst ` set (s_trimmed s)"

definition qinv :: "'r redis_view \<Rightarrow> Consumer \<Rightarrow> 'h handler \<Rightarrow> ('r, 'h) system \<Rightarrow> bool" where
  "qinv v c handler s \<longleftrightarrow>
     inj_on ID (known v s) \<and> ID ` known v s \<subseteq> used v (s_redis s) \<and>
     (\<forall>b \<in> set (s_batches s). set (b_acks b) \<subseteq> ID ` set (s_done s)) \<and>
     (\<forall>m \<in> set (s_enqueued s). accounted v s m) \<and>
     (\<forall>m \<in> set (s_done s). done_ok handler m) \<and>
     (\<forall>i \<in> set (s_dropped s). 0 < co_maxRetries c \<and> co_maxRetries c \<le> int (s_deliveries s i)) \<and>
     (\<forall>(m, n) \<in> set (s_trimmed s). 0 < rq_maxLen (co_queue c) \<and> rq_maxLen (co_queue c) \<le> int n) \<and>
     (\<forall>i. counts v (s_redis s) i \<le> s_deliveries s i)"

lemma handleMessage_AckIt: "fst (handleMessage handler m h) = AckIt \<Longrightarrow> done_ok handler m"
  by (auto simp: handleMessage_def done_ok_def split: option.splits handler_result.splits prod.splits)
     (metis fst_conv)+

lemma finish_message_acks:
  "finish_message handler m acks h = (acks', h') \<Longrightarrow>
   acks' = (if fst (handleMessage handler m h) = AckIt then acks @ [ID m] else acks)"
  by (auto simp: finish_message_def Let_def split: prod.splits)

lemma finish_all_acks:
  "set (fst (finish_all handler ms acks h)) \<subseteq> set acks \<union> ID ` {m \<in> set ms. done_ok handler m}"
proof (induction ms arbitrary: acks h)
  case (Cons m ms)
  obtain acks' h' where f: "finish_message handler m acks h = (acks', h')" by fastforce
  then have "set acks' \<subseteq> set acks \<union> ID ` {m' \<in> {m}. done_ok handler m'}"
    using finish_message_acks [OF f] handleMessage_AckIt [of handler m h] by auto
  then show ?case using Cons.IH [of acks' h'] by (auto simp: f)
qed simp

lemma batchAck_entries:
  assumes "redis_laws ops v"
  shows "\<exists>gone \<subseteq> set ids. entries v (batchAck ops ids r) = filter (\<lambda>m. ID m \<notin> gone) (entries v r)"
    and "used v (batchAck ops ids r) = used v r"
    and "counts v (batchAck ops ids r) i \<le> counts v r i"
proof -
  obtain res r' where x: "op_XAckDel ops ids r = (res, r')" by fastforce
  show "\<exists>gone \<subseteq> set ids. entries v (batchAck ops ids r) = filter (\<lambda>m. ID m \<notin> gone) (entries v r)"
    and "used v (batchAck ops ids r) = used v r" and "counts v (batchAck ops ids r) i \<le> counts v r i"
    using law_XAckDel [OF assms x] by (auto simp: batchAck_def xackdel_law_def x)
qed

lemma EnsureConsumerGroup_unchanged:
  assumes "redis_laws ops v"
  shows "unchanged v r (snd (EnsureConsumerGroup ops r))"
proof -
  obtain res r' where x: "op_XGroupCreate ops r = (res, r')" by fastforce
  then show ?thesis using law_XGroupCreate [OF assms x] by (simp add: EnsureConsumerGroup_def split: result.splits)
qed

lemma concat_nonempty: "concat (filter (\<lambda>ms. length ms \<noteq> 0) mss) = concat mss"
  by (induction mss) auto

lemma delivered_none: "delivered_once v [] r r1 \<Longrightarrow> unchanged v r1 r2 \<Longrightarrow> delivered_once v [] r r2"
  by (simp add: delivered_once_def unchanged_def)

lemma processMessages_delivers:
  assumes "redis_laws ops v" and "processMessages ops c name r = ((mss, pause), r')"
  shows "delivered_once v (concat mss) r r'"
proof -
  obtain res r1 where x: "op_XReadGroup ops name (co_batchSize c) r = (res, r1)" by fastforce
  note d = law_XReadGroup [OF assms(1) x] and e = EnsureConsumerGroup_unchanged [OF assms(1), of r1]
  show ?thesis
  proof (cases res)
    case (Ok streams)
    then have "mss = filter (\<lambda>ms. length ms \<noteq> 0) streams" "r' = r1" using assms(2) x by (simp_all add: processMessages_def)
    then show ?thesis using d Ok by (simp only: concat_nonempty result.case)
  next
    case (Err er)
    then show ?thesis using assms(2) x d delivered_none [OF _ e] by (auto simp: processMessages_def split: if_splits)
  next
    case Panic
    then show ?thesis using assms(2) x d by (simp add: processMessages_def)
  qed
qed

lemma dropExcessiveRetries_drops:
  assumes "redis_laws ops v" and "dropExcessiveRetries ops c r = (dropped, r')"
  shows "\<exists>gone \<subseteq> set dropped. entries v r' = filter (\<lambda>m. ID m \<notin> gone) (entries v r)"
    and "used v r' = used v r" and "counts v r' i \<le> counts v r i"
    and "j \<in> set dropped \<Longrightarrow> 0 < co_maxRetries c \<and> co_maxRetries c \<le> int (counts v r j)"
proof -
  obtain res r1 where x: "op_XPending ops 200 r = (res, r1)" by fastforce
  note p = law_XPending [OF assms(1) x]
  show "\<exists>gone \<subseteq> set dropped. entries v r' = filter (\<lambda>m. ID m \<notin> gone) (entries v r)"
    and "used v r' = used v r" and "counts v r' i \<le> counts v r i"
    using assms(2) p(1) batchAck_entries [OF assms(1), where r = r1]
    by (auto simp: dropExcessiveRetries_def x unchanged_def Let_def split: if_splits result.splits)
  show "j \<in> set dropped \<Longrightarrow> 0 < co_maxRetries c \<and> co_maxRetries c \<le> int (counts v r j)"
    using assms(2) p(2) by (fastforce simp: dropExcessiveRetries_def x Let_def split: if_splits result.splits)
qed

text \<open>Steps that only shrink the stream.\<close>

lemma qinv_shrink:
  assumes "qinv v c handler s" and "entries v r' = filter (\<lambda>m. ID m \<notin> gone) (entries v (s_redis s))"
    and "used v r' = used v (s_redis s)" and "\<And>i. counts v r' i \<le> counts v (s_redis s) i"
    and "gone \<subseteq> ID ` set (s_done s) \<union> set dropped"
    and "\<And>i. i \<in> set dropped \<Longrightarrow> 0 < co_maxRetries c \<and> co_maxRetries c \<le> int (counts v (s_redis s) i)"
  shows "qinv v c handler (s\<lparr>s_redis := r', s_dropped := s_dropped s @ dropped\<rparr>)"
proof -
  let ?s = "s\<lparr>s_redis := r', s_dropped := s_dropped s @ dropped\<rparr>"
  have sub: "known v ?s \<subseteq> known v s" using assms(2) by (auto simp: known_def)
  have inj: "inj_on ID (known v s)" "ID ` known v s \<subseteq> used v (s_redis s)" using assms(1) by (simp_all add: qinv_def)
  have "accounted v ?s m" if m: "m \<in> set (s_enqueued s)" for m
  proof -
    have "accounted v s m" using assms(1) m by (simp add: qinv_def)
    moreover have "m \<in> set (s_done s)" if e: "m \<in> set (entries v (s_redis s))" and g: "ID m \<in> gone" "ID m \<notin> set dropped"
    proof -
      obtain m' where m': "m' \<in> set (s_done s)" "ID m' = ID m" using g assms(5) by force
      then have "m' = m" using inj(1) e by (auto simp: known_def inj_on_def)
      with m' show ?thesis by simp
    qed
    ultimately show ?thesis using assms(2) by (auto simp: accounted_def)
  qed
  moreover have "0 < co_maxRetries c \<and> co_maxRetries c \<le> int (s_deliveries s i)" if "i \<in> set (s_dropped ?s)" for i
  proof -
    have "counts v (s_redis s) i \<le> s_deliveries s i" using assms(1) by (simp add: qinv_def)
    moreover have "i \<in> set (s_dropped s) \<Longrightarrow> 0 < co_maxRetries c \<and> co_maxRetries c \<le> int (s_deliveries s i)"
      using assms(1) by (simp add: qinv_def)
    ultimately show ?thesis using that assms(6) [of i] by (cases "i \<in> set dropped") auto
  qed
  moreover have "counts v r' i \<le> s_deliveries s i" for i
  proof -
    have "counts v (s_redis s) i \<le> s_deliveries s i" using assms(1) by (simp add: qinv_def)
    with assms(4) [of i] show ?thesis by linarith
  qed
  moreover have "ID ` known v ?s \<subseteq> used v r'" using sub inj(2) assms(3) by blast
  ultimately show ?thesis
    using assms(1) inj_on_subset [OF inj(1) sub] unfolding qinv_def by simp
qed

lemma deliver_ge: "d i + (if i \<in> ID ` set ms then 1 else 0) \<le> deliver ms d i"
proof (cases "i \<in> ID ` set ms")
  case True
  then have "filter (\<lambda>m. ID m = i) ms \<noteq> []" by (auto simp: filter_empty_conv)
  then have "1 \<le> length (filter (\<lambda>m. ID m = i) ms)" by (simp add: Suc_le_eq)
  with True show ?thesis by (simp add: deliver_def)
qed (simp add: deliver_def)

text \<open>Steps that hand out entries of the stream.\<close>

lemma qinv_deliver:
  assumes "qinv v c handler s" and "delivered_once v ms (s_redis s) r'" and "set (concat mss) \<subseteq> set ms"
  shows "qinv v c handler (s\<lparr>s_redis := r', s_batches := s_batches s @ start_batches mss,
    s_deliveries := deliver ms (s_deliveries s)\<rparr>)"
proof -
  let ?s = "s\<lparr>s_redis := r', s_batches := s_batches s @ start_batches mss, s_deliveries := deliver ms (s_deliveries s)\<rparr>"
  have d: "entries v r' = entries v (s_redis s)" "used v r' = used v (s_redis s)" "set ms \<subseteq> set (entries v (s_redis s))"
    "counts v r' i \<le> counts v (s_redis s) i + (if i \<in> ID ` set ms then 1 else 0)" for i
    using assms(2) by (simp_all add: delivered_once_def)
  have k: "known v ?s = known v s"
    using d(1,3) assms(3) by (fastforce simp: known_def start_batches_def)
  have "counts v r' i \<le> deliver ms (s_deliveries s) i" for i
  proof -
    have "counts v (s_redis s) i \<le> s_deliveries s i" using assms(1) by (simp add: qinv_def)
    then show ?thesis using d(4) [of i] deliver_ge [of "s_deliveries s" i ms] by linarith
  qed
  moreover have "co_maxRetries c \<le> int (deliver ms (s_deliveries s) i)" if "i \<in> set (s_dropped s)" for i
  proof -
    have "co_maxRetries c \<le> int (s_deliveries s i)" using assms(1) that by (auto simp: qinv_def)
    then show ?thesis by (simp add: deliver_def)
  qed
  moreover have "\<forall>b \<in> set (start_batches mss). b_acks b = []" by (auto simp: start_batches_def)
  ultimately show ?thesis
    using assms(1) d(1,2) k unfolding qinv_def by (auto simp: accounted_def)
qed

lemma qinv_enqueue:
  assumes "redis_laws ops v" and "qinv v c handler s"
    and "Enqueue ops (co_queue c) now data (s_redis s) = (res, r')"
    and "s' = s\<lparr>s_redis := r',
      s_enqueued := s_enqueued s @ (case res of Ok i \<Rightarrow> [stream_entry i data now] | _ \<Rightarrow> []),
      s_trimmed := s_trimmed s @ map (\<lambda>m. (m, length (entries v r'))) (filter (\<lambda>m. m \<notin> set (entries v r'))
        (entries v (s_redis s) @ (case res of Ok i \<Rightarrow> [stream_entry i data now] | _ \<Rightarrow> [])))\<rparr>"
  shows "qinv v c handler s'"
proof -
  let ?M = "rq_maxLen (co_queue c)"
  obtain add where x: "op_XAdd ops ?M data now (s_redis s) = (add, r')" and res: "res = mapErr EnqueueFailed add"
    using assms(3) by (auto simp: Enqueue_def split: prod.splits)
  obtain k new where L: "entries v r' = drop k (entries v (s_redis s) @ map (\<lambda>i. stream_entry i data now) new)"
    "used v r' = used v (s_redis s) \<union> set new" "set new \<inter> used v (s_redis s) = {}" "length new \<le> 1"
    "0 < k \<Longrightarrow> 0 < ?M \<and> ?M \<le> int (length (entries v r'))" "\<And>i. add = Ok i \<Longrightarrow> new = [i]"
    and cnt: "counts v r' = counts v (s_redis s)"
    using law_XAdd [OF assms(1) x] unfolding xadd_law_def by blast
  have resn: "res = Ok i \<Longrightarrow> new = [i]" for i using L(6) res by (auto simp: mapErr_eq_Ok)
  let ?add = "case res of Ok i \<Rightarrow> [stream_entry i data now] | _ \<Rightarrow> []"
  let ?new = "map (\<lambda>i. stream_entry i data now) new"
  have addn: "set ?add \<subseteq> set ?new" using resn by (auto split: result.splits)
  have sub: "set (entries v r') \<subseteq> set (entries v (s_redis s)) \<union> set ?new"
    unfolding L(1) by (metis set_append set_drop_subset)
  have k: "known v s' \<subseteq> known v s \<union> set ?new" using assms(4) addn sub by (auto simp: known_def)
  have inj: "inj_on ID (known v s)" "ID ` known v s \<subseteq> used v (s_redis s)" using assms(2) by (simp_all add: qinv_def)
  have nid: "ID ` set ?new = set new" by (auto simp: stream_entry_def image_image)
  have "inj_on ID (set ?new)" by (auto simp: inj_on_def stream_entry_def)
  then have "inj_on ID (known v s \<union> set ?new)"
    using inj L(3) nid by (subst inj_on_Un) blast
  then have 1: "inj_on ID (known v s')" using k by (rule inj_on_subset)
  have 2: "ID ` known v s' \<subseteq> used v r'" using k inj(2) nid L(2) by blast
  have same: "s_batches s' = s_batches s" "s_done s' = s_done s" "s_dropped s' = s_dropped s"
    "s_deliveries s' = s_deliveries s" "s_redis s' = r'" using assms(4) by simp_all
  have trim: "fst ` set (s_trimmed s') = fst ` set (s_trimmed s) \<union> (set (entries v (s_redis s)) \<union> set ?add - set (entries v r'))"
    using assms(4) by (simp add: image_Un image_image) blast
  have 3: "accounted v s' m" if "m \<in> set (s_enqueued s')" for m
  proof -
    from that consider "m \<in> set (s_enqueued s)" | "m \<in> set ?add" using assms(4) by auto
    then show ?thesis
    proof cases
      case 1
      then have "accounted v s m" using assms(2) by (simp add: qinv_def)
      then show ?thesis using same unfolding accounted_def trim by auto
    next
      case 2
      then show ?thesis using same unfolding accounted_def trim by auto
    qed
  qed
  have 4: "0 < ?M \<and> ?M \<le> int n" if t: "(m, n) \<in> set (s_trimmed s')" for m n
  proof (cases "(m, n) \<in> set (s_trimmed s)")
    case True
    then show ?thesis using assms(2) by (auto simp: qinv_def)
  next
    case False
    then have n: "n = length (entries v r')" "m \<in> set (entries v (s_redis s)) \<union> set ?add" "m \<notin> set (entries v r')"
      using t assms(4) by auto
    have "0 < k"
    proof (rule ccontr)
      assume "\<not> 0 < k"
      then have "set (entries v r') = set (entries v (s_redis s)) \<union> set ?new" using L(1) by simp
      then show False using n addn by blast
    qed
    then show ?thesis using L(5) n(1) by blast
  qed
  show ?thesis using assms(2) 1 2 3 4 cnt unfolding qinv_def same by auto
qed

end
