(* ===== verification/Consumer_Properties.thy ===== *)
theory Consumer_Properties
  imports Queue_Consumer
begin

text \<open>
  At-least-once delivery through the queue: the invariant of the consumer system holds in every
  reachable state, for every Redis that behaves as documented and every message handler; and a
  small stream that behaves as documented.
\<close>

section \<open>Reachable states\<close>

lemma qinv_finish:
  assumes "qinv v c handler s" and "b \<in> set (s_batches s)" and "m \<in> set (b_running b)"
    and "finish_message handler m (b_acks b) (s_handler s) = (acks, h')"
  shows "qinv v c handler (s\<lparr>s_handler := h',
      s_batches := remove1 b (s_batches s) @ [\<lparr>b_running = remove1 m (b_running b), b_acks = acks\<rparr>],
      s_done := s_done s @ (if fst (handleMessage handler m (s_handler s)) = AckIt then [m] else [])\<rparr>)"
proof -
  let ?d = "if fst (handleMessage handler m (s_handler s)) = AckIt then [m] else []"
  let ?b = "\<lparr>b_running = remove1 m (b_running b), b_acks = acks\<rparr>"
  let ?s = "s\<lparr>s_handler := h', s_batches := remove1 b (s_batches s) @ [?b], s_done := s_done s @ ?d\<rparr>"
  have bs: "set (remove1 b (s_batches s)) \<subseteq> set (s_batches s)" by (rule set_remove1_subset)
  have "set (b_running ?b) \<subseteq> set (b_running b)" using set_remove1_subset [of m "b_running b"] by simp
  then have sub: "known v ?s \<subseteq> known v s"
    using bs assms(2,3) unfolding known_def by (auto split: if_splits)
  have inj: "inj_on ID (known v s)" "ID ` known v s \<subseteq> used v (s_redis s)" using assms(1) by (simp_all add: qinv_def)
  have old: "\<forall>b \<in> set (s_batches s). set (b_acks b) \<subseteq> ID ` set (s_done s)" using assms(1) by (simp add: qinv_def)
  have acks: "acks = (if fst (handleMessage handler m (s_handler s)) = AckIt then b_acks b @ [ID m] else b_acks b)"
    by (rule finish_message_acks [OF assms(4)])
  have 1: "\<forall>b \<in> set (s_batches ?s). set (b_acks b) \<subseteq> ID ` set (s_done ?s)"
  proof
    fix b' assume "b' \<in> set (s_batches ?s)"
    then consider "b' \<in> set (s_batches s)" | "b' = ?b" using bs by auto
    then show "set (b_acks b') \<subseteq> ID ` set (s_done ?s)"
    proof cases
      case 1
      then show ?thesis using old by auto
    next
      case 2
      then show ?thesis using old assms(2) by (auto simp: acks)
    qed
  qed
  have 2: "\<forall>m \<in> set (s_done ?s). done_ok handler m"
    using assms(1) handleMessage_AckIt [of handler m "s_handler s"] by (auto simp: qinv_def split: if_splits)
  have 3: "\<forall>m \<in> set (s_enqueued ?s). accounted v ?s m" using assms(1) by (auto simp: qinv_def accounted_def)
  have "ID ` known v ?s \<subseteq> used v (s_redis s)" using sub inj(2) by blast
  then have 4: "ID ` known v ?s \<subseteq> used v (s_redis ?s)" by simp
  show ?thesis
    using assms(1) 1 2 3 4 inj_on_subset [OF inj(1) sub] unfolding qinv_def by simp
qed

lemma qinv_drop_batch:
  assumes "qinv v c handler s" and "set bs \<subseteq> set (s_batches s)"
  shows "qinv v c handler (s\<lparr>s_batches := bs\<rparr>)"
proof -
  have sub: "known v (s\<lparr>s_batches := bs\<rparr>) \<subseteq> known v s" using assms(2) by (auto simp: known_def)
  have inj: "inj_on ID (known v s)" "ID ` known v s \<subseteq> used v (s_redis s)" using assms(1) by (simp_all add: qinv_def)
  show ?thesis
    using assms sub inj inj_on_subset [OF inj(1) sub] by (auto simp: qinv_def accounted_def)
qed

lemma qinv_cancel:
  assumes "qinv v c handler s" and "b \<in> set (s_batches s)" and "b_running b = rest @ skipped"
  shows "qinv v c handler (s\<lparr>s_batches := remove1 b (s_batches s) @ [b\<lparr>b_running := rest\<rparr>]\<rparr>)"
proof -
  let ?s = "s\<lparr>s_batches := remove1 b (s_batches s) @ [b\<lparr>b_running := rest\<rparr>]\<rparr>"
  have bs: "set (remove1 b (s_batches s)) \<subseteq> set (s_batches s)" by (rule set_remove1_subset)
  have "set rest \<subseteq> set (b_running b)" using assms(3) by simp
  then have sub: "known v ?s \<subseteq> known v s" using bs assms(2) unfolding known_def by auto
  have inj: "inj_on ID (known v s)" "ID ` known v s \<subseteq> used v (s_redis s)" using assms(1) by (simp_all add: qinv_def)
  have "\<forall>b \<in> set (s_batches s). set (b_acks b) \<subseteq> ID ` set (s_done s)" using assms(1) by (simp add: qinv_def)
  then have 1: "\<forall>b \<in> set (s_batches ?s). set (b_acks b) \<subseteq> ID ` set (s_done s)" using bs assms(2) by auto
  have 2: "ID ` known v ?s \<subseteq> used v (s_redis s)" using sub inj(2) by blast
  show ?thesis
    using assms(1) 1 2 inj_on_subset [OF inj(1) sub] by (simp add: qinv_def accounted_def)
qed

lemma qinv_step:
  assumes "redis_laws ops v" and "qstep ops v c handler s s'" and "qinv v c handler s"
  shows "qinv v c handler s'"
  using assms(2,3)
proof (induction rule: qstep.induct)
  case (enqueue now data s res r')
  then show ?case using qinv_enqueue [OF assms(1)] by blast
next
  case (depth s res r')
  then have "unchanged v (s_redis s) r'" using law_XLen [OF assms(1)] by blast
  then show ?case using depth(2) by (auto simp: qinv_def unchanged_def known_def accounted_def)
next
  case (read i s mss pause r')
  then show ?case using qinv_deliver [OF read(3) processMessages_delivers [OF assms(1) read(2)]] by blast
next
  case (finish b s m acks h')
  show ?case by (rule qinv_finish [OF finish(4,1,2,3)])
next
  case (ack b s)
  obtain gone where g: "gone \<subseteq> set (b_acks b)"
    "entries v (batchAck ops (b_acks b) (s_redis s)) = filter (\<lambda>m. ID m \<notin> gone) (entries v (s_redis s))"
    using batchAck_entries(1) [OF assms(1)] by blast
  have "set (b_acks b) \<subseteq> ID ` set (s_done s)" using ack(1,3) by (auto simp: qinv_def)
  then have "qinv v c handler (s\<lparr>s_redis := batchAck ops (b_acks b) (s_redis s)\<rparr>)"
    using qinv_shrink [OF ack(3), of "batchAck ops (b_acks b) (s_redis s)" gone "[]"] g
      batchAck_entries(2,3) [OF assms(1)] by auto
  from qinv_drop_batch [OF this, of "remove1 b (s_batches s)"] show ?case by (simp add: set_remove1_subset)
next
  case (cancel b s rest skipped)
  then show ?case using qinv_cancel by blast
next
  case (reclaim s dropped ms r')
  obtain r1 where d: "dropExcessiveRetries ops c (s_redis s) = (dropped, r1)"
    using reclaim(1) by (auto simp: claimStaleMessages_def split: prod.splits result.splits)
  obtain res r2 where x: "op_XAutoClaim ops (reclaimer_name c) (co_batchSize c) r1 = (res, r2)" by fastforce
  have r: "r' = r2" "ms = (case res of Ok ms \<Rightarrow> ms | _ \<Rightarrow> [])"
    using reclaim(1) d x by (auto simp: claimStaleMessages_def split: result.splits)
  note D = dropExcessiveRetries_drops [OF assms(1) d]
  obtain gone where g: "gone \<subseteq> set dropped" "entries v r1 = filter (\<lambda>m. ID m \<notin> gone) (entries v (s_redis s))"
    using D(1) by blast
  have inv: "qinv v c handler (s\<lparr>s_redis := r1, s_dropped := s_dropped s @ dropped\<rparr>)"
    using qinv_shrink [OF reclaim(2) g(2) D(2,3) _ D(4)] g(1) by blast
  have "delivered_once v ms r1 r2" using law_XAutoClaim [OF assms(1) x] r(2) by simp
  then show ?case using qinv_deliver [OF inv, of ms r2 "[ms]"] r(1) by simp
next
  case (crash s h')
  then show ?case using qinv_drop_batch [of v c handler s "[]"] by (auto simp: qinv_def known_def accounted_def)
qed

interpretation queue: invariant_system "fresh_system v" "qstep ops v c handler" "\<lambda>s. redis_laws ops v \<longrightarrow> qinv v c handler s"
  for ops :: "'r redis_ops" and v c and handler :: "'h handler"
  by unfold_locales (simp add: fresh_system_def qinv_def known_def, blast intro: qinv_step)


section \<open>A stream that behaves as documented\<close>

text \<open>
  A log of all data ever added, with a mark on what is still in the stream, and the delivery
  counts; the identifier of the n-th entry is n + 1 in unary.
\<close>

record log_stream =
  ls_log :: "(u8 list \<times> int \<times> bool) list"
  ls_counts :: "string \<Rightarrow> nat"

definition unary :: "nat \<Rightarrow> string" where
  "unary n = replicate (Suc n) (CHR ''1'')"

fun log_entries :: "nat \<Rightarrow> (u8 list \<times> int \<times> bool) list \<Rightarrow> XMessage list" where
  "log_entries n [] = []"
| "log_entries n ((d, t, alive) # es) = (if alive then [stream_entry (unary n) d t] else []) @ log_entries (Suc n) es"

fun log_delete :: "string list \<Rightarrow> nat \<Rightarrow> (u8 list \<times> int \<times> bool) list \<Rightarrow> (u8 list \<times> int \<times> bool) list" where
  "log_delete ids n [] = []"
| "log_delete ids n ((d, t, alive) # es) = (d, t, alive \<and> unary n \<notin> set ids) # log_delete ids (Suc n) es"

definition log_view :: "log_stream redis_view" where
  "log_view = \<lparr>entries = \<lambda>r. log_entries 0 (ls_log r), used = \<lambda>r. unary ` {..< length (ls_log r)}, counts = ls_counts\<rparr>"

definition log_deliver :: "XMessage list \<Rightarrow> log_stream \<Rightarrow> log_stream" where
  "log_deliver ms r = r\<lparr>ls_counts := \<lambda>i. ls_counts r i + (if i \<in> ID ` set ms then 1 else 0)\<rparr>"

definition log_pick :: "(nat \<Rightarrow> bool) \<Rightarrow> int \<Rightarrow> log_stream \<Rightarrow> XMessage list" where
  "log_pick p n r = take (nat n) (filter (\<lambda>m. p (ls_counts r (ID m))) (log_entries 0 (ls_log r)))"

definition log_ops :: "log_stream redis_ops" where
  "log_ops = \<lparr>
     op_Ping = \<lambda>r. (Ok (), r),
     op_XAdd = \<lambda>m d t r. (Ok (unary (length (ls_log r))), r\<lparr>ls_log := ls_log r @ [(d, t, True)]\<rparr>),
     op_XLen = \<lambda>r. (Ok (int (length (log_entries 0 (ls_log r)))), r),
     op_XGroupCreate = \<lambda>r. (Err (RedisText ''BUSYGROUP''), r),
     op_XReadGroup = \<lambda>c n r. (Ok [log_pick (\<lambda>k. k = 0) n r], log_deliver (log_pick (\<lambda>k. k = 0) n r) r),
     op_XAutoClaim = \<lambda>c n r. (Ok (log_pick (\<lambda>k. k > 0) n r), log_deliver (log_pick (\<lambda>k. k > 0) n r) r),
     op_XPending = \<lambda>n r. (Ok (map (\<lambda>m. (ID m, ls_counts r (ID m))) (log_pick (\<lambda>k. k > 0) n r)), r),
     op_XAckDel = \<lambda>ids r. (Ok (), r\<lparr>ls_log := log_delete ids 0 (ls_log r)\<rparr>)\<rparr>"

lemma unary_inj [simp]: "unary i = unary j \<longleftrightarrow> i = j"
  by (simp add: unary_def replicate_eq_replicate)

lemma ID_log_entries: "m \<in> set (log_entries n es) \<Longrightarrow> \<exists>i. n \<le> i \<and> i < n + length es \<and> ID m = unary i"
  by (induction n es rule: log_entries.induct) (fastforce simp: stream_entry_def split: if_splits)+

lemma distinct_log_entries: "distinct (map ID (log_entries n es))"
proof (induction n es rule: log_entries.induct)
  case (2 n d t alive es)
  have "unary n \<notin> ID ` set (log_entries (Suc n) es)" using ID_log_entries [of _ "Suc n" es] by fastforce
  with 2 show ?case by (simp add: stream_entry_def)
qed simp

lemma log_entries_append: "log_entries n (es @ fs) = log_entries n es @ log_entries (n + length es) fs"
  by (induction n es rule: log_entries.induct) simp_all

lemma log_entries_delete: "log_entries n (log_delete ids n es) = filter (\<lambda>m. ID m \<notin> set ids) (log_entries n es)"
  by (induction ids n es rule: log_delete.induct) (simp_all add: stream_entry_def)

lemma length_log_delete [simp]: "length (log_delete ids n es) = length es"
  by (induction ids n es rule: log_delete.induct) simp_all

lemma log_pick_delivers: "delivered_once log_view (log_pick p n r) r (log_deliver (log_pick p n r) r)"
proof -
  have "set (log_pick p n r) \<subseteq> set (log_entries 0 (ls_log r))"
    unfolding log_pick_def by (meson filter_is_subset order_trans set_take_subset)
  moreover have "distinct (map ID (log_pick p n r))"
    unfolding log_pick_def using distinct_log_entries [of 0 "ls_log r"]
    by (simp add: distinct_map_filter take_map [symmetric])
  ultimately show ?thesis by (simp add: delivered_once_def log_view_def log_deliver_def)
qed

lemma log_queue: "\<exists>q. NewRedisQueue log_ops cfg r = (Ok q, r)"
  by (simp add: NewRedisQueue_def log_ops_def ensureConsumerGroupWithRetry_def EnsureConsumerGroup_def numeral_3_eq_3 error_contains_def HasPrefix_def)

lemma log_laws: "redis_laws log_ops log_view"
proof -
  have "ID ` set (log_entries 0 es) \<subseteq> unary ` {..< length es}" for es
    using ID_log_entries [of _ 0 es] by fastforce
  moreover have "xadd_law log_view m d t (Ok (unary (length (ls_log r)))) r (r\<lparr>ls_log := ls_log r @ [(d, t, True)]\<rparr>)" for m d t r
    unfolding xadd_law_def
    by (intro conjI exI [of _ 0] exI [of _ "[unary (length (ls_log r))]"])
      (auto simp: log_view_def log_entries_append lessThan_Suc)
  moreover have "xackdel_law log_view ids (Ok ()) r (r\<lparr>ls_log := log_delete ids 0 (ls_log r)\<rparr>)" for ids r
    by (auto simp: xackdel_law_def log_view_def log_entries_delete intro!: exI [of _ "set ids"])
  ultimately show ?thesis
    unfolding redis_laws_def using log_pick_delivers distinct_log_entries
    by (auto simp: log_ops_def log_view_def unchanged_def)
qed

section \<open>A run of the system\<close>

definition sample_consumer :: Consumer where
  "sample_consumer = NewConsumer \<lparr>rq_streamName = ''gps:reports'', rq_consumerGroup = ''gps-workers'', rq_maxLen = 50000\<rparr> 1 10 3 0"

definition nil_handler :: "unit handler" where
  "nil_handler data h = (HandlerNil, h)"

definition empty_stream :: log_stream where
  "empty_stream = \<lparr>ls_log = [], ls_counts = \<lambda>_. 0\<rparr>"


end
