(* ===== verification/Message_Handler.thy ===== *)
theory Message_Handler
  imports Queue_Consumer Http_Sender Stoppage_Filter Teltonika_Parser Sanitizer
begin

text \<open>
  The message handler of the consumer (\<open>cmd/server/main.go\<close>): parse, filter, encode, send and
  store.  It composes the parser, the stoppage filter and the sender; the JSON encoder and the
  two decoders are arguments, and what it hands to the storage writer, the mirror, the broadcaster
  and the metrics is a log.
\<close>

section \<open>State\<close>

datatype drop_reason = ParseFailed parse_error | NoValidRecords

datatype svc_event =
    InvalidQueued "InvalidRecord list"
  | PayloadInvalid string drop_reason
  | ParseFailure
  | DataDropped string
  | ParseSuccess nat
  | StoppageFiltered nat
  | QueueProcessed
  | MirroredParsed "u8 list"
  | Delivery string string
  | FailedQueued "ParsedGPSData list" string "send_error option"
  | SuccessQueued "ParsedGPSData list"

text \<open>
  What the closure captures: whether the storage writer, the mirror and the broadcaster exist,
  the time zone, the JSON functions, the sort, the spare capacity behind a converted string or a
  sanitized copy, and the outside world of the sender.
\<close>

record 'e deps =
  has_writer :: bool
  has_mirror :: bool
  has_broadcaster :: bool
  tzOffset_cfg :: int
  unmarshal_list :: "string \<Rightarrow> string list option"
  unmarshal_envelope :: "u8 list \<Rightarrow> teltonikaEnvelope option"
  marshal_data :: "ParsedGPSData list \<Rightarrow> u8 list option"
  sort_records :: "ParsedGPSData sorter"
  spare_bytes :: "u8 list \<Rightarrow> u8 list"
  sender_world :: "'e world"
  float_overflow :: int

record 'e svc =
  svc_filter :: stoppageFilter
  svc_sender :: "'e send_state"
  svc_log :: "svc_event list"

definition logged :: "svc_event list \<Rightarrow> 'e svc \<Rightarrow> 'e svc" where
  "logged evs st = st\<lparr>svc_log := svc_log st @ evs\<rparr>"

section \<open>Errors with a delay\<close>

text \<open>\<open>errors.As(err, &retryableError)\<close>: a rate limit anywhere in the chain of wrapped errors.\<close>

fun RetryDelay :: "send_error \<Rightarrow> int option" where
  "RetryDelay (RateLimited server retryAfter) = Some retryAfter"
| "RetryDelay (MaxRetries (Some e)) = RetryDelay e"
| "RetryDelay _ = None"

section \<open>The handler\<close>

definition parse_message :: "'e deps \<Rightarrow> u8 list \<Rightarrow> (parse_error, ParseResult) result" where
  "parse_message d data =
     (let parse = (\<lambda>bs. ParseWithIMEI (unmarshal_list d) (unmarshal_envelope d) (sort_records d)
                     \<lparr>elems = bs, spare = spare_bytes d bs\<rparr> [] (tzOffset_cfg d))
      in case DetectFormat data of
           FormatTeltonikaQueued \<Rightarrow> parse data
         | FormatTeltonikaAVL \<Rightarrow> parse data
         | _ \<Rightarrow> parse (SanitizeUTF8 data))"

definition enqueueInvalid :: "'e deps \<Rightarrow> InvalidRecord list \<Rightarrow> svc_event list" where
  "enqueueInvalid d records = (if has_writer d \<and> length records > 0 then [InvalidQueued records] else [])"

definition storeFullInvalidPayload :: "'e deps \<Rightarrow> u8 list \<Rightarrow> drop_reason \<Rightarrow> svc_event list" where
  "storeFullInvalidPayload d data reason = (if has_writer d then [PayloadInvalid (string_of data) reason] else [])"

definition emitDelivery :: "'e deps \<Rightarrow> string \<Rightarrow> string \<Rightarrow> svc_event list" where
  "emitDelivery d status target = (if has_broadcaster d then [Delivery status target] else [])"

text \<open>The observer of \<open>Send\<close> announces every attempt.\<close>

fun announced :: "send_event list \<Rightarrow> string list" where
  "announced [] = []"
| "announced (Attempted server n t # evs) = server # announced evs"
| "announced (_ # evs) = announced evs"

text \<open>Steps 5 and 6: encode, mirror, send, and what follows the result.\<close>

definition deliver_records :: "'e deps \<Rightarrow> ParsedGPSData list \<Rightarrow> 'e svc \<Rightarrow> handler_result \<times> 'e svc" where
  "deliver_records d filteredData st =
     (case marshal_data d filteredData of
        None \<Rightarrow> (HandlerNil, logged [DataDropped ''marshal_error''] st)
      | Some jsonData \<Rightarrow>
          (let st1 = logged ((if has_mirror d then [MirroredParsed jsonData] else []) @ emitDelivery d ''sending'' []) st;
               (result, s') = Send (sender_world d) (float_overflow d) jsonData (svc_sender st1);
               attempts = announced (drop (length (send_log (svc_sender st1))) (send_log s'));
               st2 = logged (concat (map (emitDelivery d ''sending'') attempts) @ [QueueProcessed]) (st1\<lparr>svc_sender := s'\<rparr>)
           in if \<not> Success result
              then (HandlerError (Option.bind (Error result) RetryDelay),
                    logged (emitDelivery d ''failed'' (TargetServer result) @
                      (if has_writer d then [FailedQueued filteredData (TargetServer result) (Error result)] else [])) st2)
              else (HandlerNil,
                    logged (emitDelivery d ''delivered'' (TargetServer result) @
                      (if has_writer d then [SuccessQueued filteredData] else [])) st2)))"

definition messageHandler :: "'e deps \<Rightarrow> u8 list \<Rightarrow> 'e svc \<Rightarrow> handler_result \<times> 'e svc" where
  "messageHandler d data st =
     (case parse_message d data of
        Panic \<Rightarrow> (HandlerPanic, st)
      | Err e \<Rightarrow>
          (HandlerNil, logged (storeFullInvalidPayload d data (ParseFailed e) @ [ParseFailure, DataDropped ''parse_error'']) st)
      | Ok parseResult \<Rightarrow>
          (let st1 = logged (enqueueInvalid d (Invalid parseResult)) st; parsed = Records parseResult in
           if length parsed = 0
           then (HandlerNil, logged ((if length (Invalid parseResult) = 0 then storeFullInvalidPayload d data NoValidRecords else []) @
                  [ParseFailure, DataDropped ''empty_result'']) st1)
           else let st2 = logged [ParseSuccess (length parsed)] st1;
                    (filteredData, f) = FilterData (svc_filter st2) parsed;
                    st3 = st2\<lparr>svc_filter := f\<rparr>
             in if length filteredData = 0 then (HandlerNil, logged [StoppageFiltered (length parsed)] st3)
                else deliver_records d filteredData
                  (if length filteredData < length parsed
                   then logged [StoppageFiltered (length parsed - length filteredData)] st3 else st3)))"

section \<open>Facts\<close>

lemma logged_simps [simp]:
  "svc_filter (logged evs st) = svc_filter st" "svc_sender (logged evs st) = svc_sender st"
  "svc_log (logged evs st) = svc_log st @ evs"
  by (simp_all add: logged_def)

end
