(* ===== verification/Handler_Properties.thy ===== *)
theory Handler_Properties
  imports Message_Handler
begin

text \<open>
  When a message is acknowledged: the outcomes of the message handler, and what redelivery does
  to the stoppages of a message whose send failed.
\<close>

section \<open>The outcome of a message\<close>

lemma deliver_records_result:
  "fst (deliver_records d kept st) =
     (case marshal_data d kept of
        None \<Rightarrow> HandlerNil
      | Some js \<Rightarrow>
          (let result = fst (Send (sender_world d) (float_overflow d) js (svc_sender st)) in
           if Success result then HandlerNil else HandlerError (Option.bind (Error result) RetryDelay)))"
  by (auto simp: deliver_records_def Let_def split: option.splits prod.splits)

lemma deliver_records_stored:
  "set (svc_log (snd (deliver_records d kept st))) \<inter> range SuccessQueued =
     set (svc_log st) \<inter> range SuccessQueued \<union>
     (case marshal_data d kept of
        None \<Rightarrow> {}
      | Some js \<Rightarrow> if has_writer d \<and> Success (fst (Send (sender_world d) (float_overflow d) js (svc_sender st)))
          then {SuccessQueued kept} else {})"
  by (auto simp: deliver_records_def Let_def emitDelivery_def split: option.splits prod.splits if_splits)

text \<open>The records that are left to send, as the handler computes them.\<close>

definition to_send :: "'e svc \<Rightarrow> ParseResult \<Rightarrow> ParsedGPSData list" where
  "to_send st pr = fst (FilterData (svc_filter st) (Records pr))"

definition send_ok :: "'e deps \<Rightarrow> 'e svc \<Rightarrow> u8 list \<Rightarrow> bool" where
  "send_ok d st js = Success (fst (Send (sender_world d) (float_overflow d) js (svc_sender st)))"

lemma messageHandler_Ok:
  assumes "parse_message d data = Ok pr"
  shows "fst (messageHandler d data st) =
    (if Records pr = [] \<or> to_send st pr = [] then HandlerNil
     else case marshal_data d (to_send st pr) of
        None \<Rightarrow> HandlerNil
      | Some js \<Rightarrow> if send_ok d st js then HandlerNil
          else HandlerError (Option.bind (Error (fst (Send (sender_world d) (float_overflow d) js (svc_sender st)))) RetryDelay))"
  using assms
  by (auto simp: messageHandler_def to_send_def send_ok_def Let_def deliver_records_result split: prod.splits option.splits)


section \<open>Stoppages and redelivery\<close>

lemma FilterData_loop_stops:
  "shards_ok sf \<Longrightarrow> \<forall>r \<in> set data. isStoppage r \<Longrightarrow>
   flat (snd (FilterData_loop data acc sf)) i = (if i \<in> IMEI ` set data then Some True else flat sf i)"
proof (induction data arbitrary: acc sf)
  case (Cons r data)
  let ?sf = "snd (filter_record sf r)"
  have "flat ?sf = (flat sf)(IMEI r \<mapsto> True)" using filter_record_flat(2) [OF Cons.prems(1), of r] Cons.prems(2) by simp
  then show ?case
    using Cons.IH [of ?sf] shards_ok_filter_record [OF Cons.prems(1), of r] Cons.prems(2)
    by (auto simp: case_prod_beta Let_def)
qed simp

lemma FilterData_loop_none:
  "shards_ok sf \<Longrightarrow> \<forall>r \<in> set data. isStoppage r \<and> flat sf (IMEI r) = Some True \<Longrightarrow>
   FilterData_loop data acc sf = (acc, sf)"
proof (induction data arbitrary: acc)
  case (Cons r data)
  then have "filter_record sf r = (False, sf)" by (simp add: filter_record_def shardForIMEI_flat Let_def)
  then show ?case using Cons by simp
qed simp

lemma FilterData_twice:
  assumes "shards_ok sf" and "sf_enabled sf" and "\<forall>r \<in> set data. isStoppage r" and "FilterData sf data = (kept, sf')"
  shows "fst (FilterData sf' data) = []"
proof (cases "data = []")
  case False
  then have res: "(kept, sf') = FilterData_loop data [] sf" using assms(2,4) by (simp add: FilterData_def)
  have ok: "shards_ok sf'" using shards_ok_loop [OF assms(1), of data "[]"] unfolding res [symmetric] by simp
  have "sf_enabled (snd (FilterData_loop data acc sf)) = sf_enabled sf" for acc
    by (induction data acc sf rule: FilterData_loop.induct)
      (auto simp: case_prod_beta Let_def filter_record_def)
  then have en: "sf_enabled sf'" using assms(2) unfolding res [symmetric] by (metis res snd_conv)
  have "\<forall>r \<in> set data. flat sf' (IMEI r) = Some True"
    using FilterData_loop_stops [OF assms(1,3), of "[]"] unfolding res [symmetric] by simp
  then have "FilterData_loop data [] sf' = ([], sf')" using assms(3) by (intro FilterData_loop_none [OF ok]) blast
  then show ?thesis using en False by (simp add: FilterData_def)
qed (simp add: FilterData_def)

lemma messageHandler_filter:
  assumes "parse_message d data = Ok pr" and "Records pr \<noteq> []"
  shows "svc_filter (snd (messageHandler d data st)) = snd (FilterData (svc_filter st) (Records pr))"
  using assms by (auto simp: messageHandler_def deliver_records_def Let_def split: prod.splits option.splits)

text \<open>
  C37: With the stoppage filter on, a message that holds only stoppages is lost when its first send
  fails: the filter has already recorded the stoppages as sent, so the redelivered message is
  filtered to nothing, is acknowledged without a send, and none of its records ever counts as
  delivered.
\<close>

theorem redelivery_loses_stoppages:
  assumes "shards_ok (svc_filter st)" and "sf_enabled (svc_filter st)"
    and "message_data msg = Some data" and "parse_message d data = Ok pr" and "\<forall>r \<in> set (Records pr). isStoppage r"
    and "handleMessage (messageHandler d) msg st = (LeaveIt, wait, st1)"
    and "handleMessage (messageHandler d) msg st1 = (out, wait', st2)"
  shows "out = AckIt \<and> svc_sender st2 = svc_sender st1 \<and>
    set (svc_log st2) \<inter> range SuccessQueued = set (svc_log st) \<inter> range SuccessQueued"
proof -
  have h: "fst (messageHandler d data st) \<noteq> HandlerNil" "st1 = snd (messageHandler d data st)"
    using assms(3,6) by (auto simp: handleMessage_def split: prod.splits handler_result.splits)
  then have ne: "Records pr \<noteq> []" "to_send st pr \<noteq> []" unfolding messageHandler_Ok [OF assms(4)] by auto
  obtain js where js: "marshal_data d (to_send st pr) = Some js" "\<not> send_ok d st js"
    using h(1) unfolding messageHandler_Ok [OF assms(4)] by (auto split: option.splits if_splits)
  have "svc_filter st1 = snd (FilterData (svc_filter st) (Records pr))"
    unfolding h(2) by (rule messageHandler_filter [OF assms(4) ne(1)])
  then have again: "to_send st1 pr = []"
    unfolding to_send_def using FilterData_twice [OF assms(1,2,5)] by (metis prod.collapse)
  have st2: "st2 = snd (messageHandler d data st1)" "out = AckIt"
    using assms(3,7) messageHandler_Ok [OF assms(4), of st1] again
    by (auto simp: handleMessage_def split: prod.splits handler_result.splits)
  have s1: "set (svc_log st1) \<inter> range SuccessQueued = set (svc_log st) \<inter> range SuccessQueued"
    using ne js unfolding h(2)
    by (auto simp: messageHandler_def assms(4) Let_def deliver_records_stored to_send_def send_ok_def enqueueInvalid_def
        split: prod.splits if_splits)
  have "svc_sender st2 = svc_sender st1 \<and> set (svc_log st2) \<inter> range SuccessQueued = set (svc_log st1) \<inter> range SuccessQueued"
    using again ne(1) unfolding st2(1)
    by (auto simp: messageHandler_def assms(4) Let_def to_send_def enqueueInvalid_def split: prod.splits if_splits)
  then show ?thesis using st2(2) s1 by simp
qed

section \<open>A message whose send fails\<close>

definition stop_record :: ParsedGPSData where
  "stop_record = \<lparr>Coordinate = (Fin False 35, Fin False 51), Speed = 0, Status = 1,
     Directions = \<lparr>EW = 1, NS = 1\<rparr>, DateTime = ''2019-06-10 13:34:46'', IMEI = ''86'', RawData = []\<rparr>"

definition down_world :: "unit world" where
  "down_world = \<lparr>w_now = \<lambda>e. (0, e), w_wait = \<lambda>_ e. (True, e), w_post = \<lambda>_ _ e. (NotSent, e),
     w_date = \<lambda>_. None, w_sleep = \<lambda>_ e. (False, e), w_rand = \<lambda>e. (Fin False 0, e)\<rparr>"

definition down_deps :: "unit deps" where
  "down_deps = \<lparr>has_writer = True, has_mirror = False, has_broadcaster = False, tzOffset_cfg = 0,
     unmarshal_list = \<lambda>_. None,
     unmarshal_envelope = \<lambda>_. Some \<lparr>env_Teltonika = True, env_IMEI = ''86'', env_Records = [stop_record]\<rparr>,
     marshal_data = \<lambda>_. Some [123], sort_records = insertionSort, spare_bytes = \<lambda>_. [],
     sender_world = down_world, float_overflow = 0\<rparr>"

definition queued_data :: "u8 list" where
  "queued_data = bytes_of teltonikaQueuedPrefix"

definition queued_message :: XMessage where
  "queued_message = stream_entry ''1'' queued_data 0"

definition fresh_svc :: "unit svc" where
  "fresh_svc = \<lparr>svc_filter = \<lparr>shards = replicate shardCount Map.empty, sf_enabled = True\<rparr>,
     svc_sender = \<lparr>sender = NewHTTPSender [''http://a/''] 0 0 1 0, env = (), send_log = []\<rparr>, svc_log = []\<rparr>"

lemma sample_parse: "parse_message down_deps queued_data = Ok \<lparr>Records = [stop_record], Invalid = []\<rparr>"
proof -
  have "DetectFormat queued_data = FormatTeltonikaQueued"
    by (simp add: DetectFormat_def queued_data_def HasPrefix_def)
  moreover have "queued_data \<noteq> []" by (simp add: queued_data_def teltonikaQueuedPrefix_def bytes_of_def)
  ultimately show ?thesis
    by (simp add: parse_message_def ParseWithIMEI_def unmarshalTeltonikaEnvelope_def down_deps_def slen_def
        insertionSort_def stop_record_def Let_def)
qed

lemma sample_data: "message_data queued_message = Some queued_data"
  by (simp add: message_data_def queued_message_def stream_entry_def)

lemma sample_fails: "marshal_data down_deps kept = Some [123]" "\<not> send_ok down_deps fresh_svc [123]"
  by (simp_all add: down_deps_def send_ok_def fresh_svc_def Send_def NewHTTPSender_def NewLoadBalancer_def ServerCount_def
      NextServer_def isPaused_def down_world_def sendToServer_def emit_def send_exhausted_def Let_def)

lemma sample_kept: "to_send fresh_svc \<lparr>Records = [stop_record], Invalid = []\<rparr> = [stop_record]"
  using filter_record_flat(1) [OF shards_ok_fresh, of True stop_record]
  by (simp add: to_send_def FilterData_def fresh_svc_def case_prod_beta Let_def flat_fresh keep_abs_def)


theorem redelivery_loses_stoppages_witness:
  "\<exists>st1 st2. fst (handleMessage (messageHandler down_deps) queued_message fresh_svc) = LeaveIt \<and>
     st1 = snd (snd (handleMessage (messageHandler down_deps) queued_message fresh_svc)) \<and>
     fst (handleMessage (messageHandler down_deps) queued_message st1) = AckIt \<and>
     st2 = snd (snd (handleMessage (messageHandler down_deps) queued_message st1)) \<and>
     set (svc_log st2) \<inter> range SuccessQueued = {}"
proof -
  obtain out wait st1 where h: "handleMessage (messageHandler down_deps) queued_message fresh_svc = (out, wait, st1)"
    by (rule prod_cases3)
  have "fst (messageHandler down_deps queued_data fresh_svc) = HandlerError None \<or>
      (\<exists>re. fst (messageHandler down_deps queued_data fresh_svc) = HandlerError re)"
    unfolding messageHandler_Ok [OF sample_parse] using sample_kept sample_fails by simp
  then have out: "out = LeaveIt" using h by (auto simp: handleMessage_def sample_data split: prod.splits)
  obtain out2 wait2 st2 where h2: "handleMessage (messageHandler down_deps) queued_message st1 = (out2, wait2, st2)"
    by (rule prod_cases3)
  have "shards_ok (svc_filter fresh_svc)" "sf_enabled (svc_filter fresh_svc)"
    by (simp_all add: fresh_svc_def shards_ok_fresh)
  moreover have "\<forall>r \<in> set (Records \<lparr>Records = [stop_record], Invalid = []\<rparr>). isStoppage r"
    by (simp add: isStoppage_def stop_record_def)
  ultimately have "out2 = AckIt \<and> svc_sender st2 = svc_sender st1 \<and>
      set (svc_log st2) \<inter> range SuccessQueued = set (svc_log fresh_svc) \<inter> range SuccessQueued"
    using redelivery_loses_stoppages [OF _ _ sample_data sample_parse _ h [unfolded out] h2] by blast
  then show ?thesis using h h2 out by (auto simp: fresh_svc_def)
qed

end
