(* ===== verification/End_To_End.thy ===== *)
theory End_To_End
  imports Handler_Properties Tcp_Properties
begin

text \<open>
  From the device to the message handler: what a device sends over TCP is what the handler of
  the queue's messages parses, across \<open>internal/teltonika/tcp\<close>, \<open>internal/parser\<close> and
  \<open>cmd/server/main.go\<close>.
\<close>

section \<open>The envelope\<close>

text \<open>
  What is relied on in the JSON package for one envelope: its encoding starts with the first
  field, and decodes to the envelope, the raw data of the records apart (\<open>json:"-"\<close>).
\<close>

definition json_round_trip ::
  "(teltonikaEnvelope \<Rightarrow> u8 list) \<Rightarrow> (u8 list \<Rightarrow> teltonikaEnvelope option) \<Rightarrow> teltonikaEnvelope \<Rightarrow> bool" where
  "json_round_trip enc unmarshal_env e \<longleftrightarrow>
     HasPrefix (enc e) (bytes_of teltonikaQueuedPrefix) \<and>
     unmarshal_env (enc e) = Some (e\<lparr>env_Records := map (\<lambda>r. r\<lparr>RawData := []\<rparr>) (env_Records e)\<rparr>)"

definition envelope_of :: "string \<Rightarrow> int \<Rightarrow> packet \<Rightarrow> teltonikaEnvelope" where
  "envelope_of imei tz p = \<lparr>env_Teltonika = True, env_IMEI = imei,
     env_Records = TeltonikaRecordsToParsed (packet_records p) imei tz\<rparr>"

lemma parse_message_envelope:
  assumes "json_round_trip enc (unmarshal_envelope d) \<lparr>env_Teltonika = True, env_IMEI = imei, env_Records = rs\<rparr>"
    and "slice_sort (sort_records d)"
    and "bs = enc \<lparr>env_Teltonika = True, env_IMEI = imei, env_Records = rs\<rparr>"
    and "imei \<noteq> []" and "\<forall>r \<in> set rs. IMEI r = imei"
  shows "\<exists>pr. parse_message d bs = Ok pr \<and> Invalid pr = [] \<and> mset (Records pr) = mset (map (\<lambda>r. r\<lparr>RawData := []\<rparr>) rs)"
proof -
  let ?env = "\<lparr>env_Teltonika = True, env_IMEI = imei, env_Records = map (\<lambda>r. r\<lparr>RawData := []\<rparr>) rs\<rparr>"
  have js: "HasPrefix bs (bytes_of teltonikaQueuedPrefix)" "unmarshal_envelope d bs = Some ?env"
    using assms(1,3) by (auto simp: json_round_trip_def)
  have len: "length teltonikaQueuedPrefix \<le> length bs" using js(1) by (auto simp: HasPrefix_iff)
  have ne: "bs \<noteq> []" using len by (auto simp: teltonikaQueuedPrefix_def)
  have f: "DetectFormat bs = FormatTeltonikaQueued" using js(1) len by (simp add: DetectFormat_def)
  have "map (\<lambda>r. if IMEI r = [] then r\<lparr>IMEI := imei\<rparr> else r) (map (\<lambda>r. r\<lparr>RawData := []\<rparr>) rs) = map (\<lambda>r. r\<lparr>RawData := []\<rparr>) rs"
    using assms(4,5) by simp
  then have u: "unmarshalTeltonikaEnvelope (unmarshal_envelope d) (sort_records d) bs =
      Ok \<lparr>Records = sort_records d byDateTime (map (\<lambda>r. r\<lparr>RawData := []\<rparr>) rs), Invalid = []\<rparr>"
    by (simp add: unmarshalTeltonikaEnvelope_def js(2) Let_def del: map_map cong: if_cong)
  show ?thesis
    using ne f by (simp add: parse_message_def ParseWithIMEI_def u slen_def Let_def slice_sort.mset_sort [OF assms(2)])
qed

fun session_jobs :: "session_event list \<Rightarrow> postAckJob list" where
  "session_jobs [] = []"
| "session_jobs (Submitted j # evs) = j # session_jobs evs"
| "session_jobs (_ # evs) = session_jobs evs"

lemma session_jobs_append [simp]: "session_jobs (a @ b) = session_jobs a @ session_jobs b"
  by (induction a rule: session_jobs.induct) simp_all

text \<open>
  C8: From the device to the message handler: whatever well-formed packets an allowed device sends,
  every packet becomes one job, in order, and the message that the job's envelope makes in the
  stream is parsed by the consumer's handler, without a rejected record, to exactly the records
  of the packet converted for that device, their raw bytes apart.
\<close>

theorem device_records_reach_handler:
  assumes "calm w" and "isIMEIAllowed s imei" and "0 < length imei" and "length imei \<le> 32" and "list_all packet_ok ps"
    and "bs = word_be 2 (word_of_nat (length imei) :: u16) @ bytes_of imei @ concat (map packet_bytes ps)"
    and "\<forall>p \<in> set ps. json_round_trip enc (unmarshal_envelope d) (envelope_of imei (tk_TimezoneOffset (sv_cfg s)) p)" and "slice_sort (sort_records d)"
  shows "list_all2 (\<lambda>p j. \<exists>data pr. message_data (stream_entry i (job_envelope j) now) = Some data \<and>
      parse_message d data = Ok pr \<and> Invalid pr = [] \<and>
      mset (Records pr) = mset (map (\<lambda>r. r\<lparr>RawData := []\<rparr>)
        (TeltonikaRecordsToParsed (packet_records p) imei (tk_TimezoneOffset (sv_cfg s)))))
    ps (session_jobs (snd (handleConn (\<lambda>e. Some (enc e)) w s bs)))"
proof -
  let ?tz = "tk_TimezoneOffset (sv_cfg s)"
  obtain c where c: "incoming c = concat (map packet_bytes ps)" "events c = [Wrote [1]]"
    "handleConn (\<lambda>e. Some (enc e)) w s bs = (let (e, c') = frame_loop (\<lambda>e. Some (enc e)) w s imei 0 c in (e, events c'))"
    unfolding assms(6) by (rule handshake_run [OF assms(1-4)])
  have run: "snd (handleConn (\<lambda>e. Some (enc e)) w s bs) = Wrote [1] # concat (map (packet_events enc ?tz imei) ps)"
    using frame_loop_packets [OF assms(1,5) c(1), of enc s imei 0] c(2,3) by auto
  let ?job = "\<lambda>p. \<lparr>job_imei = imei, job_frame = packet_bytes p,
    job_envelope = enc \<lparr>env_Teltonika = True, env_IMEI = imei,
      env_Records = TeltonikaRecordsToParsed (packet_records p) imei ?tz\<rparr>\<rparr>"
  have jobs: "session_jobs (snd (handleConn (\<lambda>e. Some (enc e)) w s bs)) = map ?job ps"
    unfolding run by (induction ps) (simp_all add: packet_events_def)
  have dat: "message_data (stream_entry i bs' now) = Some bs'" for bs'
    by (simp add: message_data_def stream_entry_def)
  have i: "IMEI r = imei" if "r \<in> set (TeltonikaRecordsToParsed recs imei tz)" for r recs tz
    using that by (auto simp: TeltonikaRecordsToParsed_def teltonikaRecordsToParsed_def teltonikaRecordToParsed_def Let_def)
  have "\<exists>pr. parse_message d (job_envelope (?job p)) = Ok pr \<and> Invalid pr = [] \<and>
      mset (Records pr) = mset (map (\<lambda>r. r\<lparr>RawData := []\<rparr>) (TeltonikaRecordsToParsed (packet_records p) imei ?tz))" if "p \<in> set ps" for p
  proof (rule parse_message_envelope [OF _ assms(8)])
    show "json_round_trip enc (unmarshal_envelope d) \<lparr>env_Teltonika = True, env_IMEI = imei,
        env_Records = TeltonikaRecordsToParsed (packet_records p) imei ?tz\<rparr>"
      using assms(7) that by (simp add: envelope_of_def)
  qed (use assms(3) i in auto)
  then show ?thesis unfolding jobs by (simp add: dat list_all2_map2 list_all2_same)
qed

definition sample_deps :: "unit deps" where
  "sample_deps = down_deps\<lparr>unmarshal_envelope := \<lambda>_. Some
     (let e = envelope_of ''356307042441013'' 0 sample_frame_packet in
      e\<lparr>env_Records := map (\<lambda>r. r\<lparr>RawData := []\<rparr>) (env_Records e)\<rparr>)\<rparr>"

theorem device_records_reach_handler_witness:
  "\<exists>j data pr. session_jobs (snd (handleConn (\<lambda>e. Some (bytes_of teltonikaQueuedPrefix)) calm_world sample_server
       (word_be 2 (15 :: u16) @ bytes_of ''356307042441013'' @ packet_bytes sample_frame_packet))) = [j] \<and>
     message_data (stream_entry ''1'' (job_envelope j) 0) = Some data \<and>
     parse_message sample_deps data = Ok pr \<and> size (mset (Records pr)) = 1"
proof -
  let ?i = "''356307042441013''"
  have "\<forall>p \<in> set [sample_frame_packet]. json_round_trip (\<lambda>e. bytes_of teltonikaQueuedPrefix) (unmarshal_envelope sample_deps)
      (envelope_of ?i (tk_TimezoneOffset (sv_cfg sample_server)) p)"
    by (simp add: json_round_trip_def sample_deps_def HasPrefix_def sample_server_def Let_def)
  moreover have "slice_sort (sort_records sample_deps)"
    using insertion.slice_sort_axioms by (simp add: sample_deps_def down_deps_def)
  ultimately have "list_all2 (\<lambda>p j. \<exists>data pr. message_data (stream_entry ''1'' (job_envelope j) 0) = Some data \<and>
      parse_message sample_deps data = Ok pr \<and> Invalid pr = [] \<and>
      mset (Records pr) = mset (map (\<lambda>r. r\<lparr>RawData := []\<rparr>)
        (TeltonikaRecordsToParsed (packet_records p) ?i (tk_TimezoneOffset (sv_cfg sample_server)))))
    [sample_frame_packet] (session_jobs (snd (handleConn (\<lambda>e. Some (bytes_of teltonikaQueuedPrefix)) calm_world sample_server
       (word_be 2 (15 :: u16) @ bytes_of ?i @ packet_bytes sample_frame_packet))))"
    using sample_packet_ok by (intro device_records_reach_handler [OF sample_calm]) simp_all
  then show ?thesis
    by (auto simp: list_all2_Cons1 TeltonikaRecordsToParsed_def teltonikaRecordsToParsed_def packet_records_def)
qed

end
