(* ===== verification/Request_Tracker.thy ===== *)
theory Request_Tracker
  imports Go_Strconv Reachability
begin

text \<open>
  The request tracker (\<open>internal/tracking/request_tracker.go\<close>): sampling, statuses with their
  history, counters, eviction and clean-up.  Times are instants in nanoseconds; the order in
  which Go iterates over the map, different every time, is an argument of the operations that
  depend on it.
\<close>

section \<open>State\<close>

datatype RequestStatus =
  StatusReceived | StatusQueued | StatusProcessing | StatusSending | StatusRetrying | StatusSuccess | StatusFailed

record StatusChange =
  ch_Status :: RequestStatus
  ch_Timestamp :: int
  ch_Message :: string

record RequestInfo =
  ri_RequestID :: string
  ri_ReceivedAt :: int
  ri_ClientIP :: string
  ri_PayloadSize :: nat
  ri_Status :: RequestStatus
  ri_QueuedAt :: "int option"
  ri_ProcessedAt :: "int option"
  ri_CompletedAt :: "int option"
  ri_TargetServer :: string
  ri_RetryCount :: int
  ri_LastError :: string
  ri_Duration :: int
  ri_StatusHistory :: "StatusChange list"

record RequestTracker =
  rt_requests :: "string \<rightharpoonup> RequestInfo"
  rt_maxSize :: int
  rt_sampleRate :: float64
  rt_enabled :: bool
  rt_totalReceived :: u64
  rt_totalQueued :: u64
  rt_totalSuccess :: u64
  rt_totalFailed :: u64

section \<open>Construction and sampling\<close>

definition NewRequestTrackerWithSampling :: "int \<Rightarrow> float64 \<Rightarrow> bool \<Rightarrow> RequestTracker" where
  "NewRequestTrackerWithSampling maxSize sampleRate enabled =
     (let r1 = (if f_lt sampleRate (Fin False 0) then Fin False 0 else sampleRate);
          r2 = (if f_lt (Fin False 1) r1 then Fin False 1 else r1)
      in \<lparr>rt_requests = Map.empty, rt_maxSize = maxSize, rt_sampleRate = r2, rt_enabled = enabled,
          rt_totalReceived = 0, rt_totalQueued = 0, rt_totalSuccess = 0, rt_totalFailed = 0\<rparr>)"

definition NewRequestTracker :: "int \<Rightarrow> RequestTracker" where
  "NewRequestTracker maxSize = NewRequestTrackerWithSampling maxSize (Fin False 1) True"

definition f_ge :: "float64 \<Rightarrow> float64 \<Rightarrow> bool" where
  "f_ge a b \<longleftrightarrow> f_lt b a \<or> (a \<noteq> NaN \<and> b \<noteq> NaN \<and> \<not> f_lt a b)"

definition shouldSample :: "RequestTracker \<Rightarrow> float64 \<Rightarrow> bool" where
  "shouldSample rt rnd =
     (if \<not> rt_enabled rt then False
      else if f_ge (rt_sampleRate rt) (Fin False 1) then True
      else if f_ge (Fin False 0) (rt_sampleRate rt) then False
      else f_lt rnd (rt_sampleRate rt))"

definition IsEnabled :: "RequestTracker \<Rightarrow> bool" where
  "IsEnabled rt = rt_enabled rt"

section \<open>Eviction and clean-up\<close>

definition completed :: "RequestInfo \<Rightarrow> bool" where
  "completed req \<longleftrightarrow> ri_Status req = StatusSuccess \<or> ri_Status req = StatusFailed"

text \<open>The loops of \<open>evictOldest\<close>: the empty identifier stands for none found yet.\<close>

fun oldest :: "(RequestInfo \<Rightarrow> bool) \<Rightarrow> (string \<rightharpoonup> RequestInfo) \<Rightarrow> string list \<Rightarrow> string \<Rightarrow> int \<Rightarrow> string" where
  "oldest p m [] oldestID oldestTime = oldestID"
| "oldest p m (i # order) oldestID oldestTime =
     (case m i of
        None \<Rightarrow> oldest p m order oldestID oldestTime
      | Some req \<Rightarrow>
          if p req \<and> (oldestID = [] \<or> ri_ReceivedAt req < oldestTime)
          then oldest p m order i (ri_ReceivedAt req)
          else oldest p m order oldestID oldestTime)"

definition evictOldest :: "string list \<Rightarrow> string list \<Rightarrow> RequestTracker \<Rightarrow> RequestTracker" where
  "evictOldest order order' rt =
     (let id1 = oldest completed (rt_requests rt) order [] 0;
          id2 = (if id1 = [] then oldest (\<lambda>_. True) (rt_requests rt) order' [] 0 else id1)
      in if id2 \<noteq> [] then rt\<lparr>rt_requests := (rt_requests rt)(id2 := None)\<rparr> else rt)"

definition stale :: "int \<Rightarrow> RequestInfo \<Rightarrow> bool" where
  "stale cutoff req \<longleftrightarrow> completed req \<and> ri_ReceivedAt req < cutoff"

definition Cleanup :: "int \<Rightarrow> int \<Rightarrow> RequestTracker \<Rightarrow> nat \<times> RequestTracker" where
  "Cleanup now olderThan rt =
     (let cutoff = now - olderThan; old = (\<lambda>i. case rt_requests rt i of Some req \<Rightarrow> stale cutoff req | None \<Rightarrow> False)
      in (card {i \<in> dom (rt_requests rt). old i},
          rt\<lparr>rt_requests := (\<lambda>i. if old i then None else rt_requests rt i)\<rparr>))"

section \<open>Tracking\<close>

definition TrackRequest ::
  "float64 \<Rightarrow> int \<Rightarrow> string list \<Rightarrow> string list \<Rightarrow> string \<Rightarrow> string \<Rightarrow> u8 list \<Rightarrow> RequestTracker \<Rightarrow> RequestTracker" where
  "TrackRequest rnd now order order' requestID clientIP payload rt0 =
     (let rt = rt0\<lparr>rt_totalReceived := rt_totalReceived rt0 + 1\<rparr> in
      if \<not> shouldSample rt rnd then rt
      else let rt1 = (if int (card (dom (rt_requests rt))) \<ge> rt_maxSize rt then evictOldest order order' rt else rt)
        in rt1\<lparr>rt_requests := (rt_requests rt1)(requestID \<mapsto>
             \<lparr>ri_RequestID = requestID, ri_ReceivedAt = now, ri_ClientIP = clientIP,
              ri_PayloadSize = length payload, ri_Status = StatusReceived, ri_QueuedAt = None,
              ri_ProcessedAt = None, ri_CompletedAt = None, ri_TargetServer = [], ri_RetryCount = 0,
              ri_LastError = [], ri_Duration = 0,
              ri_StatusHistory = [\<lparr>ch_Status = StatusReceived, ch_Timestamp = now, ch_Message = ''Request received''\<rparr>]\<rparr>)\<rparr>)"

definition count_status :: "RequestStatus \<Rightarrow> RequestTracker \<Rightarrow> RequestTracker" where
  "count_status status rt =
     (case status of
        StatusQueued \<Rightarrow> rt\<lparr>rt_totalQueued := rt_totalQueued rt + 1\<rparr>
      | StatusSuccess \<Rightarrow> rt\<lparr>rt_totalSuccess := rt_totalSuccess rt + 1\<rparr>
      | StatusFailed \<Rightarrow> rt\<lparr>rt_totalFailed := rt_totalFailed rt + 1\<rparr>
      | _ \<Rightarrow> rt)"

definition change_status :: "RequestStatus \<Rightarrow> string \<Rightarrow> int \<Rightarrow> RequestInfo \<Rightarrow> RequestInfo" where
  "change_status status message now req0 =
     (let req = req0\<lparr>ri_Status := status, ri_StatusHistory := ri_StatusHistory req0 @
            [\<lparr>ch_Status = status, ch_Timestamp = now, ch_Message = message\<rparr>]\<rparr>
      in case status of
           StatusQueued \<Rightarrow> req\<lparr>ri_QueuedAt := Some now\<rparr>
         | StatusProcessing \<Rightarrow> req\<lparr>ri_ProcessedAt := Some now\<rparr>
         | StatusSuccess \<Rightarrow> req\<lparr>ri_CompletedAt := Some now, ri_Duration := now - ri_ReceivedAt req\<rparr>
         | StatusFailed \<Rightarrow> req\<lparr>ri_CompletedAt := Some now, ri_Duration := now - ri_ReceivedAt req\<rparr>
         | _ \<Rightarrow> req)"

definition modify :: "string \<Rightarrow> (RequestInfo \<Rightarrow> RequestInfo) \<Rightarrow> RequestTracker \<Rightarrow> RequestTracker" where
  "modify requestID f rt =
     (case rt_requests rt requestID of
        None \<Rightarrow> rt
      | Some req \<Rightarrow> rt\<lparr>rt_requests := (rt_requests rt)(requestID \<mapsto> f req)\<rparr>)"

definition UpdateStatus :: "int \<Rightarrow> string \<Rightarrow> RequestStatus \<Rightarrow> string \<Rightarrow> RequestTracker \<Rightarrow> RequestTracker" where
  "UpdateStatus now requestID status message rt0 =
     (let rt = count_status status rt0 in
      if \<not> rt_enabled rt then rt else modify requestID (change_status status message now) rt)"

definition UpdateTargetServer :: "string \<Rightarrow> string \<Rightarrow> RequestTracker \<Rightarrow> RequestTracker" where
  "UpdateTargetServer requestID server rt = modify requestID (\<lambda>req. req\<lparr>ri_TargetServer := server\<rparr>) rt"

definition UpdateRetryCount :: "string \<Rightarrow> RequestTracker \<Rightarrow> RequestTracker" where
  "UpdateRetryCount requestID rt = modify requestID (\<lambda>req. req\<lparr>ri_RetryCount := ri_RetryCount req + 1\<rparr>) rt"

definition UpdateError :: "string \<Rightarrow> string \<Rightarrow> RequestTracker \<Rightarrow> RequestTracker" where
  "UpdateError requestID errorMsg rt = modify requestID (\<lambda>req. req\<lparr>ri_LastError := errorMsg\<rparr>) rt"

section \<open>Queries\<close>

definition GetRequest :: "string \<Rightarrow> RequestTracker \<Rightarrow> RequestInfo option" where
  "GetRequest requestID rt = rt_requests rt requestID"

text \<open>Copies of the requests, in the order of the iteration.\<close>

definition GetAllRequests :: "string list \<Rightarrow> RequestTracker \<Rightarrow> RequestInfo list" where
  "GetAllRequests order rt = List.map_filter (rt_requests rt) order"

definition GetRequestsByStatus :: "string list \<Rightarrow> RequestStatus \<Rightarrow> RequestTracker \<Rightarrow> RequestInfo list" where
  "GetRequestsByStatus order status rt = filter (\<lambda>req. ri_Status req = status) (List.map_filter (rt_requests rt) order)"

record statistics =
  st_total_tracked :: nat
  st_total_received :: u64
  st_total_queued :: u64
  st_total_success :: u64
  st_total_failed :: u64
  st_sample_rate :: float64
  st_enabled :: bool
  st_by_status :: "RequestStatus \<Rightarrow> nat"
  st_queued_waiting :: nat
  st_processing :: nat
  st_retrying :: nat

definition status_count :: "RequestTracker \<Rightarrow> RequestStatus \<Rightarrow> nat" where
  "status_count rt status =
     card {i \<in> dom (rt_requests rt). case rt_requests rt i of Some req \<Rightarrow> ri_Status req = status | None \<Rightarrow> False}"

definition GetStatistics :: "RequestTracker \<Rightarrow> statistics" where
  "GetStatistics rt =
     \<lparr>st_total_tracked = card (dom (rt_requests rt)), st_total_received = rt_totalReceived rt,
      st_total_queued = rt_totalQueued rt, st_total_success = rt_totalSuccess rt,
      st_total_failed = rt_totalFailed rt, st_sample_rate = rt_sampleRate rt, st_enabled = rt_enabled rt,
      st_by_status = status_count rt, st_queued_waiting = status_count rt StatusQueued,
      st_processing = status_count rt StatusProcessing, st_retrying = status_count rt StatusRetrying\<rparr>"

section \<open>Eviction removes the oldest\<close>

lemma oldest_spec:
  assumes "\<forall>i \<in> set order. i \<noteq> [] \<and> i \<in> dom m"
    and "oid \<noteq> [] \<Longrightarrow> oid \<in> dom m \<and> p (the (m oid)) \<and> ot = ri_ReceivedAt (the (m oid))"
    and "oldest p m order oid ot = r"
  shows "(r \<noteq> [] \<longrightarrow> r \<in> dom m \<and> p (the (m r)) \<and>
      (\<forall>i \<in> set order. p (the (m i)) \<longrightarrow> ri_ReceivedAt (the (m r)) \<le> ri_ReceivedAt (the (m i))) \<and>
      (oid \<noteq> [] \<longrightarrow> ri_ReceivedAt (the (m r)) \<le> ot)) \<and>
    (r = [] \<longrightarrow> oid = [] \<and> (\<forall>i \<in> set order. \<not> p (the (m i))))"
  using assms
proof (induction p m order oid ot rule: oldest.induct)
  case (2 p m i order oid ot)
  obtain req where m: "m i = Some req" "i \<noteq> []" using "2.prems"(1) by auto
  show ?case
  proof (cases "p req \<and> (oid = [] \<or> ri_ReceivedAt req < ot)")
    case True
    then have r: "oldest p m order i (ri_ReceivedAt req) = r" using "2.prems"(3) m by simp
    show ?thesis using "2.IH"(2) [OF m(1) True _ _ r] "2.prems"(1) m True by (fastforce simp: domI)
  next
    case False
    then have r: "oldest p m order oid ot = r" using "2.prems"(3) m by (simp only: oldest.simps option.case if_False)
    show ?thesis using "2.IH"(3) [OF m(1) False _ _ r] "2.prems"(1,2) m False by (fastforce simp: domI)
  qed
qed auto

lemma evictOldest_shrinks:
  assumes "set order = dom (rt_requests rt)" and "set order' = dom (rt_requests rt)" and "[] \<notin> dom (rt_requests rt)"
    and "dom (rt_requests rt) \<noteq> {}"
  obtains i where "i \<in> dom (rt_requests rt)" and "evictOldest order order' rt = rt\<lparr>rt_requests := (rt_requests rt)(i := None)\<rparr>"
    and "(\<exists>j \<in> dom (rt_requests rt). completed (the (rt_requests rt j))) \<longrightarrow> completed (the (rt_requests rt i))"
    and "\<And>j. j \<in> dom (rt_requests rt) \<Longrightarrow> completed (the (rt_requests rt j)) = completed (the (rt_requests rt i)) \<Longrightarrow>
      ri_ReceivedAt (the (rt_requests rt i)) \<le> ri_ReceivedAt (the (rt_requests rt j))"
proof -
  let ?m = "rt_requests rt"
  have o: "\<forall>i \<in> set order. i \<noteq> [] \<and> i \<in> dom ?m" "\<forall>i \<in> set order'. i \<noteq> [] \<and> i \<in> dom ?m"
    using assms(1-3) by fastforce+
  have s1: "(oldest completed ?m order [] 0 \<noteq> [] \<longrightarrow> oldest completed ?m order [] 0 \<in> dom ?m \<and>
      completed (the (?m (oldest completed ?m order [] 0))) \<and>
      (\<forall>i \<in> set order. completed (the (?m i)) \<longrightarrow>
         ri_ReceivedAt (the (?m (oldest completed ?m order [] 0))) \<le> ri_ReceivedAt (the (?m i)))) \<and>
    (oldest completed ?m order [] 0 = [] \<longrightarrow> (\<forall>i \<in> set order. \<not> completed (the (?m i))))"
    using oldest_spec [OF o(1), of "[]" completed 0 "oldest completed ?m order [] 0"] by simp
  have s2: "oldest (\<lambda>_. True) ?m order' [] 0 \<noteq> [] \<and> oldest (\<lambda>_. True) ?m order' [] 0 \<in> dom ?m \<and>
      (\<forall>i \<in> set order'. ri_ReceivedAt (the (?m (oldest (\<lambda>_. True) ?m order' [] 0))) \<le> ri_ReceivedAt (the (?m i)))"
    using oldest_spec [OF o(2), of "[]" "\<lambda>_. True" 0 "oldest (\<lambda>_. True) ?m order' [] 0"] assms(2,4) by auto
  show thesis
  proof (cases "oldest completed ?m order [] 0 = []")
    case True
    then show thesis
      using that [of "oldest (\<lambda>_. True) ?m order' [] 0"] s1 s2 assms(1,2) by (auto simp: evictOldest_def)
  next
    case False
    then show thesis
      using that [of "oldest completed ?m order [] 0"] s1 assms(1) by (auto simp: evictOldest_def Let_def)
  qed
qed

section \<open>The invariant of the tracker\<close>

definition info_ok :: "string \<Rightarrow> RequestInfo \<Rightarrow> bool" where
  "info_ok i req \<longleftrightarrow> ri_RequestID req = i \<and> ri_StatusHistory req \<noteq> [] \<and>
     ch_Status (hd (ri_StatusHistory req)) = StatusReceived \<and> ch_Timestamp (hd (ri_StatusHistory req)) = ri_ReceivedAt req \<and>
     ch_Status (last (ri_StatusHistory req)) = ri_Status req \<and>
     (completed req \<longrightarrow> ri_CompletedAt req = Some (ch_Timestamp (last (ri_StatusHistory req))) \<and>
        ri_Duration req = ch_Timestamp (last (ri_StatusHistory req)) - ri_ReceivedAt req)"

definition tracker_inv :: "RequestTracker \<Rightarrow> bool" where
  "tracker_inv rt \<longleftrightarrow> finite (dom (rt_requests rt)) \<and> [] \<notin> dom (rt_requests rt) \<and>
     int (card (dom (rt_requests rt))) \<le> max 1 (rt_maxSize rt) \<and>
     (\<forall>i req. rt_requests rt i = Some req \<longrightarrow> info_ok i req)"

text \<open>The operations the service calls; the orders are iterations over all tracked requests.\<close>

datatype tracker_op =
    Track float64 int "string list" "string list" string string "u8 list"
  | Status int string RequestStatus string
  | Target string string
  | Retried string
  | Failed_with string string
  | Clean int int

fun tracker_step :: "tracker_op \<Rightarrow> RequestTracker \<Rightarrow> RequestTracker" where
  "tracker_step (Track rnd now order order' i ip payload) rt = TrackRequest rnd now order order' i ip payload rt"
| "tracker_step (Status now i s msg) rt = UpdateStatus now i s msg rt"
| "tracker_step (Target i s) rt = UpdateTargetServer i s rt"
| "tracker_step (Retried i) rt = UpdateRetryCount i rt"
| "tracker_step (Failed_with i msg) rt = UpdateError i msg rt"
| "tracker_step (Clean now age) rt = snd (Cleanup now age rt)"

fun valid_op :: "RequestTracker \<Rightarrow> tracker_op \<Rightarrow> bool" where
  "valid_op rt (Track rnd now order order' i ip payload) \<longleftrightarrow>
     i \<noteq> [] \<and> set order = dom (rt_requests rt) \<and> set order' = dom (rt_requests rt)"
| "valid_op rt _ \<longleftrightarrow> True"

definition tracker_moves :: "RequestTracker \<Rightarrow> RequestTracker \<Rightarrow> bool" where
  "tracker_moves rt rt' \<longleftrightarrow> (\<exists>op. valid_op rt op \<and> rt' = tracker_step op rt)"

abbreviation tracker_reach :: "RequestTracker \<Rightarrow> RequestTracker \<Rightarrow> bool" where
  "tracker_reach rt0 \<equiv> reachable ((=) rt0) tracker_moves"

lemma reach_op: "tracker_reach rt0 rt \<Longrightarrow> valid_op rt op \<Longrightarrow> tracker_reach rt0 (tracker_step op rt)"
  by (rule reach_step) (auto simp: tracker_moves_def)

lemma tracker_inv_modify:
  assumes "tracker_inv rt" and "\<And>req. info_ok requestID req \<Longrightarrow> info_ok requestID (f req)"
  shows "tracker_inv (modify requestID f rt)"
proof (cases "rt_requests rt requestID")
  case (Some req)
  then have "insert requestID (dom (rt_requests rt)) = dom (rt_requests rt)" by (auto simp: insert_absorb)
  then show ?thesis using assms Some by (auto simp: tracker_inv_def modify_def)
qed (use assms in \<open>simp add: modify_def\<close>)

lemma count_status_simps [simp]:
  "rt_requests (count_status s rt) = rt_requests rt" "rt_maxSize (count_status s rt) = rt_maxSize rt"
  "rt_enabled (count_status s rt) = rt_enabled rt"
  by (cases s; simp add: count_status_def)+

lemma info_ok_change_status: "info_ok i req \<Longrightarrow> info_ok i (change_status s msg now req)"
  by (cases s) (auto simp: info_ok_def change_status_def completed_def Let_def)

lemma tracker_inv_track:
  assumes "tracker_inv rt" and "i \<noteq> []" and "set order = dom (rt_requests rt)" and "set order' = dom (rt_requests rt)"
  shows "tracker_inv (TrackRequest rnd now order order' i ip payload rt)"
proof -
  let ?rt = "rt\<lparr>rt_totalReceived := rt_totalReceived rt + 1\<rparr>"
  have inv: "tracker_inv ?rt" using assms(1) by (simp add: tracker_inv_def)
  show ?thesis
  proof (cases "shouldSample ?rt rnd")
    case True
    define rt1 where "rt1 = (if int (card (dom (rt_requests ?rt))) \<ge> rt_maxSize ?rt then evictOldest order order' ?rt else ?rt)"
    have 1: "finite (dom (rt_requests rt1))" "[] \<notin> dom (rt_requests rt1)" "rt_maxSize rt1 = rt_maxSize rt"
      "\<forall>i req. rt_requests rt1 i = Some req \<longrightarrow> info_ok i req" "int (card (dom (rt_requests rt1))) + 1 \<le> max 1 (rt_maxSize rt)"
    proof -
      have "finite (dom (rt_requests rt1)) \<and> [] \<notin> dom (rt_requests rt1) \<and> rt_maxSize rt1 = rt_maxSize rt \<and>
        (\<forall>i req. rt_requests rt1 i = Some req \<longrightarrow> info_ok i req) \<and> int (card (dom (rt_requests rt1))) + 1 \<le> max 1 (rt_maxSize rt)"
      proof (cases "int (card (dom (rt_requests rt))) \<ge> rt_maxSize rt")
        case full: True
        show ?thesis
        proof (cases "dom (rt_requests rt) = {}")
          case True
          then have "order = []" "order' = []" using assms(3,4) by simp_all
          then have "rt1 = ?rt" by (simp add: rt1_def evictOldest_def)
          then show ?thesis using inv True by (simp add: tracker_inv_def)
        next
          case False
          obtain j where j: "j \<in> dom (rt_requests ?rt)" "evictOldest order order' ?rt = ?rt\<lparr>rt_requests := (rt_requests ?rt)(j := None)\<rparr>"
            by (rule evictOldest_shrinks [of order ?rt order']) (use assms inv False in \<open>auto simp: tracker_inv_def\<close>)
          have r: "rt1 = ?rt\<lparr>rt_requests := (rt_requests rt)(j := None)\<rparr>" using full j(2) by (simp add: rt1_def)
          have "0 < card (dom (rt_requests rt))" using inv False by (simp add: tracker_inv_def card_gt_0_iff)
          then show ?thesis using inv j(1) unfolding r by (auto simp: tracker_inv_def)
        qed
      next
        case False
        then show ?thesis using inv by (auto simp: rt1_def tracker_inv_def)
      qed
      then show "finite (dom (rt_requests rt1))" "[] \<notin> dom (rt_requests rt1)" "rt_maxSize rt1 = rt_maxSize rt"
        "\<forall>i req. rt_requests rt1 i = Some req \<longrightarrow> info_ok i req" "int (card (dom (rt_requests rt1))) + 1 \<le> max 1 (rt_maxSize rt)"
        by blast+
    qed
    have "card (insert i (dom (rt_requests rt1))) \<le> Suc (card (dom (rt_requests rt1)))" using 1(1) by (simp add: card_insert_if)
    moreover have "TrackRequest rnd now order order' i ip payload rt = rt1\<lparr>rt_requests := (rt_requests rt1)(i \<mapsto>
        \<lparr>ri_RequestID = i, ri_ReceivedAt = now, ri_ClientIP = ip, ri_PayloadSize = length payload, ri_Status = StatusReceived,
         ri_QueuedAt = None, ri_ProcessedAt = None, ri_CompletedAt = None, ri_TargetServer = [], ri_RetryCount = 0,
         ri_LastError = [], ri_Duration = 0,
         ri_StatusHistory = [\<lparr>ch_Status = StatusReceived, ch_Timestamp = now, ch_Message = ''Request received''\<rparr>]\<rparr>)\<rparr>"
      using True by (simp add: TrackRequest_def rt1_def Let_def)
    ultimately show ?thesis
      using 1 assms(2) by (auto simp: tracker_inv_def info_ok_def completed_def)
  qed (use inv in \<open>simp add: TrackRequest_def\<close>)
qed

lemma tracker_inv_step: "tracker_inv rt \<Longrightarrow> valid_op rt op \<Longrightarrow> tracker_inv (tracker_step op rt)"
proof (cases op)
  case (Track rnd now order order' i ip payload)
  then show "tracker_inv rt \<Longrightarrow> valid_op rt op \<Longrightarrow> ?thesis" using tracker_inv_track by auto
next
  case (Status now i s msg)
  assume "tracker_inv rt"
  then have "tracker_inv (count_status s rt)" by (simp add: tracker_inv_def)
  then show ?thesis
    using Status tracker_inv_modify info_ok_change_status by (simp add: UpdateStatus_def Let_def)
next
  case (Clean now age)
  assume inv: "tracker_inv rt"
  let ?rt = "snd (Cleanup now age rt)"
  have sub: "dom (rt_requests ?rt) \<subseteq> dom (rt_requests rt)" by (auto simp: Cleanup_def Let_def split: if_splits)
  have fin: "finite (dom (rt_requests rt))" using inv by (simp add: tracker_inv_def)
  have "card (dom (rt_requests ?rt)) \<le> card (dom (rt_requests rt))" by (rule card_mono [OF fin sub])
  moreover have "rt_requests ?rt i = Some req \<Longrightarrow> rt_requests rt i = Some req" for i req
    by (auto simp: Cleanup_def Let_def split: if_splits)
  moreover have "rt_maxSize ?rt = rt_maxSize rt" by (simp add: Cleanup_def Let_def)
  ultimately show ?thesis
    using inv sub finite_subset [OF sub fin] Clean by (fastforce simp: tracker_inv_def)
qed (auto simp: UpdateTargetServer_def UpdateRetryCount_def UpdateError_def info_ok_def completed_def intro!: tracker_inv_modify)

lemma maxSize_step: "rt_maxSize (tracker_step op rt) = rt_maxSize rt"
  by (cases op) (auto simp: TrackRequest_def evictOldest_def UpdateStatus_def UpdateTargetServer_def UpdateRetryCount_def
      UpdateError_def Cleanup_def modify_def Let_def split: option.splits)

lemma tracker_inv_new: "tracker_inv (NewRequestTrackerWithSampling maxSize rate enabled)"
  by (simp add: NewRequestTrackerWithSampling_def tracker_inv_def Let_def)

interpretation tracker: conserving_system
  "\<lambda>rt. \<exists>maxSize rate enabled. rt = NewRequestTrackerWithSampling maxSize rate enabled" tracker_moves tracker_inv rt_maxSize
  by unfold_locales
    (auto simp: tracker_moves_def maxSize_step intro: tracker_inv_new tracker_inv_step)

text \<open>
  C27: The tracker never holds more requests than its maximum (one, when that is not positive),
  whatever the service does to it; and every tracked request has a history that begins with its
  reception and ends with its current status, with the completion time and the duration of that
  last change once it is completed.
\<close>

theorem tracker_bounded:
  assumes "tracker_reach (NewRequestTrackerWithSampling maxSize rate enabled) rt"
  shows "int (card (dom (rt_requests rt))) \<le> max 1 maxSize \<and>
    (\<forall>i req. rt_requests rt i = Some req \<longrightarrow> info_ok i req)"
proof -
  let ?new = "NewRequestTrackerWithSampling maxSize rate enabled"
  note tracker.inv_from [OF assms tracker_inv_new] tracker.part_from [OF assms tracker_inv_new]
  moreover have "rt_maxSize ?new = maxSize" by (simp add: NewRequestTrackerWithSampling_def Let_def)
  ultimately show ?thesis unfolding tracker_inv_def by auto
qed

text \<open>Three requests in a tracker for two: the one that failed makes room.\<close>

definition small_tracker :: RequestTracker where
  "small_tracker = NewRequestTrackerWithSampling 2 (Fin False 1) True"

theorem tracker_bounded_witness:
  "\<exists>rt. tracker_reach small_tracker rt \<and> dom (rt_requests rt) = {''b'', ''c''} \<and>
     int (card (dom (rt_requests rt))) \<le> max 1 2 \<and> (\<forall>i req. rt_requests rt i = Some req \<longrightarrow> info_ok i req)"
proof -
  let ?rt1 = "tracker_step (Track (Fin False 0) 1 [] [] ''a'' [] []) small_tracker"
  let ?rt2 = "tracker_step (Status 2 ''a'' StatusFailed ''Queue full (backpressure)'') ?rt1"
  let ?rt3 = "tracker_step (Track (Fin False 0) 3 [''a''] [''a''] ''b'' [] []) ?rt2"
  let ?rt4 = "tracker_step (Track (Fin False 0) 4 [''b'', ''a''] [''b'', ''a''] ''c'' [] []) ?rt3"
  have s: "shouldSample r (Fin False 0)" if "rt_sampleRate r = Fin False 1" "rt_enabled r" for r
    using that by (simp add: shouldSample_def f_ge_def)
  have 1: "?rt1 = small_tracker\<lparr>rt_totalReceived := 1, rt_requests := rt_requests ?rt1\<rparr>" "dom (rt_requests ?rt1) = {''a''}"
    by (simp_all add: TrackRequest_def s small_tracker_def NewRequestTrackerWithSampling_def Let_def)
  have 2: "dom (rt_requests ?rt2) = {''a''}"
    by (auto simp: TrackRequest_def s small_tracker_def NewRequestTrackerWithSampling_def UpdateStatus_def modify_def Let_def)
  have 3: "dom (rt_requests ?rt3) = {''a'', ''b''}"
    by (auto simp: TrackRequest_def s small_tracker_def NewRequestTrackerWithSampling_def UpdateStatus_def modify_def
        change_status_def count_status_def Let_def)
  have 4: "dom (rt_requests ?rt4) = {''b'', ''c''}"
    by (auto simp: TrackRequest_def s small_tracker_def NewRequestTrackerWithSampling_def UpdateStatus_def modify_def
        change_status_def count_status_def evictOldest_def completed_def Let_def)
  have "tracker_reach small_tracker ?rt4"
    by (intro reach_op reach_init) (use 1 2 3 in \<open>auto simp: small_tracker_def NewRequestTrackerWithSampling_def Let_def\<close>)
  from tracker_bounded [OF this [unfolded small_tracker_def], folded small_tracker_def] this 4 show ?thesis by blast
qed

end
