(* ===== verification/Hooshnics_Forwarder.thy ===== *)
theory Hooshnics_Forwarder
  imports Go_Strconv Go_Time Sanitizer Reachability "HOL-Library.Multiset"
begin

text \<open>
  The mirror to the Hooshnics ingest service (\<open>internal/hooshnics/forwarder.go\<close>): how a payload
  becomes a request, the buffered channel with its workers, the attempts of one delivery, and the
  spill directory.  The JSON encoder, the HTTP client, the clock and the file system's answers are
  arguments.
\<close>

section \<open>State\<close>

definition kindRaw :: string where "kindRaw = ''raw''"

definition kindParsed :: string where "kindParsed = ''parsed''"

record Forwarder_Config =
  fc_Enabled :: bool
  fc_AuthToken :: string
  fc_RawURL :: string
  fc_ParsedURL :: string
  fc_BufferSize :: int
  fc_SpillDir :: string
  fc_Timeout :: int
  fc_Workers :: int

record RawMeta =
  mt_IMEI :: string
  mt_SourceType :: string
  mt_Encoding :: string
  mt_ReceivedAt :: "Time option"

record job =
  jb_kind :: string
  jb_url :: string
  jb_body :: "u8 list"
  jb_headers :: "string \<rightharpoonup> string"

text \<open>The directory below \<open>SpillDir\<close>: the files by kind and name.\<close>

type_synonym spill_files = "string \<times> string \<rightharpoonup> u8 list"

record Forwarder =
  fw_cfg :: Forwarder_Config
  fw_ch :: "job chan"
  fw_done :: bool
  fw_files :: spill_files

datatype forwarder_error = NoToken | NoURL

definition NewForwarder :: "Forwarder_Config \<Rightarrow> spill_files \<Rightarrow> (forwarder_error, Forwarder option) result" where
  "NewForwarder cfg files =
     (if \<not> fc_Enabled cfg then Ok None
      else if TrimSpace (fc_AuthToken cfg) = [] then Err NoToken
      else if TrimSpace (fc_RawURL cfg) = [] \<and> TrimSpace (fc_ParsedURL cfg) = [] then Err NoURL
      else let c1 = (if fc_BufferSize cfg \<le> 0 then cfg\<lparr>fc_BufferSize := 50000\<rparr> else cfg);
               c2 = (if fc_SpillDir c1 = [] then c1\<lparr>fc_SpillDir := ''logs/hooshnics_spill''\<rparr> else c1);
               c3 = (if fc_Timeout c2 \<le> 0 then c2\<lparr>fc_Timeout := 15 * Second\<rparr> else c2);
               c4 = (if fc_Workers c3 \<le> 0 then c3\<lparr>fc_Workers := 4\<rparr> else c3)
           in Ok (Some \<lparr>fw_cfg = c4, fw_ch = make_chan (nat (fc_BufferSize c4)), fw_done = False, fw_files = files\<rparr>))"

section \<open>The spill directory\<close>

text \<open>
  What the file system answers: the directory cannot be made, the write fails (leaving nothing or
  a part of the file behind), or the file is written.  The name is the time in nanoseconds.
\<close>

datatype spill_answer = MkdirFails | WriteFails "u8 list option" | WriteDone

definition spill :: "spill_answer \<Rightarrow> int \<Rightarrow> string \<Rightarrow> u8 list \<Rightarrow> spill_files \<Rightarrow> spill_files" where
  "spill ans now kind body files =
     (let path = (kind, Itoa now @ ''.json'') in
      case ans of
        MkdirFails \<Rightarrow> files
      | WriteFails None \<Rightarrow> files
      | WriteFails (Some part) \<Rightarrow> files(path \<mapsto> part)
      | WriteDone \<Rightarrow> files(path \<mapsto> body))"

section \<open>The raw request\<close>

text \<open>
  \<open>strings.ToLower\<close> as far as a comparison with ASCII text can tell: the two other characters
  with an ASCII lower case are the dotted capital I and the Kelvin sign.
\<close>

fun lower_for_ascii :: "string \<Rightarrow> string" where
  "lower_for_ascii s =
     (case s of
        [] \<Rightarrow> []
      | c # r \<Rightarrow>
          (if of_char c = (0xC4 :: nat) \<and> (case r of d # _ \<Rightarrow> of_char d = (0xB0 :: nat) | _ \<Rightarrow> False)
           then CHR ''i'' # lower_for_ascii (drop 1 r)
           else if of_char c = (0xE2 :: nat) \<and> (case r of d # e # _ \<Rightarrow> of_char d = (0x84 :: nat) \<and> of_char e = (0xAA :: nat) | _ \<Rightarrow> False)
           then CHR ''k'' # lower_for_ascii (drop 2 r)
           else lower c # lower_for_ascii r))"

declare lower_for_ascii.simps [simp del]

text \<open>\<open>t.UTC().Format(time.RFC3339Nano)\<close>.\<close>

definition RFC3339Nano :: "Time \<Rightarrow> string" where
  "RFC3339Nano t =
     (let (y, m, d) = date_of_days (t_sec t div 86400); r = t_sec t mod 86400 in
      int_pad 4 y @ ''-'' @ pad 2 m @ ''-'' @ int_pad 2 d @ ''T'' @
      int_pad 2 (r div 3600) @ '':'' @ int_pad 2 (r div 60 mod 60) @ '':'' @ int_pad 2 (r mod 60) @
      (if t_nsec t = 0 then [] else ''.'' @ TrimRight (pad 9 (nat (t_nsec t))) ''0'') @ ''Z'')"

definition blank_bytes :: "u8 list" where
  "blank_bytes = [0x20, 0x09, 0x0D, 0x0A]"

definition opens_json :: "u8 list \<Rightarrow> bool" where
  "opens_json trimmed \<longleftrightarrow> trimmed \<noteq> [] \<and> (hd trimmed = 0x7B \<or> hd trimmed = 0x5B)"

record raw_envelope =
  re_payload :: string
  re_encoding :: string
  re_source_type :: string
  re_received_at :: string
  re_imei :: "string option"

definition json_header :: "string \<rightharpoonup> string" where
  "json_header = [''Content-Type'' \<mapsto> ''application/json'']"

definition raw_encoding :: "string \<Rightarrow> bool \<Rightarrow> u8 list \<Rightarrow> string \<times> string" where
  "raw_encoding enc isJSON payload =
     (if enc = [] \<or> enc = ''binary'' \<or> enc = ''hex'' \<or> \<not> utf8_Valid payload then (''hex'', hex_EncodeToString payload)
      else if enc = ''json'' \<and> \<not> isJSON then (''hex'', hex_EncodeToString payload)
      else (enc, string_of payload))"

definition buildRawRequest ::
  "(raw_envelope \<Rightarrow> u8 list option) \<Rightarrow> Time \<Rightarrow> u8 list \<Rightarrow> RawMeta \<Rightarrow> (u8 list \<times> (string \<rightharpoonup> string)) option" where
  "buildRawRequest marshal now payload meta =
     (let encoding = lower_for_ascii (TrimSpace (mt_Encoding meta));
          sourceType = TrimSpace (mt_SourceType meta);
          imei = TrimSpace (mt_IMEI meta);
          receivedAt = (case mt_ReceivedAt meta of None \<Rightarrow> now | Some t \<Rightarrow> t);
          isJSON = opens_json (TrimLeft payload blank_bytes) \<and> utf8_Valid payload
      in if isJSON \<and> (encoding = [] \<or> encoding = ''json'') \<and> sourceType \<noteq> ''teltonika''
         then Some (payload, json_header ++
                (if imei \<noteq> [] then [''X-Device-Imei'' \<mapsto> imei] else Map.empty) ++
                (if sourceType \<noteq> [] then [''X-Gps-Source-Type'' \<mapsto> sourceType] else Map.empty))
         else let (enc, payloadStr) = raw_encoding encoding isJSON payload;
                  sourceType' = (if sourceType = [] then (if enc = ''hex'' then ''teltonika'' else ''http'') else sourceType);
                  envelope = \<lparr>re_payload = payloadStr, re_encoding = enc, re_source_type = sourceType',
                    re_received_at = RFC3339Nano receivedAt, re_imei = (if imei \<noteq> [] then Some imei else None)\<rparr>
              in map_option (\<lambda>body. (body, json_header)) (marshal envelope))"

definition hex_char :: "char \<Rightarrow> bool" where
  "hex_char c \<longleftrightarrow> hex_value c \<noteq> None"

definition looksLikeHex :: "u8 list \<Rightarrow> bool" where
  "looksLikeHex payload =
     (let s = TrimSpace (string_of payload) in \<not> (length s < 20 \<or> length s mod 2 \<noteq> 0) \<and> list_all hex_char s)"

section \<open>Forwarding\<close>

text \<open>\<open>enqueue\<close> never blocks: a job that finds the buffer full is spilled.\<close>

definition enqueue_job :: "spill_answer \<Rightarrow> int \<Rightarrow> job \<Rightarrow> Forwarder \<Rightarrow> Forwarder" where
  "enqueue_job ans nowNano j f =
     (let (sent, ch) = try_send j (fw_ch f) in
      if sent then f\<lparr>fw_ch := ch\<rparr>
      else f\<lparr>fw_files := spill ans nowNano (jb_kind j) (jb_body j) (fw_files f)\<rparr>)"

definition nano :: "Time \<Rightarrow> int" where
  "nano t = t_sec t * Second + t_nsec t"

definition ForwardRaw ::
  "(raw_envelope \<Rightarrow> u8 list option) \<Rightarrow> spill_answer \<Rightarrow> Time \<Rightarrow> u8 list \<Rightarrow> RawMeta \<Rightarrow> Forwarder \<Rightarrow> Forwarder" where
  "ForwardRaw marshal ans now payload meta f =
     (if length payload = 0 \<or> TrimSpace (fc_RawURL (fw_cfg f)) = [] then f
      else case buildRawRequest marshal now payload meta of
        None \<Rightarrow> f\<lparr>fw_files := spill ans (nano now) kindRaw payload (fw_files f)\<rparr>
      | Some (body, headers) \<Rightarrow>
          enqueue_job ans (nano now) \<lparr>jb_kind = kindRaw, jb_url = fc_RawURL (fw_cfg f), jb_body = body, jb_headers = headers\<rparr> f)"

definition ForwardTeltonikaAVL ::
  "(raw_envelope \<Rightarrow> u8 list option) \<Rightarrow> spill_answer \<Rightarrow> Time \<Rightarrow> string \<Rightarrow> u8 list \<Rightarrow> Forwarder \<Rightarrow> Forwarder" where
  "ForwardTeltonikaAVL marshal ans now imei frame f =
     (if length frame = 0 then f
      else ForwardRaw marshal ans now frame
        \<lparr>mt_IMEI = imei, mt_SourceType = ''teltonika'', mt_Encoding = ''hex'', mt_ReceivedAt = Some now\<rparr> f)"

definition classify_body :: "u8 list \<Rightarrow> string \<Rightarrow> string \<times> string" where
  "classify_body body contentType =
     (let ct = lower_for_ascii (TrimSpace contentType); trimmed = TrimLeft body blank_bytes in
      if HasPrefix ct ''application/octet-stream'' then (''teltonika'', ''hex'')
      else if opens_json trimmed then (''hooshnic'', ''json'')
      else if looksLikeHex body then (''teltonika'', ''hex'')
      else (''http'', if utf8_Valid body then ''text'' else ''hex''))"

definition ForwardHTTPBody ::
  "(raw_envelope \<Rightarrow> u8 list option) \<Rightarrow> spill_answer \<Rightarrow> Time \<Rightarrow> u8 list \<Rightarrow> string \<Rightarrow> string \<Rightarrow> Forwarder \<Rightarrow> Forwarder" where
  "ForwardHTTPBody marshal ans now body imei contentType f =
     (if length body = 0 then f
      else let (source, enc) = classify_body body contentType in
        ForwardRaw marshal ans now body
          \<lparr>mt_IMEI = imei, mt_SourceType = source, mt_Encoding = enc, mt_ReceivedAt = Some now\<rparr> f)"

definition ForwardParsed :: "spill_answer \<Rightarrow> Time \<Rightarrow> u8 list \<Rightarrow> Forwarder \<Rightarrow> Forwarder" where
  "ForwardParsed ans now payload f =
     (if length payload = 0 \<or> TrimSpace (fc_ParsedURL (fw_cfg f)) = [] then f
      else enqueue_job ans (nano now)
        \<lparr>jb_kind = kindParsed, jb_url = fc_ParsedURL (fw_cfg f), jb_body = payload, jb_headers = json_header\<rparr> f)"

section \<open>One delivery\<close>

text \<open>The request of \<open>post\<close>: its headers over the job's own.\<close>

definition post_headers :: "Forwarder_Config \<Rightarrow> job \<Rightarrow> (string \<rightharpoonup> string)" where
  "post_headers cfg j =
     (let h = [''X-Ingest-Token'' \<mapsto> fc_AuthToken cfg, ''X-Gps-Mirror'' \<mapsto> ''gps-receiver''] ++ jb_headers j in
      if h ''Content-Type'' = None \<or> h ''Content-Type'' = Some [] then h(''Content-Type'' \<mapsto> ''application/json'') else h)"

datatype post_answer = PostError | HttpStatus int

text \<open>
  The world of one delivery: the answer to each attempt, and whether the wait after an attempt
  is cut short by \<open>Close\<close>.
\<close>

record delivery_world =
  dw_answer :: "nat \<Rightarrow> post_answer"
  dw_closing :: "nat \<Rightarrow> bool"

datatype delivery_event = Posted nat | Waited int | WaitCut

datatype delivery_end = Delivered | GivenUp | FellThrough

fun accepted :: "post_answer \<Rightarrow> bool" where
  "accepted (HttpStatus s) = (200 \<le> s \<and> s < 300)"
| "accepted PostError = False"

fun rejected :: "post_answer \<Rightarrow> bool" where
  "rejected (HttpStatus s) = (400 \<le> s \<and> s < 500 \<and> s \<noteq> 429)"
| "rejected PostError = False"

definition maxMirrorAttempts :: nat where "maxMirrorAttempts = 5"

definition next_backoff :: "int \<Rightarrow> int" where
  "next_backoff backoff = min (backoff * 2) (15 * Second)"

function deliver_loop :: "delivery_world \<Rightarrow> nat \<Rightarrow> int \<Rightarrow> delivery_event list \<times> delivery_end" where
  "deliver_loop w attempt backoff =
     (if maxMirrorAttempts < attempt then ([], FellThrough)
      else if accepted (dw_answer w attempt) then ([Posted attempt], Delivered)
      else if rejected (dw_answer w attempt) then ([Posted attempt], GivenUp)
      else if attempt = maxMirrorAttempts then ([Posted attempt], GivenUp)
      else if dw_closing w attempt then ([Posted attempt, WaitCut], GivenUp)
      else let (evs, out) = deliver_loop w (Suc attempt) (next_backoff backoff) in
        (Posted attempt # Waited backoff # evs, out))"
  by pat_completeness auto

termination deliver_loop
  by (relation "measure (\<lambda>(_, attempt, _). Suc maxMirrorAttempts - attempt)") auto

declare deliver_loop.simps [simp del]

definition deliver_mirror :: "delivery_world \<Rightarrow> delivery_event list \<times> delivery_end" where
  "deliver_mirror w = deliver_loop w 1 (500 * 1000000)"

text \<open>The delivery of a job, with its spill when it is given up.\<close>

definition deliver_job :: "delivery_world \<Rightarrow> spill_answer \<Rightarrow> int \<Rightarrow> job \<Rightarrow> Forwarder \<Rightarrow> delivery_end \<times> Forwarder" where
  "deliver_job w ans nowNano j f =
     (let out = snd (deliver_mirror w) in
      (out, if out = GivenUp then f\<lparr>fw_files := spill ans nowNano (jb_kind j) (jb_body j) (fw_files f)\<rparr> else f))"


section \<open>Facts about a delivery\<close>

fun posts :: "delivery_event list \<Rightarrow> nat list" where
  "posts [] = []"
| "posts (Posted n # evs) = n # posts evs"
| "posts (_ # evs) = posts evs"

fun waits :: "delivery_event list \<Rightarrow> int list" where
  "waits [] = []"
| "waits (Waited d # evs) = d # waits evs"
| "waits (_ # evs) = waits evs"

fun backoffs :: "int \<Rightarrow> nat \<Rightarrow> int list" where
  "backoffs b 0 = []"
| "backoffs b (Suc n) = b # backoffs (next_backoff b) n"

definition retried :: "delivery_world \<Rightarrow> nat \<Rightarrow> bool" where
  "retried w k \<longleftrightarrow> \<not> accepted (dw_answer w k) \<and> \<not> rejected (dw_answer w k) \<and> \<not> dw_closing w k"

definition delivery_spec :: "delivery_world \<Rightarrow> nat \<Rightarrow> int \<Rightarrow> nat \<Rightarrow> delivery_event list \<times> delivery_end \<Rightarrow> bool" where
  "delivery_spec w attempt b n r \<longleftrightarrow>
     posts (fst r) = [attempt..<Suc n] \<and> waits (fst r) = backoffs b (n - attempt) \<and>
     (\<forall>k \<in> {attempt..<n}. retried w k) \<and>
     snd r = (if accepted (dw_answer w n) then Delivered else GivenUp) \<and>
     (accepted (dw_answer w n) \<or> rejected (dw_answer w n) \<or> n = maxMirrorAttempts \<or> dw_closing w n)"

lemma delivery_spec_more:
  assumes "delivery_spec w (Suc attempt) (next_backoff b) n (evs, out)" and "retried w attempt" and "attempt < n"
  shows "delivery_spec w attempt b n (Posted attempt # Waited b # evs, out)"
proof -
  have "{attempt..<n} = insert attempt {Suc attempt..<n}" using assms(3) by auto
  moreover have "n - attempt = Suc (n - Suc attempt)" using assms(3) by simp
  moreover have "[attempt..<Suc n] = attempt # [Suc attempt..<Suc n]" using assms(3) by (simp add: upt_conv_Cons)
  ultimately show ?thesis using assms(1,2) by (simp add: delivery_spec_def del: upt_Suc)
qed

lemma deliver_loop_spec:
  "attempt \<le> maxMirrorAttempts \<Longrightarrow>
    \<exists>n. attempt \<le> n \<and> n \<le> maxMirrorAttempts \<and> delivery_spec w attempt b n (deliver_loop w attempt b)"
proof (induction w attempt b rule: deliver_loop.induct)
  case (1 w attempt b)
  show ?case
  proof (cases "attempt < maxMirrorAttempts \<and> retried w attempt")
    case True
    then obtain n where n: "Suc attempt \<le> n" "n \<le> maxMirrorAttempts"
      "delivery_spec w (Suc attempt) (next_backoff b) n (deliver_loop w (Suc attempt) (next_backoff b))"
      using 1 by (fastforce simp: retried_def)
    have "deliver_loop w attempt b = (Posted attempt # Waited b # fst (deliver_loop w (Suc attempt) (next_backoff b)),
        snd (deliver_loop w (Suc attempt) (next_backoff b)))"
      using True by (subst deliver_loop.simps) (simp add: retried_def case_prod_beta)
    then show ?thesis using delivery_spec_more [of w attempt b n "fst (deliver_loop w (Suc attempt) (next_backoff b))"
      "snd (deliver_loop w (Suc attempt) (next_backoff b))"] True n by (intro exI [of _ n]) auto
  next
    case False
    then show ?thesis using "1.prems"
      by (intro exI [of _ attempt]) (subst deliver_loop.simps, auto simp: delivery_spec_def retried_def)
  qed
qed

lemma first_backoffs: "m \<le> 4 \<Longrightarrow> backoffs 500000000 m = take m [500000000, 1000000000, 2000000000, 4000000000]"
proof -
  assume "m \<le> 4"
  then consider "m = 0" | "m = 1" | "m = 2" | "m = 3" | "m = 4" by linarith
  then show ?thesis by cases (simp_all add: next_backoff_def eval_nat_numeral)
qed

text \<open>
  C13: One delivery to the mirror posts the payload between one and five times.  Every post but the
  last got an answer worth repeating (no 2xx, no 4xx other than 429) and was followed by the next
  of the waits 0.5, 1, 2 and 4 seconds; the last was accepted, or was rejected, or was the fifth,
  or the forwarder was closed during the wait, and unless it was accepted the payload is given up
  to the spill directory.
\<close>

theorem mirror_delivery:
  "\<exists>n \<ge> 1. n \<le> 5 \<and> posts (fst (deliver_mirror w)) = [1..<Suc n] \<and>
     waits (fst (deliver_mirror w)) = take (n - 1) [500000000, 1000000000, 2000000000, 4000000000] \<and>
     (\<forall>k \<in> {1..<n}. retried w k) \<and>
     snd (deliver_mirror w) = (if accepted (dw_answer w n) then Delivered else GivenUp) \<and>
     (accepted (dw_answer w n) \<or> rejected (dw_answer w n) \<or> n = 5 \<or> dw_closing w n)"
proof -
  obtain n where n: "1 \<le> n" "n \<le> maxMirrorAttempts" "delivery_spec w 1 500000000 n (deliver_loop w 1 500000000)"
    using deliver_loop_spec [of 1 w 500000000] by (auto simp: maxMirrorAttempts_def)
  then have "n - 1 \<le> 4" by (simp add: maxMirrorAttempts_def)
  then show ?thesis using n first_backoffs [of "n - 1"]
    by (intro exI [of _ n]) (auto simp: delivery_spec_def deliver_mirror_def maxMirrorAttempts_def simp del: upt_Suc)
qed

definition busy_mirror :: delivery_world where
  "busy_mirror = \<lparr>dw_answer = (\<lambda>k. if k = 1 then PostError else if k = 2 then HttpStatus 429 else HttpStatus 201),
     dw_closing = (\<lambda>_. False)\<rparr>"

theorem mirror_delivery_witness:
  "posts (fst (deliver_mirror busy_mirror)) = [1, 2, 3] \<and> snd (deliver_mirror busy_mirror) = Delivered"
proof -
  have ans: "dw_answer busy_mirror 1 = PostError" "dw_answer busy_mirror 2 = HttpStatus 429"
    "3 \<le> k \<Longrightarrow> dw_answer busy_mirror k = HttpStatus 201" "\<not> dw_closing busy_mirror k" for k
    by (simp_all add: busy_mirror_def)
  obtain n where n: "n \<ge> 1" "n \<le> 5" "posts (fst (deliver_mirror busy_mirror)) = [1..<Suc n]" "\<forall>k \<in> {1..<n}. retried busy_mirror k"
    "snd (deliver_mirror busy_mirror) = (if accepted (dw_answer busy_mirror n) then Delivered else GivenUp)"
    "accepted (dw_answer busy_mirror n) \<or> rejected (dw_answer busy_mirror n) \<or> n = 5 \<or> dw_closing busy_mirror n"
    using mirror_delivery [of busy_mirror] by blast
  have "n \<noteq> 1" "n \<noteq> 2" using n(6) ans by auto
  moreover have "\<not> 3 < n" using bspec [OF n(4), of 3] ans(3) [of 3] by (auto simp: retried_def)
  ultimately have "n = 3" using n(1) by linarith
  then show ?thesis using n(3,5) ans(3) by (simp add: upt_rec)
qed


section \<open>What the mirror receives\<close>

lemma utf8_Valid_ascii: "\<forall>b \<in> set s. b < 0x80 \<Longrightarrow> utf8_Valid s"
proof (induction s)
  case (Cons b s)
  then have "rune_len (b # s) = 1" by (simp add: rune_len.simps)
  with Cons show ?case by (subst utf8_Valid.simps) simp
qed simp

lemma hex_digit_ascii: "d < 16 \<Longrightarrow> of_char (hex_digit d) < (0x80 :: u8)"
  by (auto simp: hex_digit_def word_less_nat_alt)

lemma utf8_Valid_hex: "utf8_Valid (bytes_of (hex_EncodeToString bs))"
proof (rule utf8_Valid_ascii)
  have "unat b div 16 < 16" for b :: u8
  proof -
    have "unat b < 2 ^ LENGTH(8)" by (rule unsigned_less)
    then show ?thesis by simp
  qed
  then show "\<forall>b \<in> set (bytes_of (hex_EncodeToString bs)). b < 0x80"
    by (auto simp: bytes_of_def hex_EncodeToString_def hex_digit_ascii)
qed

text \<open>
  How the service reads a raw request: a body with a source-type header is the payload itself,
  any other is an envelope whose payload is hexadecimal or text.
\<close>

definition envelope_payload :: "raw_envelope \<Rightarrow> u8 list option" where
  "envelope_payload env =
     (if re_encoding env = ''hex'' then hex_DecodeString (re_payload env) else Some (bytes_of (re_payload env)))"

definition receive_raw :: "(u8 list \<Rightarrow> raw_envelope option) \<Rightarrow> job \<Rightarrow> u8 list option" where
  "receive_raw unmarshal j =
     (if jb_headers j ''X-Gps-Source-Type'' \<noteq> None then Some (jb_body j)
      else Option.bind (unmarshal (jb_body j)) envelope_payload)"

text \<open>
  What is relied on in the JSON packages: an envelope whose payload is valid UTF-8 has an
  encoding, and decoding it gives back the payload and its encoding (other strings may come
  back with replacement characters).
\<close>

definition envelope_law :: "(raw_envelope \<Rightarrow> u8 list option) \<Rightarrow> (u8 list \<Rightarrow> raw_envelope option) \<Rightarrow> bool" where
  "envelope_law marshal unmarshal \<longleftrightarrow>
     (\<forall>env. utf8_Valid (bytes_of (re_payload env)) \<longrightarrow>
        (\<exists>body env'. marshal env = Some body \<and> unmarshal body = Some env' \<and>
           re_payload env' = re_payload env \<and> re_encoding env' = re_encoding env))"

lemma raw_encoding_ok:
  "raw_encoding enc isJSON payload = (c, p) \<Longrightarrow>
    utf8_Valid (bytes_of p) \<and> (if c = ''hex'' then hex_DecodeString p else Some (bytes_of p)) = Some payload"
  by (auto simp: raw_encoding_def hex_round_trip utf8_Valid_hex split: if_splits)

lemma buildRawRequest_received:
  assumes "envelope_law marshal unmarshal" and "TrimSpace (mt_SourceType meta) \<noteq> []"
  shows "\<exists>body headers. buildRawRequest marshal now payload meta = Some (body, headers) \<and>
    receive_raw unmarshal \<lparr>jb_kind = k, jb_url = u, jb_body = body, jb_headers = headers\<rparr> = Some payload"
proof -
  have env: "\<exists>body. marshal e = Some body \<and> Option.bind (unmarshal body) envelope_payload = Some payload"
    if e: "utf8_Valid (bytes_of (re_payload e))" "envelope_payload e = Some payload" for e
  proof -
    obtain body e' where "marshal e = Some body" "unmarshal body = Some e'" "re_payload e' = re_payload e"
      "re_encoding e' = re_encoding e"
      using assms(1) e(1) by (auto simp: envelope_law_def)
    then show ?thesis using e(2) by (simp add: envelope_payload_def split: if_splits)
  qed
  let ?enc = "lower_for_ascii (TrimSpace (mt_Encoding meta))" and ?source = "TrimSpace (mt_SourceType meta)"
  let ?json = "opens_json (TrimLeft payload blank_bytes) \<and> utf8_Valid payload"
  obtain c p where r: "raw_encoding ?enc ?json payload = (c, p)" by fastforce
  show ?thesis
  proof (cases "?json \<and> (?enc = [] \<or> ?enc = ''json'') \<and> ?source \<noteq> ''teltonika''")
    case True
    then show ?thesis using assms(2) by (simp add: buildRawRequest_def receive_raw_def Let_def)
  next
    case False
    let ?env = "\<lparr>re_payload = p, re_encoding = c, re_source_type = ?source,
        re_received_at = RFC3339Nano (case mt_ReceivedAt meta of None \<Rightarrow> now | Some t \<Rightarrow> t),
        re_imei = (if TrimSpace (mt_IMEI meta) \<noteq> [] then Some (TrimSpace (mt_IMEI meta)) else None)\<rparr>"
    have "envelope_payload ?env = Some payload" "utf8_Valid (bytes_of (re_payload ?env))"
      using raw_encoding_ok [OF r] by (simp_all add: envelope_payload_def split: if_splits)
    then obtain body where "marshal ?env = Some body" "Option.bind (unmarshal body) envelope_payload = Some payload"
      using env by blast
    moreover from this have "buildRawRequest marshal now payload meta = Some (body, json_header)"
      using False assms(2) r unfolding buildRawRequest_def Let_def by (simp only: if_False case_prod_conv) simp
    ultimately show ?thesis by (simp add: receive_raw_def json_header_def)
  qed
qed

lemma ForwardRaw_received:
  assumes "envelope_law marshal unmarshal" and "TrimSpace (mt_SourceType meta) \<noteq> []" and "payload \<noteq> []"
    and "TrimSpace (fc_RawURL (fw_cfg f)) \<noteq> []" and "length (queued (fw_ch f)) < bufsize (fw_ch f)"
  shows "\<exists>j. ForwardRaw marshal ans now payload meta f =
      f\<lparr>fw_ch := (fw_ch f)\<lparr>queued := queued (fw_ch f) @ [j]\<rparr>\<rparr> \<and>
    jb_url j = fc_RawURL (fw_cfg f) \<and> receive_raw unmarshal j = Some payload"
proof -
  obtain body headers where b: "buildRawRequest marshal now payload meta = Some (body, headers)"
    "receive_raw unmarshal \<lparr>jb_kind = kindRaw, jb_url = fc_RawURL (fw_cfg f), jb_body = body, jb_headers = headers\<rparr> = Some payload"
    using buildRawRequest_received [OF assms(1,2)] by blast
  show ?thesis
    by (rule exI [of _ "\<lparr>jb_kind = kindRaw, jb_url = fc_RawURL (fw_cfg f), jb_body = body, jb_headers = headers\<rparr>"])
       (use assms(3-5) b in \<open>simp add: ForwardRaw_def enqueue_job_def try_send_def\<close>)
qed

lemma sources_not_blank:
  "TrimSpace ''teltonika'' \<noteq> []" "TrimSpace ''hooshnic'' \<noteq> []" "TrimSpace ''http'' \<noteq> []"
  by (simp_all add: TrimSpace_def space_strings_list trim_seqs.simps HasPrefix_def)

lemma classify_not_blank: "TrimSpace (fst (classify_body body contentType)) \<noteq> []"
  by (simp add: classify_body_def Let_def sources_not_blank)

text \<open>
  The mirror loses nothing of a payload: with room in its buffer it appends one job to the raw
  URL, and what the service reads from that request, directly or by decoding the envelope, is the
  HTTP body or the AVL frame byte for byte, valid UTF-8 or not, whatever the content type says.
\<close>

theorem mirrored_payload_received:
  assumes "envelope_law marshal unmarshal" and "payload \<noteq> []"
    and "TrimSpace (fc_RawURL (fw_cfg f)) \<noteq> []" and "length (queued (fw_ch f)) < bufsize (fw_ch f)"
    and "f' \<in> {ForwardHTTPBody marshal ans now payload imei contentType f, ForwardTeltonikaAVL marshal ans now imei payload f}"
  shows "\<exists>j. f' = f\<lparr>fw_ch := (fw_ch f)\<lparr>queued := queued (fw_ch f) @ [j]\<rparr>\<rparr> \<and>
    jb_url j = fc_RawURL (fw_cfg f) \<and> receive_raw unmarshal j = Some payload"
proof -
  note fr = ForwardRaw_received [OF assms(1) _ assms(2-4)]
  consider "f' = ForwardHTTPBody marshal ans now payload imei contentType f"
    | "f' = ForwardTeltonikaAVL marshal ans now imei payload f" using assms(5) by blast
  then show ?thesis
  proof cases
    case 1
    show ?thesis using assms(2) fr classify_not_blank [of payload contentType]
      by (simp add: 1 ForwardHTTPBody_def case_prod_beta)
  next
    case 2
    show ?thesis using assms(2) fr sources_not_blank(1) by (simp add: 2 ForwardTeltonikaAVL_def)
  qed
qed

definition plain_marshal :: "raw_envelope \<Rightarrow> u8 list option" where
  "plain_marshal env = Some (replicate (length (re_payload env)) 1 @ 0 # bytes_of (re_payload env) @ bytes_of (re_encoding env))"

definition plain_unmarshal :: "u8 list \<Rightarrow> raw_envelope option" where
  "plain_unmarshal bs = (let n = length (takeWhile (\<lambda>b. b = 1) bs); r = drop (Suc n) bs in
     Some \<lparr>re_payload = string_of (take n r), re_encoding = string_of (drop n r), re_source_type = [], re_received_at = [],
       re_imei = None\<rparr>)"

lemma plain_law: "envelope_law plain_marshal plain_unmarshal"
proof -
  have t: "takeWhile (\<lambda>b. b = 1) (replicate n 1 @ (0 :: u8) # r) = replicate n 1" for n r
    by (induction n) simp_all
  have "plain_unmarshal (replicate (length p) 1 @ 0 # bytes_of p @ bytes_of e) =
      Some \<lparr>re_payload = p, re_encoding = e, re_source_type = [], re_received_at = [], re_imei = None\<rparr>" for p e
    by (simp add: plain_unmarshal_def t)
  then show ?thesis by (simp add: envelope_law_def plain_marshal_def)
qed

definition sample_forwarder :: Forwarder where
  "sample_forwarder = \<lparr>fw_cfg = \<lparr>fc_Enabled = True, fc_AuthToken = ''t'', fc_RawURL = ''http://m/'', fc_ParsedURL = [],
     fc_BufferSize = 1, fc_SpillDir = ''d'', fc_Timeout = Second, fc_Workers = 1\<rparr>, fw_ch = make_chan 1, fw_done = False,
     fw_files = Map.empty\<rparr>"

theorem mirrored_payload_received_witness:
  "\<exists>j. queued (fw_ch (ForwardHTTPBody plain_marshal WriteDone \<lparr>t_sec = 0, t_nsec = 0\<rparr> [0xFF, 0x00] ''1'' [] sample_forwarder)) = [j] \<and>
     jb_url j = ''http://m/'' \<and> receive_raw plain_unmarshal j = Some [0xFF, 0x00]"
proof -
  let ?f = "ForwardHTTPBody plain_marshal WriteDone \<lparr>t_sec = 0, t_nsec = 0\<rparr> [0xFF, 0x00] ''1'' [] sample_forwarder"
  have "TrimSpace ''http://m/'' \<noteq> []" by (simp add: TrimSpace_def space_strings_list trim_seqs.simps HasPrefix_def)
  then have "\<exists>j. ?f = sample_forwarder\<lparr>fw_ch := (fw_ch sample_forwarder)\<lparr>queued := queued (fw_ch sample_forwarder) @ [j]\<rparr>\<rparr> \<and>
      jb_url j = fc_RawURL (fw_cfg sample_forwarder) \<and> receive_raw plain_unmarshal j = Some [0xFF, 0x00]"
    by (intro mirrored_payload_received [OF plain_law, where ans = WriteDone and now = "\<lparr>t_sec = 0, t_nsec = 0\<rparr>" and imei = "''1''" and contentType = "[]"])
       (simp_all add: sample_forwarder_def make_chan_def)
  then show ?thesis by (auto simp: sample_forwarder_def make_chan_def)
qed

section \<open>The workers\<close>

text \<open>
  \<open>Start\<close>, \<open>Close\<close> and the workers as steps: callers offer jobs, a worker takes a job, and
  finishes its delivery; after \<open>Close\<close> a worker that finds the channel empty ends.  A wait is cut
  only when the forwarder is closed.  The lists of offered, delivered, given-up and directly
  spilled jobs are the history.
\<close>

record mirror_system =
  ms_fw :: Forwarder
  ms_live :: nat
  ms_busy :: "job list"
  ms_offered :: "job list"
  ms_overflow :: "job list"
  ms_delivered :: "job list"
  ms_given_up :: "job list"

definition Start_forwarder :: "Forwarder \<Rightarrow> mirror_system" where
  "Start_forwarder f = \<lparr>ms_fw = f, ms_live = nat (fc_Workers (fw_cfg f)), ms_busy = [], ms_offered = [], ms_overflow = [],
     ms_delivered = [], ms_given_up = []\<rparr>"

inductive mirror_step :: "mirror_system \<Rightarrow> mirror_system \<Rightarrow> bool" where
  offer: "mirror_step s (s\<lparr>ms_fw := enqueue_job ans now j (ms_fw s), ms_offered := ms_offered s @ [j],
      ms_overflow := ms_overflow s @ (if fst (try_send j (fw_ch (ms_fw s))) then [] else [j])\<rparr>)"
| take: "length (ms_busy s) < ms_live s \<Longrightarrow> try_recv (fw_ch (ms_fw s)) = Some (j, ch) \<Longrightarrow>
    mirror_step s (s\<lparr>ms_fw := (ms_fw s)\<lparr>fw_ch := ch\<rparr>, ms_busy := ms_busy s @ [j]\<rparr>)"
| finish: "j \<in> set (ms_busy s) \<Longrightarrow> (\<forall>n. dw_closing w n \<longrightarrow> fw_done (ms_fw s)) \<Longrightarrow>
    deliver_job w ans now j (ms_fw s) = (out, f) \<Longrightarrow>
    mirror_step s (s\<lparr>ms_fw := f, ms_busy := remove1 j (ms_busy s),
      ms_delivered := ms_delivered s @ (if out = Delivered then [j] else []),
      ms_given_up := ms_given_up s @ (if out = GivenUp then [j] else [])\<rparr>)"
| close: "\<not> fw_done (ms_fw s) \<Longrightarrow> mirror_step s (s\<lparr>ms_fw := (ms_fw s)\<lparr>fw_done := True\<rparr>\<rparr>)"
| leave: "fw_done (ms_fw s) \<Longrightarrow> try_recv (fw_ch (ms_fw s)) = None \<Longrightarrow> length (ms_busy s) < ms_live s \<Longrightarrow>
    mirror_step s (s\<lparr>ms_live := ms_live s - 1\<rparr>)"

definition mirror_balance :: "mirror_system \<Rightarrow> bool" where
  "mirror_balance s \<longleftrightarrow> length (ms_busy s) \<le> ms_live s \<and>
     mset (ms_offered s) = mset (queued (fw_ch (ms_fw s))) + mset (ms_busy s) + mset (ms_overflow s) +
       mset (ms_delivered s) + mset (ms_given_up s)"

lemma fw_ch_enqueue_job: "fw_ch (enqueue_job ans now j f) = snd (try_send j (fw_ch f))"
  by (auto simp: enqueue_job_def try_send_def)

lemma deliver_job_out: "deliver_job w ans now j f = (out, f') \<Longrightarrow> out \<in> {Delivered, GivenUp} \<and> fw_ch f' = fw_ch f"
  using mirror_delivery [of w] by (auto simp: deliver_job_def Let_def split: if_splits)

text \<open>Every step keeps the balance: an offered job is waiting, in delivery, or at exactly one of its ends.\<close>

lemma mirror_balance_step: "mirror_step s t \<Longrightarrow> mirror_balance s \<Longrightarrow> mirror_balance t"
proof (induction rule: mirror_step.induct)
  case (offer s ans now j)
  then show ?case by (simp add: mirror_balance_def fw_ch_enqueue_job ch.contents_send)
next
  case (take s j ch)
  then show ?case by (simp add: mirror_balance_def ch.recv_Some)
next
  case (finish j s w ans now out f)
  then have "mset (ms_busy s) = add_mset j (mset (remove1 j (ms_busy s)))" by simp
  moreover have "out \<in> {Delivered, GivenUp} \<and> fw_ch f = fw_ch (ms_fw s)" using deliver_job_out finish.hyps(3) by blast
  ultimately show ?case using finish by (auto simp: mirror_balance_def length_remove1)
qed (auto simp: mirror_balance_def)

interpretation mirror: invariant_system "\<lambda>s. \<exists>f. s = Start_forwarder f \<and> queued (fw_ch f) = []" mirror_step mirror_balance
  by unfold_locales (force simp: Start_forwarder_def mirror_balance_def, blast intro: mirror_balance_step)

lemma mirror_conserves:
  assumes "reachable (\<lambda>s. \<exists>f. s = Start_forwarder f \<and> queued (fw_ch f) = []) mirror_step s"
  shows "mset (ms_offered s) = mset (queued (fw_ch (ms_fw s))) + mset (ms_busy s) + mset (ms_overflow s) +
      mset (ms_delivered s) + mset (ms_given_up s)"
  using mirror.reachable_inv [OF assms] by (simp add: mirror_balance_def)

end
