(* ===== verification/Api_Handler.thy ===== *)
theory Api_Handler
  imports Redis_Queue Request_Tracker Teltonika_Parser Hooshnics_Forwarder "HOL-Library.Signed_Division"
begin

text \<open>
  The HTTP handlers (\<open>internal/api/handler.go\<close>): receiving GPS data with backpressure, health, the
  monitoring of tracked requests, and the asynchronous broadcaster.  Requests and responses are
  records; the JSON encoders, the parser's arguments, the clock and the random numbers are an
  environment.
\<close>

section \<open>Requests and responses\<close>

text \<open>
  Headers are stored under their canonical names, and looked up by canonical name: the first
  letter and every letter after a hyphen in upper case, the others in lower case.  The body is
  \<open>None\<close> when reading it fails.
\<close>

record request =
  rq_method :: string
  rq_path :: string
  rq_headers :: "string \<rightharpoonup> string"
  rq_query :: "string \<rightharpoonup> string"
  rq_param_id :: string
  rq_body :: "u8 list option"
  rq_clientIP :: string

definition upper :: "char \<Rightarrow> char" where
  "upper c = (let n = of_char c :: nat in if 97 \<le> n \<and> n \<le> 122 then char_of (n - 32) else c)"

fun canonical_header :: "bool \<Rightarrow> string \<Rightarrow> string" where
  "canonical_header up [] = []"
| "canonical_header up (c # cs) = (if up then upper c else lower c) # canonical_header (c = CHR ''-'') cs"

definition GetHeader :: "request \<Rightarrow> string \<Rightarrow> string" where
  "GetHeader rq name = (case rq_headers rq (canonical_header True name) of Some v \<Rightarrow> v | None \<Rightarrow> [])"

definition Query :: "request \<Rightarrow> string \<Rightarrow> string" where
  "Query rq key = (case rq_query rq key of Some v \<Rightarrow> v | None \<Rightarrow> [])"

datatype prepare_error = ImeiHeaderRequired | TeltonikaParse parse_error | NoTeltonikaRecords | EnvelopeMarshal

datatype api_error =
    BodyUnreadable | BodyEmpty | BodyInvalid prepare_error | QueueIsFull | EnqueueError
  | TrackingNotEnabled | RequestNotFound
  | StorageNotEnabled | DateRequired | DateInvalid | ImeiRequired | ImeiInvalid | QueryError
  | TooManyRequests | ContentTypeInvalid | InternalError

datatype response_body =
    NoBody
  | ErrorBody api_error
  | ErrorWithID api_error string
  | QueuedBody string
  | HealthyBody
  | ReadyBody
  | RequestBody RequestInfo
  | RequestsBody "RequestInfo list" nat
  | StatisticsBody statistics
  | FollowedBy response_body response_body

record 'b response =
  rs_status :: int
  rs_headers :: "string \<rightharpoonup> string"
  rs_body :: 'b

definition reply :: "int \<Rightarrow> 'b \<Rightarrow> 'b response" where
  "reply status body = \<lparr>rs_status = status, rs_headers = Map.empty, rs_body = body\<rparr>"

section \<open>State\<close>

record Handler =
  hd_queue :: RedisQueue
  hd_backpressureLimit :: int
  hd_tzOffset :: int
  hd_cachedDepth :: int

definition NewHandler :: "RedisQueue \<Rightarrow> int \<Rightarrow> int \<Rightarrow> Handler" where
  "NewHandler q backpressureLimit tz =
     \<lparr>hd_queue = q, hd_backpressureLimit = backpressureLimit, hd_tzOffset = tz, hd_cachedDepth = 0\<rparr>"

text \<open>
  What the handlers share: Redis, the global tracker when it is set, the mirror (a disabled mirror
  is a nil forwarder, which ignores every call), and the outcomes told to the metrics.
\<close>

record 'r api_state =
  as_handler :: Handler
  as_redis :: 'r
  as_tracker :: "RequestTracker option"
  as_mirror :: "Forwarder option"
  as_enqueues :: "bool list"

record 'r api_env =
  ae_ops :: "'r redis_ops"
  ae_now :: Time
  ae_rand :: float64
  ae_order :: "string list"
  ae_order2 :: "string list"
  ae_unmarshal_list :: "string \<Rightarrow> string list option"
  ae_unmarshal_envelope :: "u8 list \<Rightarrow> teltonikaEnvelope option"
  ae_marshal_envelope :: "teltonikaEnvelope \<Rightarrow> u8 list option"
  ae_marshal_raw :: "raw_envelope \<Rightarrow> u8 list option"
  ae_sort :: "ParsedGPSData sorter"
  ae_spare :: "u8 list \<Rightarrow> u8 list"
  ae_spill :: spill_answer
  ae_prepare_text :: "prepare_error \<Rightarrow> string"
  ae_enqueue_text :: "queue_error \<Rightarrow> string"

section \<open>Receiving\<close>

fun firstNonEmpty :: "string list \<Rightarrow> string" where
  "firstNonEmpty [] = []"
| "firstNonEmpty (v # values) = (if TrimSpace v \<noteq> [] then TrimSpace v else firstNonEmpty values)"

definition prepareBodyForQueue :: "'r api_env \<Rightarrow> int \<Rightarrow> request \<Rightarrow> u8 list \<Rightarrow> (prepare_error, u8 list) result" where
  "prepareBodyForQueue e tzOffset rq body =
     (let contentType = GetHeader rq ''Content-Type'' in
      if \<not> HasPrefix contentType ''application/octet-stream'' then Ok body
      else let imei = GetHeader rq ''X-Device-IMEI'' in
        if imei = [] then Err ImeiHeaderRequired
        else andThen (mapErr TeltonikaParse (ParseWithIMEI (ae_unmarshal_list e) (ae_unmarshal_envelope e) (ae_sort e)
               \<lparr>elems = body, spare = ae_spare e body\<rparr> imei tzOffset)) (\<lambda>parseResult.
             if length (Records parseResult) = 0 then Err NoTeltonikaRecords
             else case ParseTeltonikaEnvelope (ae_marshal_envelope e) imei (Records parseResult) of
               None \<Rightarrow> Err EnvelopeMarshal
             | Some bs \<Rightarrow> Ok bs))"

definition backpressure_limit :: "Handler \<Rightarrow> int" where
  "backpressure_limit h =
     (if hd_backpressureLimit h \<le> 0 then sint (word_of_int (GetMaxLen (hd_queue h) * 9) :: 64 word) sdiv 10
      else hd_backpressureLimit h)"

definition track :: "string \<Rightarrow> (RequestTracker \<Rightarrow> RequestTracker) \<Rightarrow> 'r api_state \<Rightarrow> 'r api_state" where
  "track requestID f st =
     (if requestID \<noteq> [] then st\<lparr>as_tracker := map_option f (as_tracker st)\<rparr> else st)"

definition record_enqueue :: "bool \<Rightarrow> 'r api_state \<Rightarrow> 'r api_state" where
  "record_enqueue success st = st\<lparr>as_enqueues := as_enqueues st @ [success]\<rparr>"

text \<open>The second half: the prepared body meets the limit and the queue.\<close>

definition enqueue_body ::
  "'r api_env \<Rightarrow> request \<Rightarrow> u8 list \<Rightarrow> u8 list \<Rightarrow> 'r api_state \<Rightarrow> response_body response \<times> 'r api_state" where
  "enqueue_body e rq rawForMirror body st =
     (let h = as_handler st; requestID = GetHeader rq ''X-Request-ID''; now = nano (ae_now e);
          limit = backpressure_limit h
      in if limit > 0 \<and> hd_cachedDepth h \<ge> limit
         then (\<lparr>rs_status = 503, rs_headers = [''Retry-After'' \<mapsto> Itoa 5], rs_body = ErrorBody QueueIsFull\<rparr>,
               track requestID (UpdateStatus now requestID StatusFailed ''Queue full (backpressure)'') (record_enqueue False st))
         else case EnqueueWithDepth (ae_ops e) (hd_queue h) (t_sec (ae_now e)) body (as_redis st) of
             (Ok (messageID, depth), r) \<Rightarrow>
               (let st1 = record_enqueue True (st\<lparr>as_redis := r, as_handler := h\<lparr>hd_cachedDepth := depth\<rparr>\<rparr>);
                    st2 = track requestID (UpdateStatus now requestID StatusQueued ''Enqueued successfully'') st1;
                    mirrorIMEI = firstNonEmpty [GetHeader rq ''X-Device-Imei'', GetHeader rq ''X-Device-IMEI'', GetHeader rq ''X-Gps-Imei''];
                    st3 = st2\<lparr>as_mirror := map_option (ForwardHTTPBody (ae_marshal_raw e) (ae_spill e) (ae_now e)
                            rawForMirror mirrorIMEI (GetHeader rq ''Content-Type'')) (as_mirror st2)\<rparr>
                in (reply 200 (QueuedBody messageID), st3))
           | (Err err, r) \<Rightarrow>
               (reply 503 (ErrorBody EnqueueError),
                track requestID (UpdateError requestID (ae_enqueue_text e err))
                  (track requestID (UpdateStatus now requestID StatusFailed ''Failed to enqueue'')
                    (record_enqueue False (st\<lparr>as_redis := r\<rparr>))))
           | (Panic, r) \<Rightarrow> (reply 503 (ErrorBody EnqueueError), st\<lparr>as_redis := r\<rparr>))"

text \<open>The whole handler; \<open>Panic\<close> when the parser panics.\<close>

definition ReceiveGPSData ::
  "'r api_env \<Rightarrow> request \<Rightarrow> 'r api_state \<Rightarrow> (unit, response_body response) result \<times> 'r api_state" where
  "ReceiveGPSData e rq st =
     (case rq_body rq of
        None \<Rightarrow> (Ok (reply 400 (ErrorBody BodyUnreadable)), st)
      | Some body \<Rightarrow>
          (let requestID = GetHeader rq ''X-Request-ID''; now = nano (ae_now e);
               st1 = track requestID (TrackRequest (ae_rand e) now (ae_order e) (ae_order2 e) requestID (rq_clientIP rq) body) st
           in if length body = 0
              then (Ok (reply 400 (ErrorBody BodyEmpty)),
                    track requestID (UpdateStatus now requestID StatusFailed ''Empty request body'') st1)
              else case prepareBodyForQueue e (hd_tzOffset (as_handler st1)) rq body of
                  Panic \<Rightarrow> (Panic, st1)
                | Err err \<Rightarrow> (Ok (reply 400 (ErrorBody (BodyInvalid err))),
                    track requestID (UpdateStatus now requestID StatusFailed (ae_prepare_text e err)) st1)
                | Ok prepared \<Rightarrow> (let (r, st2) = enqueue_body e rq body prepared st1 in (Ok r, st2))))"

section \<open>Health and monitoring\<close>

definition Health :: "request \<Rightarrow> response_body response" where
  "Health rq = (if rq_method rq = ''HEAD'' then reply 200 NoBody else reply 200 HealthyBody)"

definition Ready :: "request \<Rightarrow> response_body response" where
  "Ready rq = (if rq_method rq = ''HEAD'' then reply 200 NoBody else reply 200 ReadyBody)"

definition GetRequestDetails :: "request \<Rightarrow> RequestTracker option \<Rightarrow> response_body response" where
  "GetRequestDetails rq tracker =
     (case tracker of
        None \<Rightarrow> reply 503 (ErrorBody TrackingNotEnabled)
      | Some rt \<Rightarrow>
          (case GetRequest (rq_param_id rq) rt of
             None \<Rightarrow> reply 404 (ErrorBody RequestNotFound)
           | Some req \<Rightarrow> reply 200 (RequestBody req)))"

definition status_of :: "string \<Rightarrow> RequestStatus option" where
  "status_of s = map_of [(''received'', StatusReceived), (''queued'', StatusQueued), (''processing'', StatusProcessing),
     (''sending'', StatusSending), (''retrying'', StatusRetrying), (''success'', StatusSuccess), (''failed'', StatusFailed)] s"

text \<open>A status that is no status of a request matches none.\<close>

definition ListRequests :: "string list \<Rightarrow> request \<Rightarrow> RequestTracker option \<Rightarrow> response_body response" where
  "ListRequests order rq tracker =
     (case tracker of
        None \<Rightarrow> reply 503 (ErrorBody TrackingNotEnabled)
      | Some rt \<Rightarrow>
          (let status = Query rq ''status'';
               requests = (if status \<noteq> []
                 then (case status_of status of Some s \<Rightarrow> GetRequestsByStatus order s rt | None \<Rightarrow> [])
                 else GetAllRequests order rt)
           in reply 200 (RequestsBody requests (length requests))))"

definition GetStatistics_handler :: "RequestTracker option \<Rightarrow> response_body response" where
  "GetStatistics_handler tracker =
     (case tracker of
        None \<Rightarrow> reply 503 (ErrorBody TrackingNotEnabled)
      | Some rt \<Rightarrow> reply 200 (StatisticsBody (GetStatistics rt)))"

definition GetCachedDepth :: "Handler \<Rightarrow> int" where
  "GetCachedDepth h = hd_cachedDepth h"

section \<open>The broadcaster\<close>

record 'p broadcaster =
  ab_ch :: "(string \<times> 'p) chan"
  ab_done :: bool
  ab_emitted :: "(string \<times> 'p) list"

definition NewAsyncBroadcaster :: "bool \<Rightarrow> nat \<Rightarrow> 'p broadcaster option" where
  "NewAsyncBroadcaster emitter bufferSize =
     (if \<not> emitter then None else Some \<lparr>ab_ch = make_chan bufferSize, ab_done = False, ab_emitted = []\<rparr>)"

definition Emit :: "string \<Rightarrow> 'p list \<Rightarrow> 'p broadcaster \<Rightarrow> 'p broadcaster" where
  "Emit event args ab =
     (case args of
        [] \<Rightarrow> ab
      | payload # _ \<Rightarrow> ab\<lparr>ab_ch := snd (try_send (event, payload) (ab_ch ab))\<rparr>)"

text \<open>
  One round of the worker: the next message is emitted, and an error of the emitter is only logged.
  After \<open>Close\<close> the worker may still take messages until it sees the closed channel.
\<close>

definition broadcast_round :: "'p broadcaster \<Rightarrow> 'p broadcaster option" where
  "broadcast_round ab =
     (case try_recv (ab_ch ab) of
        None \<Rightarrow> None
      | Some (msg, ch) \<Rightarrow> Some (ab\<lparr>ab_ch := ch, ab_emitted := ab_emitted ab @ [msg]\<rparr>))"

definition Close_broadcaster :: "'p broadcaster \<Rightarrow> 'p broadcaster" where
  "Close_broadcaster ab = ab\<lparr>ab_done := True\<rparr>"

lemma Emit_order:
  "ab_emitted (Emit event args ab) = ab_emitted ab \<and>
    (\<exists>new. queued (ab_ch (Emit event args ab)) = queued (ab_ch ab) @ new \<and> length new \<le> 1)"
  by (cases args) (simp_all add: Emit_def ch.contents_send)

end
