(* ===== verification/Metrics.thy ===== *)
theory Metrics
  imports Sanitizer Go_Base Go_Float
begin

text \<open>
  The metrics (\<open>internal/metrics/metrics.go\<close>): the collectors that are registered at the start, and
  the functions that count.  The rules of the Prometheus client are written out: registering a
  name twice, buckets out of order, a wrong number of label values, a label value that is not
  UTF-8 and a counter that would go down are panics.
\<close>

section \<open>Collectors\<close>

datatype metric_kind = Counter | Gauge | Histogram "rat list"

record metric_desc =
  md_name :: string
  md_kind :: metric_kind
  md_labels :: "string list"

definition desc :: "string \<Rightarrow> metric_kind \<Rightarrow> string list \<Rightarrow> metric_desc" where
  "desc name kind labels = \<lparr>md_name = name, md_kind = kind, md_labels = labels\<rparr>"

definition DefBuckets :: "rat list" where
  "DefBuckets = [5 / 1000, 1 / 100, 25 / 1000, 5 / 100, 1 / 10, 25 / 100, 5 / 10, 1, 25 / 10, 5, 10]"

definition metric_descs :: "metric_desc list" where
  "metric_descs =
    [desc ''gps_receiver_http_requests_total'' Counter [''method'', ''endpoint'', ''status''],
     desc ''gps_receiver_http_request_duration_seconds'' (Histogram DefBuckets) [''method'', ''endpoint'', ''status''],
     desc ''gps_receiver_http_request_size_bytes'' (Histogram [100, 1000, 10000, 100000, 1000000]) [''method'', ''endpoint''],
     desc ''gps_receiver_http_response_size_bytes'' (Histogram [100, 1000, 10000, 100000]) [''method'', ''endpoint''],
     desc ''gps_receiver_http_active_requests'' Gauge [],
     desc ''gps_receiver_queue_depth'' Gauge [],
     desc ''gps_receiver_queue_enqueue_total'' Counter [],
     desc ''gps_receiver_queue_enqueue_errors_total'' Counter [],
     desc ''gps_receiver_queue_processed_total'' Counter [],
     desc ''gps_receiver_queue_processing_duration_seconds'' (Histogram [1 / 10, 5 / 10, 1, 2, 5, 10, 30, 60]) [],
     desc ''gps_receiver_sender_requests_total'' Counter [''server'', ''status''],
     desc ''gps_receiver_sender_request_duration_seconds'' (Histogram [1 / 10, 5 / 10, 1, 2, 5, 10, 30]) [''server''],
     desc ''gps_receiver_sender_retry_total'' Counter [''server'', ''attempt''],
     desc ''gps_receiver_sender_failed_total'' Counter [''server''],
     desc ''gps_receiver_failed_packets_total'' Counter [],
     desc ''gps_data_parse_total'' Counter [''status''],
     desc ''gps_data_parse_duration_seconds'' (Histogram [1 / 10000, 5 / 10000, 1 / 1000, 5 / 1000, 1 / 100, 5 / 100, 1 / 10]) [],
     desc ''gps_records_parsed_total'' Counter [],
     desc ''gps_data_dropped_total'' Counter [''reason''],
     desc ''gps_receiver_worker_pool_size'' Gauge [],
     desc ''gps_receiver_worker_active_count'' Gauge [],
     desc ''gps_receiver_worker_idle_count'' Gauge [],
     desc ''gps_receiver_rate_limit_hits_total'' Counter [''client_ip''],
     desc ''gps_receiver_stoppage_records_filtered_total'' Counter [],
     desc ''gps_receiver_filter_state_count'' Gauge []]"

type_synonym metric_key = "string \<times> string list"

text \<open>The values of counters and gauges, and what the histograms have observed.\<close>

record Metrics =
  mt_descs :: "metric_desc list"
  mt_values :: "metric_key \<Rightarrow> int"
  mt_observed :: "metric_key \<Rightarrow> float64 list"

definition register :: "metric_desc \<Rightarrow> string list \<Rightarrow> (unit, string list) result" where
  "register d names =
     (if md_name d \<in> set names \<or> (case md_kind d of Histogram bs \<Rightarrow> \<not> sorted_wrt (<) bs \<or> ''le'' \<in> set (md_labels d) | _ \<Rightarrow> False)
      then Panic else Ok (names @ [md_name d]))"

fun register_all :: "metric_desc list \<Rightarrow> string list \<Rightarrow> (unit, string list) result" where
  "register_all [] names = Ok names"
| "register_all (d # ds) names = andThen (register d names) (register_all ds)"

definition InitMetrics :: "string list \<Rightarrow> (unit, Metrics \<times> string list) result" where
  "InitMetrics names = andThen (register_all metric_descs names)
     (\<lambda>names'. Ok (\<lparr>mt_descs = metric_descs, mt_values = \<lambda>_. 0, mt_observed = \<lambda>_. []\<rparr>, names'))"

section \<open>Counting\<close>

definition WithLabelValues :: "string \<Rightarrow> string list \<Rightarrow> Metrics \<Rightarrow> (unit, metric_key) result" where
  "WithLabelValues name vals m =
     (case find (\<lambda>d. md_name d = name) (mt_descs m) of
        None \<Rightarrow> Panic
      | Some d \<Rightarrow> if length vals \<noteq> length (md_labels d) \<or> \<not> list_all (\<lambda>v. utf8_Valid (bytes_of v)) vals then Panic else Ok (name, vals))"

definition Add :: "string \<Rightarrow> string list \<Rightarrow> int \<Rightarrow> Metrics \<Rightarrow> (unit, Metrics) result" where
  "Add name vals n m = andThen (WithLabelValues name vals m) (\<lambda>k.
     if n < 0 then Panic else Ok (m\<lparr>mt_values := (mt_values m)(k := mt_values m k + n)\<rparr>))"

abbreviation Inc :: "string \<Rightarrow> string list \<Rightarrow> Metrics \<Rightarrow> (unit, Metrics) result" where
  "Inc name vals \<equiv> Add name vals 1"

definition SetGauge :: "string \<Rightarrow> (int \<Rightarrow> int) \<Rightarrow> Metrics \<Rightarrow> (unit, Metrics) result" where
  "SetGauge name f m = andThen (WithLabelValues name [] m) (\<lambda>k. Ok (m\<lparr>mt_values := (mt_values m)(k := f (mt_values m k))\<rparr>))"

definition Observe :: "string \<Rightarrow> string list \<Rightarrow> float64 \<Rightarrow> Metrics \<Rightarrow> (unit, Metrics) result" where
  "Observe name vals v m = andThen (WithLabelValues name vals m) (\<lambda>k.
     Ok (m\<lparr>mt_observed := (mt_observed m)(k := mt_observed m k @ [v])\<rparr>))"

definition RecordHTTPRequest :: "string \<Rightarrow> string \<Rightarrow> string \<Rightarrow> float64 \<Rightarrow> int \<Rightarrow> int \<Rightarrow> Metrics \<Rightarrow> (unit, Metrics) result" where
  "RecordHTTPRequest meth endpoint status seconds requestSize responseSize m =
     andThen (Inc ''gps_receiver_http_requests_total'' [meth, endpoint, status] m) (\<lambda>m.
     andThen (Observe ''gps_receiver_http_request_duration_seconds'' [meth, endpoint, status] seconds m) (\<lambda>m.
     andThen (Observe ''gps_receiver_http_request_size_bytes'' [meth, endpoint] (f_of_int requestSize) m) (\<lambda>m.
     Observe ''gps_receiver_http_response_size_bytes'' [meth, endpoint] (f_of_int responseSize) m)))"

definition RecordQueueEnqueue :: "bool \<Rightarrow> Metrics \<Rightarrow> (unit, Metrics) result" where
  "RecordQueueEnqueue success m =
     andThen (Inc ''gps_receiver_queue_enqueue_total'' [] m) (\<lambda>m.
     if \<not> success then Inc ''gps_receiver_queue_enqueue_errors_total'' [] m else Ok m)"

definition RecordQueueProcessing :: "float64 \<Rightarrow> Metrics \<Rightarrow> (unit, Metrics) result" where
  "RecordQueueProcessing seconds m =
     andThen (Inc ''gps_receiver_queue_processed_total'' [] m)
       (Observe ''gps_receiver_queue_processing_duration_seconds'' [] seconds)"

definition RecordSenderRequest :: "string \<Rightarrow> string \<Rightarrow> float64 \<Rightarrow> Metrics \<Rightarrow> (unit, Metrics) result" where
  "RecordSenderRequest server status seconds m =
     andThen (Inc ''gps_receiver_sender_requests_total'' [server, status] m)
       (Observe ''gps_receiver_sender_request_duration_seconds'' [server] seconds)"

text \<open>
  \<open>string(rune(attempt+'0'))\<close>: the UTF-8 encoding of the code point of the digit zero plus the
  attempt; what is no code point becomes U+FFFD.
\<close>

definition encode_rune :: "int \<Rightarrow> u8 list" where
  "encode_rune r =
     (if 0 \<le> r \<and> r < 0x80 then [word_of_int r]
      else if 0x80 \<le> r \<and> r < 0x800 then [word_of_int (0xC0 + r div 64), word_of_int (0x80 + r mod 64)]
      else if 0x800 \<le> r \<and> r < 0x10000 \<and> \<not> (0xD800 \<le> r \<and> r < 0xE000)
      then [word_of_int (0xE0 + r div 4096), word_of_int (0x80 + r div 64 mod 64), word_of_int (0x80 + r mod 64)]
      else if 0x10000 \<le> r \<and> r \<le> 0x10FFFF
      then [word_of_int (0xF0 + r div 262144), word_of_int (0x80 + r div 4096 mod 64), word_of_int (0x80 + r div 64 mod 64),
            word_of_int (0x80 + r mod 64)]
      else [0xEF, 0xBF, 0xBD])"

definition attempt_label :: "int \<Rightarrow> string" where
  "attempt_label attempt = string_of (encode_rune (attempt + 48))"

definition RecordSenderRetry :: "string \<Rightarrow> int \<Rightarrow> Metrics \<Rightarrow> (unit, Metrics) result" where
  "RecordSenderRetry server attempt = Inc ''gps_receiver_sender_retry_total'' [server, attempt_label attempt]"

definition RecordSenderFailure :: "string \<Rightarrow> Metrics \<Rightarrow> (unit, Metrics) result" where
  "RecordSenderFailure server m =
     andThen (Inc ''gps_receiver_sender_failed_total'' [server] m) (Inc ''gps_receiver_failed_packets_total'' [])"

definition RecordRateLimitHit :: "string \<Rightarrow> Metrics \<Rightarrow> (unit, Metrics) result" where
  "RecordRateLimitHit clientIP = Inc ''gps_receiver_rate_limit_hits_total'' [clientIP]"

definition UpdateQueueDepth :: "int \<Rightarrow> Metrics \<Rightarrow> (unit, Metrics) result" where
  "UpdateQueueDepth depth = SetGauge ''gps_receiver_queue_depth'' (\<lambda>_. depth)"

definition SetWorkerPoolSize :: "int \<Rightarrow> Metrics \<Rightarrow> (unit, Metrics) result" where
  "SetWorkerPoolSize poolSize = SetGauge ''gps_receiver_worker_pool_size'' (\<lambda>_. poolSize)"

definition InitWorkerCounts :: "int \<Rightarrow> Metrics \<Rightarrow> (unit, Metrics) result" where
  "InitWorkerCounts poolSize m =
     andThen (SetGauge ''gps_receiver_worker_pool_size'' (\<lambda>_. poolSize) m)
       (SetGauge ''gps_receiver_worker_idle_count'' (\<lambda>_. poolSize))"

definition IncActiveWorker :: "Metrics \<Rightarrow> (unit, Metrics) result" where
  "IncActiveWorker m =
     andThen (SetGauge ''gps_receiver_worker_active_count'' (\<lambda>v. v + 1) m)
       (SetGauge ''gps_receiver_worker_idle_count'' (\<lambda>v. v - 1))"

definition DecActiveWorker :: "Metrics \<Rightarrow> (unit, Metrics) result" where
  "DecActiveWorker m =
     andThen (SetGauge ''gps_receiver_worker_active_count'' (\<lambda>v. v - 1) m)
       (SetGauge ''gps_receiver_worker_idle_count'' (\<lambda>v. v + 1))"

definition RecordParseSuccess :: "float64 \<Rightarrow> int \<Rightarrow> Metrics \<Rightarrow> (unit, Metrics) result" where
  "RecordParseSuccess seconds recordCount m =
     andThen (Inc ''gps_data_parse_total'' [''success''] m) (\<lambda>m.
     andThen (Observe ''gps_data_parse_duration_seconds'' [] seconds m)
       (Add ''gps_records_parsed_total'' [] recordCount))"

definition RecordParseFailure :: "Metrics \<Rightarrow> (unit, Metrics) result" where
  "RecordParseFailure = Inc ''gps_data_parse_total'' [''failure'']"

definition RecordDataDropped :: "string \<Rightarrow> Metrics \<Rightarrow> (unit, Metrics) result" where
  "RecordDataDropped reason = Inc ''gps_data_dropped_total'' [reason]"

definition RecordStoppageFiltered :: "int \<Rightarrow> Metrics \<Rightarrow> (unit, Metrics) result" where
  "RecordStoppageFiltered count = Add ''gps_receiver_stoppage_records_filtered_total'' [] count"

definition UpdateFilterStateCount :: "int \<Rightarrow> Metrics \<Rightarrow> (unit, Metrics) result" where
  "UpdateFilterStateCount count = SetGauge ''gps_receiver_filter_state_count'' (\<lambda>_. count)"

section \<open>Sequences of events\<close>

datatype metric_event =
    HTTPRequest string string string float64 int int
  | QueueEnqueue bool
  | QueueProcessing float64
  | SenderRequest string string float64
  | SenderRetry string int
  | SenderFailure string
  | RateLimitHit string
  | QueueDepth int
  | PoolSize int
  | WorkerCounts int
  | MessageStarted
  | MessageFinished
  | ParseSuccess float64 int
  | ParseFailure
  | DataDropped string
  | StoppageFiltered int
  | FilterStateCount int

fun record_event :: "metric_event \<Rightarrow> Metrics \<Rightarrow> (unit, Metrics) result" where
  "record_event (HTTPRequest meth path status seconds reqSize respSize) = RecordHTTPRequest meth path status seconds reqSize respSize"
| "record_event (QueueEnqueue success) = RecordQueueEnqueue success"
| "record_event (QueueProcessing seconds) = RecordQueueProcessing seconds"
| "record_event (SenderRequest server status seconds) = RecordSenderRequest server status seconds"
| "record_event (SenderRetry server attempt) = RecordSenderRetry server attempt"
| "record_event (SenderFailure server) = RecordSenderFailure server"
| "record_event (RateLimitHit ip) = RecordRateLimitHit ip"
| "record_event (QueueDepth n) = UpdateQueueDepth n"
| "record_event (PoolSize n) = SetWorkerPoolSize n"
| "record_event (WorkerCounts n) = InitWorkerCounts n"
| "record_event MessageStarted = IncActiveWorker"
| "record_event MessageFinished = DecActiveWorker"
| "record_event (ParseSuccess seconds n) = RecordParseSuccess seconds n"
| "record_event ParseFailure = RecordParseFailure"
| "record_event (DataDropped reason) = RecordDataDropped reason"
| "record_event (StoppageFiltered n) = RecordStoppageFiltered n"
| "record_event (FilterStateCount n) = UpdateFilterStateCount n"

fun record_events :: "metric_event list \<Rightarrow> Metrics \<Rightarrow> (unit, Metrics) result" where
  "record_events [] m = Ok m"
| "record_events (e # es) m = andThen (record_event e m) (record_events es)"

text \<open>The events whose label values are UTF-8 and whose counts are not negative.\<close>

abbreviation utf8_label :: "string \<Rightarrow> bool" where
  "utf8_label s \<equiv> utf8_Valid (bytes_of s)"

fun event_ok :: "metric_event \<Rightarrow> bool" where
  "event_ok (HTTPRequest meth path status seconds reqSize respSize) \<longleftrightarrow> utf8_label meth \<and> utf8_label path \<and> utf8_label status"
| "event_ok (SenderRequest server status seconds) \<longleftrightarrow> utf8_label server \<and> utf8_label status"
| "event_ok (SenderRetry server attempt) \<longleftrightarrow> utf8_label server \<and> utf8_label (attempt_label attempt)"
| "event_ok (SenderFailure server) \<longleftrightarrow> utf8_label server"
| "event_ok (RateLimitHit ip) \<longleftrightarrow> utf8_label ip"
| "event_ok (ParseSuccess seconds n) \<longleftrightarrow> 0 \<le> n"
| "event_ok (DataDropped reason) \<longleftrightarrow> utf8_label reason"
| "event_ok (StoppageFiltered n) \<longleftrightarrow> 0 \<le> n"
| "event_ok _ \<longleftrightarrow> True"

fun inflight :: "metric_event list \<Rightarrow> int" where
  "inflight [] = 0"
| "inflight (e # es) = (if e = MessageStarted then 1 else if e = MessageFinished then - 1 else 0) + inflight es"

section \<open>Every collector is found\<close>

lemma metric_find:
  "find (\<lambda>d. md_name d = ''gps_receiver_http_requests_total'') metric_descs = Some (desc ''gps_receiver_http_requests_total'' Counter [''method'', ''endpoint'', ''status''])"
  "find (\<lambda>d. md_name d = ''gps_receiver_http_request_duration_seconds'') metric_descs = Some (desc ''gps_receiver_http_request_duration_seconds'' (Histogram DefBuckets) [''method'', ''endpoint'', ''status''])"
  "find (\<lambda>d. md_name d = ''gps_receiver_http_request_size_bytes'') metric_descs = Some (desc ''gps_receiver_http_request_size_bytes'' (Histogram [100, 1000, 10000, 100000, 1000000]) [''method'', ''endpoint''])"
  "find (\<lambda>d. md_name d = ''gps_receiver_http_response_size_bytes'') metric_descs = Some (desc ''gps_receiver_http_response_size_bytes'' (Histogram [100, 1000, 10000, 100000]) [''method'', ''endpoint''])"
  "find (\<lambda>d. md_name d = ''gps_receiver_http_active_requests'') metric_descs = Some (desc ''gps_receiver_http_active_requests'' Gauge [])"
  "find (\<lambda>d. md_name d = ''gps_receiver_queue_depth'') metric_descs = Some (desc ''gps_receiver_queue_depth'' Gauge [])"
  "find (\<lambda>d. md_name d = ''gps_receiver_queue_enqueue_total'') metric_descs = Some (desc ''gps_receiver_queue_enqueue_total'' Counter [])"
  "find (\<lambda>d. md_name d = ''gps_receiver_queue_enqueue_errors_total'') metric_descs = Some (desc ''gps_receiver_queue_enqueue_errors_total'' Counter [])"
  "find (\<lambda>d. md_name d = ''gps_receiver_queue_processed_total'') metric_descs = Some (desc ''gps_receiver_queue_processed_total'' Counter [])"
  "find (\<lambda>d. md_name d = ''gps_receiver_queue_processing_duration_seconds'') metric_descs = Some (desc ''gps_receiver_queue_processing_duration_seconds'' (Histogram [1 / 10, 5 / 10, 1, 2, 5, 10, 30, 60]) [])"
  "find (\<lambda>d. md_name d = ''gps_receiver_sender_requests_total'') metric_descs = Some (desc ''gps_receiver_sender_requests_total'' Counter [''server'', ''status''])"
  "find (\<lambda>d. md_name d = ''gps_receiver_sender_request_duration_seconds'') metric_descs = Some (desc ''gps_receiver_sender_request_duration_seconds'' (Histogram [1 / 10, 5 / 10, 1, 2, 5, 10, 30]) [''server''])"
  "find (\<lambda>d. md_name d = ''gps_receiver_sender_retry_total'') metric_descs = Some (desc ''gps_receiver_sender_retry_total'' Counter [''server'', ''attempt''])"
  "find (\<lambda>d. md_name d = ''gps_receiver_sender_failed_total'') metric_descs = Some (desc ''gps_receiver_sender_failed_total'' Counter [''server''])"
  "find (\<lambda>d. md_name d = ''gps_receiver_failed_packets_total'') metric_descs = Some (desc ''gps_receiver_failed_packets_total'' Counter [])"
  "find (\<lambda>d. md_name d = ''gps_data_parse_total'') metric_descs = Some (desc ''gps_data_parse_total'' Counter [''status''])"
  "find (\<lambda>d. md_name d = ''gps_data_parse_duration_seconds'') metric_descs = Some (desc ''gps_data_parse_duration_seconds'' (Histogram [1 / 10000, 5 / 10000, 1 / 1000, 5 / 1000, 1 / 100, 5 / 100, 1 / 10]) [])"
  "find (\<lambda>d. md_name d = ''gps_records_parsed_total'') metric_descs = Some (desc ''gps_records_parsed_total'' Counter [])"
  "find (\<lambda>d. md_name d = ''gps_data_dropped_total'') metric_descs = Some (desc ''gps_data_dropped_total'' Counter [''reason''])"
  "find (\<lambda>d. md_name d = ''gps_receiver_worker_pool_size'') metric_descs = Some (desc ''gps_receiver_worker_pool_size'' Gauge [])"
  "find (\<lambda>d. md_name d = ''gps_receiver_worker_active_count'') metric_descs = Some (desc ''gps_receiver_worker_active_count'' Gauge [])"
  "find (\<lambda>d. md_name d = ''gps_receiver_worker_idle_count'') metric_descs = Some (desc ''gps_receiver_worker_idle_count'' Gauge [])"
  "find (\<lambda>d. md_name d = ''gps_receiver_rate_limit_hits_total'') metric_descs = Some (desc ''gps_receiver_rate_limit_hits_total'' Counter [''client_ip''])"
  "find (\<lambda>d. md_name d = ''gps_receiver_stoppage_records_filtered_total'') metric_descs = Some (desc ''gps_receiver_stoppage_records_filtered_total'' Counter [])"
  "find (\<lambda>d. md_name d = ''gps_receiver_filter_state_count'') metric_descs = Some (desc ''gps_receiver_filter_state_count'' Gauge [])"
  by code_simp+

lemma metric_labels:
  assumes "mt_descs m = metric_descs"
  shows
    "WithLabelValues ''gps_receiver_http_requests_total'' vals m = (if length vals \<noteq> 3 \<or> \<not> list_all utf8_label vals then Panic else Ok (''gps_receiver_http_requests_total'', vals))"
    "WithLabelValues ''gps_receiver_http_request_duration_seconds'' vals m = (if length vals \<noteq> 3 \<or> \<not> list_all utf8_label vals then Panic else Ok (''gps_receiver_http_request_duration_seconds'', vals))"
    "WithLabelValues ''gps_receiver_http_request_size_bytes'' vals m = (if length vals \<noteq> 2 \<or> \<not> list_all utf8_label vals then Panic else Ok (''gps_receiver_http_request_size_bytes'', vals))"
    "WithLabelValues ''gps_receiver_http_response_size_bytes'' vals m = (if length vals \<noteq> 2 \<or> \<not> list_all utf8_label vals then Panic else Ok (''gps_receiver_http_response_size_bytes'', vals))"
    "WithLabelValues ''gps_receiver_http_active_requests'' vals m = (if length vals \<noteq> 0 \<or> \<not> list_all utf8_label vals then Panic else Ok (''gps_receiver_http_active_requests'', vals))"
    "WithLabelValues ''gps_receiver_queue_depth'' vals m = (if length vals \<noteq> 0 \<or> \<not> list_all utf8_label vals then Panic else Ok (''gps_receiver_queue_depth'', vals))"
    "WithLabelValues ''gps_receiver_queue_enqueue_total'' vals m = (if length vals \<noteq> 0 \<or> \<not> list_all utf8_label vals then Panic else Ok (''gps_receiver_queue_enqueue_total'', vals))"
    "WithLabelValues ''gps_receiver_queue_enqueue_errors_total'' vals m = (if length vals \<noteq> 0 \<or> \<not> list_all utf8_label vals then Panic else Ok (''gps_receiver_queue_enqueue_errors_total'', vals))"
    "WithLabelValues ''gps_receiver_queue_processed_total'' vals m = (if length vals \<noteq> 0 \<or> \<not> list_all utf8_label vals then Panic else Ok (''gps_receiver_queue_processed_total'', vals))"
    "WithLabelValues ''gps_receiver_queue_processing_duration_seconds'' vals m = (if length vals \<noteq> 0 \<or> \<not> list_all utf8_label vals then Panic else Ok (''gps_receiver_queue_processing_duration_seconds'', vals))"
    "WithLabelValues ''gps_receiver_sender_requests_total'' vals m = (if length vals \<noteq> 2 \<or> \<not> list_all utf8_label vals then Panic else Ok (''gps_receiver_sender_requests_total'', vals))"
    "WithLabelValues ''gps_receiver_sender_request_duration_seconds'' vals m = (if length vals \<noteq> 1 \<or> \<not> list_all utf8_label vals then Panic else Ok (''gps_receiver_sender_request_duration_seconds'', vals))"
    "WithLabelValues ''gps_receiver_sender_retry_total'' vals m = (if length vals \<noteq> 2 \<or> \<not> list_all utf8_label vals then Panic else Ok (''gps_receiver_sender_retry_total'', vals))"
    "WithLabelValues ''gps_receiver_sender_failed_total'' vals m = (if length vals \<noteq> 1 \<or> \<not> list_all utf8_label vals then Panic else Ok (''gps_receiver_sender_failed_total'', vals))"
    "WithLabelValues ''gps_receiver_failed_packets_total'' vals m = (if length vals \<noteq> 0 \<or> \<not> list_all utf8_label vals then Panic else Ok (''gps_receiver_failed_packets_total'', vals))"
    "WithLabelValues ''gps_data_parse_total'' vals m = (if length vals \<noteq> 1 \<or> \<not> list_all utf8_label vals then Panic else Ok (''gps_data_parse_total'', vals))"
    "WithLabelValues ''gps_data_parse_duration_seconds'' vals m = (if length vals \<noteq> 0 \<or> \<not> list_all utf8_label vals then Panic else Ok (''gps_data_parse_duration_seconds'', vals))"
    "WithLabelValues ''gps_records_parsed_total'' vals m = (if length vals \<noteq> 0 \<or> \<not> list_all utf8_label vals then Panic else Ok (''gps_records_parsed_total'', vals))"
    "WithLabelValues ''gps_data_dropped_total'' vals m = (if length vals \<noteq> 1 \<or> \<not> list_all utf8_label vals then Panic else Ok (''gps_data_dropped_total'', vals))"
    "WithLabelValues ''gps_receiver_worker_pool_size'' vals m = (if length vals \<noteq> 0 \<or> \<not> list_all utf8_label vals then Panic else Ok (''gps_receiver_worker_pool_size'', vals))"
    "WithLabelValues ''gps_receiver_worker_active_count'' vals m = (if length vals \<noteq> 0 \<or> \<not> list_all utf8_label vals then Panic else Ok (''gps_receiver_worker_active_count'', vals))"
    "WithLabelValues ''gps_receiver_worker_idle_count'' vals m = (if length vals \<noteq> 0 \<or> \<not> list_all utf8_label vals then Panic else Ok (''gps_receiver_worker_idle_count'', vals))"
    "WithLabelValues ''gps_receiver_rate_limit_hits_total'' vals m = (if length vals \<noteq> 1 \<or> \<not> list_all utf8_label vals then Panic else Ok (''gps_receiver_rate_limit_hits_total'', vals))"
    "WithLabelValues ''gps_receiver_stoppage_records_filtered_total'' vals m = (if length vals \<noteq> 0 \<or> \<not> list_all utf8_label vals then Panic else Ok (''gps_receiver_stoppage_records_filtered_total'', vals))"
    "WithLabelValues ''gps_receiver_filter_state_count'' vals m = (if length vals \<noteq> 0 \<or> \<not> list_all utf8_label vals then Panic else Ok (''gps_receiver_filter_state_count'', vals))"
  using assms by (simp_all add: WithLabelValues_def metric_find desc_def)

text \<open>What one event does to the four values that are followed.\<close>

abbreviation amount :: "string \<Rightarrow> Metrics \<Rightarrow> int" where
  "amount name m \<equiv> mt_values m (name, [])"

lemmas metric_ops = RecordHTTPRequest_def RecordQueueEnqueue_def RecordQueueProcessing_def RecordSenderRequest_def RecordSenderRetry_def
  RecordSenderFailure_def RecordRateLimitHit_def UpdateQueueDepth_def SetWorkerPoolSize_def InitWorkerCounts_def IncActiveWorker_def
  DecActiveWorker_def RecordParseSuccess_def RecordParseFailure_def RecordDataDropped_def RecordStoppageFiltered_def UpdateFilterStateCount_def

lemma Add_ok: "WithLabelValues name vals m = (if bad then Panic else Ok (name, vals)) \<Longrightarrow>
    Add name vals n m = (if bad \<or> n < 0 then Panic else Ok (m\<lparr>mt_values := (mt_values m)((name, vals) := mt_values m (name, vals) + n)\<rparr>))"
  by (simp add: Add_def)

lemma fixed_labels: "utf8_label ''success''" "utf8_label ''failure''"
  by code_simp+

fun is_enqueue :: "metric_event \<Rightarrow> bool" where
  "is_enqueue (QueueEnqueue _) \<longleftrightarrow> True"
| "is_enqueue _ \<longleftrightarrow> False"

definition counts :: "metric_event list \<Rightarrow> Metrics \<Rightarrow> Metrics \<Rightarrow> bool" where
  "counts es m m' \<longleftrightarrow>
     amount ''gps_receiver_queue_enqueue_total'' m' = amount ''gps_receiver_queue_enqueue_total'' m + int (length (filter is_enqueue es)) \<and>
     amount ''gps_receiver_queue_enqueue_errors_total'' m' =
       amount ''gps_receiver_queue_enqueue_errors_total'' m + int (length (filter (\<lambda>e. e = QueueEnqueue False) es)) \<and>
     amount ''gps_receiver_worker_active_count'' m' = amount ''gps_receiver_worker_active_count'' m + inflight es \<and>
     ((\<forall>n. WorkerCounts n \<notin> set es) \<longrightarrow>
       amount ''gps_receiver_worker_idle_count'' m' = amount ''gps_receiver_worker_idle_count'' m - inflight es)"

lemma record_event_effect:
  assumes "mt_descs m = metric_descs"
  shows "(if event_ok e then \<exists>m'. record_event e m = Ok m' else record_event e m = Panic) \<and>
    (\<forall>m'. record_event e m = Ok m' \<longrightarrow> mt_descs m' = metric_descs \<and> counts [e] m m' \<and>
      (\<forall>n. e = WorkerCounts n \<longrightarrow> amount ''gps_receiver_worker_idle_count'' m' = n))"
  using assms unfolding counts_def
  by (cases e) (auto simp: metric_ops Add_def SetGauge_def Observe_def metric_labels fixed_labels)

lemma counts_Cons: "counts [e] m m1 \<Longrightarrow> counts es m1 m' \<Longrightarrow> counts (e # es) m m'"
  unfolding counts_def by (simp del: is_enqueue.simps)

lemma record_events_append: "record_events (es @ fs) m = andThen (record_events es m) (record_events fs)"
proof (induction es arbitrary: m)
  case (Cons e es)
  then show ?case by (cases "record_event e m") simp_all
qed simp

lemma inflight_append: "inflight (es @ fs) = inflight es + inflight fs"
  by (induction es) auto

lemma record_events_effect:
  assumes "mt_descs m = metric_descs"
  shows "(if list_all event_ok es then \<exists>m'. record_events es m = Ok m' else record_events es m = Panic) \<and>
    (\<forall>m'. record_events es m = Ok m' \<longrightarrow> mt_descs m' = metric_descs \<and> counts es m m')"
  using assms
proof (induction es arbitrary: m)
  case Nil
  then show ?case by (simp add: counts_def)
next
  case (Cons e es)
  note E = record_event_effect [OF Cons.prems, of e]
  show ?case
  proof (cases "event_ok e")
    case True
    then obtain m1 where m1: "record_event e m = Ok m1" using E by auto
    with E have d: "mt_descs m1 = metric_descs" "counts [e] m m1" by blast+
    have "record_events (e # es) m = record_events es m1" "list_all event_ok (e # es) = list_all event_ok es" using m1 True by simp_all
    then show ?thesis using Cons.IH [OF d(1)] counts_Cons [OF d(2)] by metis
  qed (use E in simp)
qed


lemma fresh_metrics: "\<exists>m0 names. InitMetrics [] = Ok (m0, names) \<and> mt_descs m0 = metric_descs"
proof -
  have "case register_all metric_descs [] of Ok x \<Rightarrow> True | _ \<Rightarrow> False" by code_simp
  then obtain names where "register_all metric_descs [] = Ok names" by (auto split: result.splits)
  then show ?thesis by (simp add: InitMetrics_def)
qed


text \<open>The label of the tenth attempt is a colon.\<close>

lemma tenth_attempt: "attempt_label 9 = ''9'' \<and> attempt_label 10 = '':''"
  by code_simp

end
