(* ===== verification/Api_Middleware.thy ===== *)
theory Api_Middleware
  imports Api_Handler Metrics Sharded_Map
begin

text \<open>
  The middleware of the HTTP server (\<open>internal/api/middleware.go\<close>) and the chain that
  \<open>cmd/server/main.go\<close> builds of it: recovery, request identifiers, request metrics, rate limits
  per client, content types and the size limit, around the routes.  The limiter of
  \<open>golang.org/x/time/rate\<close> and the generator of identifiers are arguments.
\<close>

section \<open>The rate limiter\<close>

record 'l limiter_ops =
  lo_new :: "int \<Rightarrow> int \<Rightarrow> 'l"
  lo_allow :: "int \<Rightarrow> 'l \<Rightarrow> bool \<times> 'l"

record 'l rateLimiterEntry =
  le_limiter :: 'l
  le_lastSeen :: int

definition limiterShardCount :: nat where
  "limiterShardCount = 256"

record 'l RateLimiter =
  rl_shards :: "(string \<rightharpoonup> 'l rateLimiterEntry) list"
  rl_rate :: int
  rl_burst :: int

definition NewRateLimiter :: "int \<Rightarrow> int \<Rightarrow> 'l RateLimiter" where
  "NewRateLimiter requestsPerSecond burst =
     \<lparr>rl_shards = replicate limiterShardCount Map.empty, rl_rate = requestsPerSecond, rl_burst = burst\<rparr>"

definition getShard :: "string \<Rightarrow> nat" where
  "getShard ip =
     (let h = foldl (\<lambda>h b. (h XOR ucast b) * 16777619) (2166136261 :: u32) (bytes_of ip)
      in unat (h AND (word_of_nat limiterShardCount - 1)))"

definition put_entry :: "string \<Rightarrow> 'l rateLimiterEntry \<Rightarrow> 'l RateLimiter \<Rightarrow> 'l RateLimiter" where
  "put_entry ip entry rl = rl\<lparr>rl_shards := (rl_shards rl)[getShard ip := (rl_shards rl ! getShard ip)(ip \<mapsto> entry)]\<rparr>"

definition getLimiter :: "'l limiter_ops \<Rightarrow> int \<Rightarrow> string \<Rightarrow> 'l RateLimiter \<Rightarrow> 'l \<times> 'l RateLimiter" where
  "getLimiter ops now ip rl =
     (case (rl_shards rl ! getShard ip) ip of
        Some entry \<Rightarrow> (le_limiter entry, put_entry ip (entry\<lparr>le_lastSeen := now\<rparr>) rl)
      | None \<Rightarrow> (let limiter = lo_new ops (rl_rate rl) (rl_burst rl) in
          (limiter, put_entry ip \<lparr>le_limiter = limiter, le_lastSeen = now\<rparr> rl)))"

text \<open>
  \<open>getLimiter(ip).Allow()\<close>: the limiter is shared through its pointer, so what \<open>Allow\<close> changes in it
  stays in the entry.
\<close>

definition allow_client :: "'l limiter_ops \<Rightarrow> int \<Rightarrow> int \<Rightarrow> string \<Rightarrow> 'l RateLimiter \<Rightarrow> bool \<times> 'l RateLimiter" where
  "allow_client ops now later ip rl =
     (let (limiter, rl1) = getLimiter ops now ip rl; (ok, limiter') = lo_allow ops later limiter
      in (ok, put_entry ip \<lparr>le_limiter = limiter', le_lastSeen = now\<rparr> rl1))"

text \<open>One tick of \<open>cleanupLoop\<close>: entries not seen for ten minutes go.\<close>

definition cleanup_tick :: "int \<Rightarrow> 'l RateLimiter \<Rightarrow> 'l RateLimiter" where
  "cleanup_tick now rl =
     (let cutoff = now - 10 * Minute in
      rl\<lparr>rl_shards := map (\<lambda>shard ip. case shard ip of
          Some entry \<Rightarrow> if le_lastSeen entry < cutoff then None else Some entry
        | None \<Rightarrow> None) (rl_shards rl)\<rparr>)"

text \<open>The shards of the limiter are one map from clients to entries.\<close>

definition limiter_ok :: "'l RateLimiter \<Rightarrow> bool" where
  "limiter_ok rl \<longleftrightarrow> sharded_ok limiterShardCount getShard (rl_shards rl)"

definition limiter_entries :: "'l RateLimiter \<Rightarrow> (string \<rightharpoonup> 'l rateLimiterEntry)" where
  "limiter_entries rl = sharded_get getShard (rl_shards rl)"

lemma getShard_mod: "getShard ip = unat (foldl (\<lambda>h b. (h XOR ucast b) * 16777619) (2166136261 :: u32) (bytes_of ip)) mod 256"
proof -
  have "unat (h AND 255) = unat h mod 256" for h :: u32
  proof -
    have "h AND 255 = take_bit 8 h" by (simp add: take_bit_eq_mask mask_eq_exp_minus_1)
    then show ?thesis by (simp add: unsigned_take_bit_eq) (simp add: take_bit_eq_mod)
  qed
  then show ?thesis by (simp add: getShard_def limiterShardCount_def)
qed

interpretation client_shards: sharded_map limiterShardCount getShard
  by unfold_locales (simp add: getShard_mod limiterShardCount_def)

lemma put_entry_simps [simp]: "rl_rate (put_entry ip e rl) = rl_rate rl" "rl_burst (put_entry ip e rl) = rl_burst rl"
  by (simp_all add: put_entry_def)

lemma shards_put_entry: "rl_shards (put_entry ip e rl) = sharded_put getShard ip e (rl_shards rl)"
  by (simp add: put_entry_def sharded_put_def)

lemma limiter_ok_put: "limiter_ok rl \<Longrightarrow> limiter_ok (put_entry ip e rl)"
  by (simp add: limiter_ok_def shards_put_entry client_shards.ok_put)

lemma entries_put: "limiter_ok rl \<Longrightarrow> limiter_entries (put_entry ip e rl) = (limiter_entries rl)(ip \<mapsto> e)"
  by (simp add: limiter_ok_def limiter_entries_def shards_put_entry client_shards.get_put)

lemma limiter_ok_new: "limiter_ok (NewRateLimiter r b)"
  by (simp add: limiter_ok_def NewRateLimiter_def client_shards.ok_empty)

lemma entries_new: "limiter_entries (NewRateLimiter r b) = Map.empty"
  by (simp add: limiter_entries_def NewRateLimiter_def client_shards.get_empty)

lemma limiter_ok_cleanup: "limiter_ok rl \<Longrightarrow> limiter_ok (cleanup_tick now rl)"
  unfolding limiter_ok_def cleanup_tick_def Let_def
  by simp (rule client_shards.ok_sweep, auto split: option.splits if_splits)

lemma entries_cleanup:
  "limiter_ok rl \<Longrightarrow> limiter_entries (cleanup_tick now rl) ip =
     (case limiter_entries rl ip of
        Some entry \<Rightarrow> if le_lastSeen entry < now - 10 * Minute then None else Some entry
      | None \<Rightarrow> None)"
  by (simp add: limiter_ok_def limiter_entries_def cleanup_tick_def Let_def client_shards.get_sweep)
    (simp add: sharded_get_def split: option.split)

lemma getLimiter_entries:
  "getLimiter ops now ip rl =
     (case limiter_entries rl ip of
        Some entry \<Rightarrow> (le_limiter entry, put_entry ip (entry\<lparr>le_lastSeen := now\<rparr>) rl)
      | None \<Rightarrow> (let limiter = lo_new ops (rl_rate rl) (rl_burst rl) in
          (limiter, put_entry ip \<lparr>le_limiter = limiter, le_lastSeen = now\<rparr> rl)))"
  by (simp add: getLimiter_def limiter_entries_def sharded_get_def)

section \<open>The context and the server\<close>

text \<open>The last field is a response whose body was written before a panic.\<close>

record ctx =
  cx_request :: request
  cx_id :: "string option"
  cx_headers :: "string \<rightharpoonup> string"
  cx_written :: "response_body response option"

record ('r, 'l) server =
  ss_api :: "'r api_state"
  ss_limiter :: "'l RateLimiter"
  ss_active :: int
  ss_requests :: "(string \<times> string \<times> int) list"
  ss_limit_hits :: "string list"

text \<open>
  A handler answers or panics, and leaves the context (identifier and headers set so far) and the
  server behind.
\<close>

type_synonym ('r, 'l) gin_handler =
  "ctx \<Rightarrow> ('r, 'l) server \<Rightarrow> (unit, response_body response) result \<times> ctx \<times> ('r, 'l) server"

definition RequestIDMiddleware :: "string \<Rightarrow> ('r, 'l) gin_handler \<Rightarrow> ('r, 'l) gin_handler" where
  "RequestIDMiddleware uuid next cx s =
     (let given = GetHeader (cx_request cx) ''X-Request-ID''; requestID = (if given = [] then uuid else given)
      in next (cx\<lparr>cx_id := Some requestID, cx_headers := (cx_headers cx)(''X-Request-ID'' \<mapsto> requestID)\<rparr>) s)"

text \<open>
  The gauge goes down also after a panic, by \<open>defer\<close>; the request is recorded only without one.  The
  recording itself panics on a label that is not UTF-8, when the response has been written.
\<close>

definition LoggingMiddleware :: "('r, 'l) gin_handler \<Rightarrow> ('r, 'l) gin_handler" where
  "LoggingMiddleware next cx s =
     (let (r, cx', s') = next cx (s\<lparr>ss_active := ss_active s + 1\<rparr>); s1 = s'\<lparr>ss_active := ss_active s' - 1\<rparr>
      in case r of
           Ok resp \<Rightarrow>
             if utf8_label (rq_method (cx_request cx)) \<and> utf8_label (rq_path (cx_request cx))
             then (r, cx', s1\<lparr>ss_requests := ss_requests s1 @
               [(rq_method (cx_request cx), rq_path (cx_request cx), rs_status resp)]\<rparr>)
             else (Panic, cx'\<lparr>cx_written := (if rs_body resp = NoBody then None else Some resp)\<rparr>, s1)
         | _ \<Rightarrow> (r, cx', s1))"

text \<open>
  A recovered panic becomes a 500; without an identifier the recovery itself panics.  After a
  response has been written its status stays, and the error is written behind its body (where
  \<open>net/http\<close> discards it if the response declared its length).
\<close>

definition RecoveryMiddleware :: "('r, 'l) gin_handler \<Rightarrow> ('r, 'l) gin_handler" where
  "RecoveryMiddleware next cx s =
     (let (r, cx', s') = next cx s in
      case r of
        Panic \<Rightarrow> (case cx_id cx' of
           None \<Rightarrow> (Panic, cx', s')
         | Some requestID \<Rightarrow>
             (Ok (case cx_written cx' of
                None \<Rightarrow> reply 500 (ErrorWithID InternalError requestID)
              | Some resp \<Rightarrow> resp\<lparr>rs_body := FollowedBy (rs_body resp) (ErrorWithID InternalError requestID)\<rparr>), cx', s'))
      | _ \<Rightarrow> (r, cx', s'))"

definition abort_with_id :: "int \<Rightarrow> api_error \<Rightarrow> ctx \<Rightarrow> ('r, 'l) server \<Rightarrow>
    (unit, response_body response) result \<times> ctx \<times> ('r, 'l) server" where
  "abort_with_id status err cx s =
     (case cx_id cx of
        None \<Rightarrow> (Panic, cx, s)
      | Some requestID \<Rightarrow> (Ok (reply status (ErrorWithID err requestID)), cx, s))"

definition RateLimitMiddleware :: "'l limiter_ops \<Rightarrow> int \<Rightarrow> int \<Rightarrow> ('r, 'l) gin_handler \<Rightarrow> ('r, 'l) gin_handler" where
  "RateLimitMiddleware ops now later next cx s =
     (let ip = rq_clientIP (cx_request cx); (allowed, rl) = allow_client ops now later ip (ss_limiter s);
          s1 = s\<lparr>ss_limiter := rl\<rparr>
      in if \<not> allowed then abort_with_id 429 TooManyRequests cx
              (if cx_id cx = None then s1 else s1\<lparr>ss_limit_hits := ss_limit_hits s1 @ [ip]\<rparr>)
         else next cx s1)"

text \<open>\<open>TimeoutMiddleware\<close> gives the request its own context again: it adds no timeout.\<close>

definition TimeoutMiddleware :: "int \<Rightarrow> ('r, 'l) gin_handler \<Rightarrow> ('r, 'l) gin_handler" where
  "TimeoutMiddleware timeout next cx s = next cx s"

definition content_type_ok :: "request \<Rightarrow> bool" where
  "content_type_ok rq \<longleftrightarrow>
     (let contentType = GetHeader rq ''Content-Type'' in
      HasPrefix (rq_path rq) ''/socket.io'' \<or> (rq_method rq \<noteq> ''POST'' \<and> rq_method rq \<noteq> ''PUT'') \<or>
      (HasPrefix contentType ''application/octet-stream'' \<and> rq_path rq = ''/api/gps/reports'') \<or>
      contentType = ''application/json'' \<or> contentType = [])"

definition ContentTypeMiddleware :: "('r, 'l) gin_handler \<Rightarrow> ('r, 'l) gin_handler" where
  "ContentTypeMiddleware next cx s =
     (if content_type_ok (cx_request cx) then next cx s else abort_with_id 400 ContentTypeInvalid cx s)"

text \<open>\<open>http.MaxBytesReader\<close>: reading more than the limit (at least 0) fails.\<close>

definition RequestSizeLimitMiddleware :: "int \<Rightarrow> ('r, 'l) gin_handler \<Rightarrow> ('r, 'l) gin_handler" where
  "RequestSizeLimitMiddleware maxSize next cx s =
     next (cx\<lparr>cx_request := (cx_request cx)\<lparr>rq_body := (case rq_body (cx_request cx) of
         Some body \<Rightarrow> if int (length body) \<le> max 0 maxSize then Some body else None
       | None \<Rightarrow> None)\<rparr>\<rparr>) s"

section \<open>The server\<close>

record ('r, 'l) server_env =
  se_api :: "'r api_env"
  se_uuid :: string
  se_limiter :: "'l limiter_ops"
  se_now :: int
  se_later :: int
  se_maxSize :: int
  se_other :: "('r, 'l) gin_handler"

definition receive_route :: "'r api_env \<Rightarrow> ('r, 'l) gin_handler" where
  "receive_route e cx s =
     (let (r, st) = ReceiveGPSData e (cx_request cx) (ss_api s) in (r, cx, s\<lparr>ss_api := st\<rparr>))"

text \<open>The routes that only read: health, readiness and monitoring.\<close>

definition reading_route :: "string list \<Rightarrow> request \<Rightarrow> RequestTracker option \<Rightarrow> response_body response option" where
  "reading_route order rq tracker =
     (let meth = rq_method rq; path = rq_path rq in
      if (meth = ''GET'' \<or> meth = ''HEAD'') \<and> path = ''/health'' then Some (Health rq)
      else if (meth = ''GET'' \<or> meth = ''HEAD'') \<and> path = ''/ready'' then Some (Ready rq)
      else if meth = ''GET'' \<and> path = ''/monitoring/requests'' then Some (ListRequests order rq tracker)
      else if meth = ''GET'' \<and> path = ''/monitoring/statistics'' then Some (GetStatistics_handler tracker)
      else if meth = ''GET'' \<and> path = ''/monitoring/requests/'' @ rq_param_id rq \<and> rq_param_id rq \<noteq> []
      then Some (GetRequestDetails rq tracker)
      else None)"

text \<open>
  The routes of \<open>main\<close>; the queries of stored records, the metrics page, the socket and the static
  files are the argument \<open>se_other\<close>.
\<close>

definition routes :: "('r, 'l) server_env \<Rightarrow> ('r, 'l) gin_handler" where
  "routes e cx s =
     (let rq = cx_request cx in
      if rq_method rq = ''POST'' \<and> rq_path rq = ''/api/gps/reports'' then receive_route (se_api e) cx s
      else case reading_route (ae_order (se_api e)) rq (as_tracker (ss_api s)) of
          Some resp \<Rightarrow> (Ok resp, cx, s)
        | None \<Rightarrow> se_other e cx s)"

definition chain :: "('r, 'l) server_env \<Rightarrow> ('r, 'l) gin_handler" where
  "chain e =
     RecoveryMiddleware (RequestIDMiddleware (se_uuid e) (LoggingMiddleware
       (RateLimitMiddleware (se_limiter e) (se_now e) (se_later e) (ContentTypeMiddleware
         (RequestSizeLimitMiddleware (se_maxSize e) (routes e))))))"

text \<open>One request: the response carries the headers set on the way.\<close>

definition serve :: "('r, 'l) server_env \<Rightarrow> request \<Rightarrow> ('r, 'l) server \<Rightarrow>
    (unit, response_body response) result \<times> ('r, 'l) server" where
  "serve e rq s =
     (let (r, cx, s') = chain e \<lparr>cx_request = rq, cx_id = None, cx_headers = Map.empty, cx_written = None\<rparr> s
      in (case r of Ok resp \<Rightarrow> Ok (resp\<lparr>rs_headers := cx_headers cx ++ rs_headers resp\<rparr>) | _ \<Rightarrow> r, s'))"

end
