(* ===== verification/Api_Properties.thy ===== *)
theory Api_Properties
  imports Api_Middleware Consumer_Properties
begin

text \<open>
  The properties of receiving GPS data over HTTP: what each reply means for the queue, and what
  happens once the cached depth has reached the backpressure limit.
\<close>

section \<open>What the steps leave alone\<close>

lemma track_simps [simp]:
  "as_handler (track i f st) = as_handler st" "as_redis (track i f st) = as_redis st"
  "as_mirror (track i f st) = as_mirror st" "as_enqueues (track i f st) = as_enqueues st"
  by (simp_all add: track_def)

lemma record_enqueue_simps [simp]:
  "as_handler (record_enqueue b st) = as_handler st" "as_redis (record_enqueue b st) = as_redis st"
  "as_mirror (record_enqueue b st) = as_mirror st" "as_enqueues (record_enqueue b st) = as_enqueues st @ [b]"
  by (simp_all add: record_enqueue_def)

abbreviation over_limit :: "Handler \<Rightarrow> bool" where
  "over_limit h \<equiv> 0 < backpressure_limit h \<and> backpressure_limit h \<le> hd_cachedDepth h"

lemma enqueue_body_full:
  assumes "over_limit (as_handler st)" and "enqueue_body e rq raw body st = (resp, st')"
  shows "rs_status resp = 503 \<and> rs_body resp = ErrorBody QueueIsFull \<and> rs_headers resp = [''Retry-After'' \<mapsto> Itoa 5] \<and>
    as_handler st' = as_handler st \<and> as_redis st' = as_redis st \<and> as_mirror st' = as_mirror st \<and>
    as_enqueues st' = as_enqueues st @ [False]"
  using assms by (auto simp: enqueue_body_def Let_def)

lemma enqueue_body_room:
  assumes "\<not> over_limit (as_handler st)" and "enqueue_body e rq raw body st = (resp, st')"
  shows "(\<exists>messageID depth r. EnqueueWithDepth (ae_ops e) (hd_queue (as_handler st)) (t_sec (ae_now e)) body (as_redis st) =
        (Ok (messageID, depth), r) \<and> resp = reply 200 (QueuedBody messageID) \<and> as_redis st' = r \<and>
        as_handler st' = (as_handler st)\<lparr>hd_cachedDepth := depth\<rparr>) \<or>
    resp = reply 503 (ErrorBody EnqueueError) \<and> as_mirror st' = as_mirror st \<and> as_handler st' = as_handler st"
  using assms by (auto simp: enqueue_body_def Let_def split: result.splits prod.splits)

text \<open>The four ways through the handler.\<close>

lemma ReceiveGPSData_cases:
  assumes "ReceiveGPSData e rq st = (r, st')"
  obtains (early) resp where "r = Ok resp" "rs_status resp = 400" "rs_body resp \<noteq> ErrorBody QueueIsFull" "as_handler st' = as_handler st"
      "as_redis st' = as_redis st" "as_mirror st' = as_mirror st" "as_enqueues st' = as_enqueues st"
    | (crashed) "r = Panic" "as_handler st' = as_handler st" "as_redis st' = as_redis st" "as_mirror st' = as_mirror st"
      "as_enqueues st' = as_enqueues st"
    | (enqueued) body prepared resp st1 where "rq_body rq = Some body" "body \<noteq> []"
      "prepareBodyForQueue e (hd_tzOffset (as_handler st)) rq body = Ok prepared" "r = Ok resp"
      "enqueue_body e rq body prepared st1 = (resp, st')" "as_handler st1 = as_handler st" "as_redis st1 = as_redis st"
      "as_mirror st1 = as_mirror st" "as_enqueues st1 = as_enqueues st"
  using assms
  by (auto simp: ReceiveGPSData_def Let_def reply_def split: option.splits if_splits result.splits prod.splits)

section \<open>Replies and the queue\<close>

lemma EnqueueWithDepth_appends:
  assumes "redis_laws ops v" and "EnqueueWithDepth ops q now data r = (Ok (i, depth), r')"
  shows "\<exists>k. entries v r' = drop k (entries v r @ [stream_entry i data now])"
proof -
  obtain r1 where "op_XAdd ops (rq_maxLen q) data now r = (Ok i, r1)" "op_XLen ops r1 = (Ok depth, r')"
    using assms(2) by (auto simp: EnqueueWithDepth_def split: prod.splits result.splits)
  then have "xadd_law v (rq_maxLen q) data now (Ok i) r r1" "unchanged v r1 r'"
    using law_XAdd law_XLen assms(1) by metis+
  then show ?thesis by (auto simp: xadd_law_def unchanged_def)
qed


section \<open>Runs\<close>

text \<open>
  Requests one after another, in any environment, while everything around the handler does what it
  likes to Redis, the tracker and the mirror.
\<close>

inductive api_run ::
  "'r api_state \<Rightarrow> (unit, response_body response) result list \<Rightarrow> 'r api_state \<Rightarrow> bool" where
  run_nil: "api_run s [] s"
| run_request: "ReceiveGPSData e rq s = (r, s1) \<Longrightarrow> api_run s1 rs t \<Longrightarrow> api_run s (r # rs) t"
| run_other: "api_run (s\<lparr>as_redis := r, as_tracker := tr, as_mirror := m\<rparr>) rs t \<Longrightarrow> api_run s rs t"

lemma receive_over_limit:
  assumes "over_limit (as_handler s)" and "ReceiveGPSData e rq s = (r, s')"
  shows "as_handler s' = as_handler s \<and> as_redis s' = as_redis s \<and>
    (\<exists>n. as_enqueues s' = as_enqueues s @ replicate n False) \<and>
    (\<forall>resp. r = Ok resp \<longrightarrow> rs_status resp \<in> {400, 503})"
  using assms(2)
proof (cases rule: ReceiveGPSData_cases)
  case (enqueued body prepared resp st1)
  then show ?thesis using assms(1) enqueue_body_full [of st1 e rq body prepared resp s']
    by (auto intro!: exI [of _ "Suc 0"])
qed (auto intro: exI [of _ 0])

text \<open>
  C36: Backpressure latches.  The cached depth changes only when a message is enqueued, and a full
  queue stops every enqueue: once the cached depth has reached the limit, every request of every
  later run is answered with 400 or 503 and none is queued, whatever happens to the stream in
  the meantime; a stream that the workers have emptied does not end it.
\<close>

theorem backpressure_latches:
  assumes "api_run s replies t" and "0 < backpressure_limit (as_handler s)"
    and "backpressure_limit (as_handler s) \<le> hd_cachedDepth (as_handler s)"
  shows "as_handler t = as_handler s \<and> (\<exists>n. as_enqueues t = as_enqueues s @ replicate n False) \<and>
    (\<forall>resp. Ok resp \<in> set replies \<longrightarrow> rs_status resp \<in> {400, 503})"
  using assms
proof (induction rule: api_run.induct)
  case (run_nil s)
  then show ?case by (auto intro: exI [of _ 0])
next
  case (run_request e rq s r s1 rs t)
  then have one: "as_handler s1 = as_handler s" "\<exists>n. as_enqueues s1 = as_enqueues s @ replicate n False"
    "\<forall>resp. r = Ok resp \<longrightarrow> rs_status resp \<in> {400, 503}"
    using receive_over_limit by blast+
  moreover have "as_handler t = as_handler s1 \<and> (\<exists>n. as_enqueues t = as_enqueues s1 @ replicate n False) \<and>
      (\<forall>resp. Ok resp \<in> set rs \<longrightarrow> rs_status resp \<in> {400, 503})"
    using run_request one(1) by simp
  ultimately show ?case by (auto simp flip: replicate_add)
qed simp

section \<open>A run that latches\<close>

definition sample_api_env :: "log_stream api_env" where
  "sample_api_env = \<lparr>ae_ops = log_ops, ae_now = \<lparr>t_sec = 7, t_nsec = 0\<rparr>, ae_rand = Fin False 0, ae_order = [], ae_order2 = [],
     ae_unmarshal_list = (\<lambda>_. None), ae_unmarshal_envelope = (\<lambda>_. None), ae_marshal_envelope = (\<lambda>_. None),
     ae_marshal_raw = (\<lambda>_. None), ae_sort = insertionSort, ae_spare = (\<lambda>_. []), ae_spill = WriteDone,
     ae_prepare_text = (\<lambda>_. []), ae_enqueue_text = (\<lambda>_. [])\<rparr>"

definition sample_request :: request where
  "sample_request = \<lparr>rq_method = ''POST'', rq_path = ''/api/gps/reports'', rq_headers = Map.empty, rq_query = Map.empty,
     rq_param_id = [], rq_body = Some [0x5B, 0x5D], rq_clientIP = ''10.0.0.1''\<rparr>"

definition sample_api_state :: "log_stream api_state" where
  "sample_api_state = \<lparr>as_handler = NewHandler \<lparr>rq_streamName = ''s'', rq_consumerGroup = ''g'', rq_maxLen = 50000\<rparr> 1 0,
     as_redis = empty_stream, as_tracker = None, as_mirror = None, as_enqueues = []\<rparr>"

lemma sample_receive:
  "as_handler st = as_handler sample_api_state \<Longrightarrow> as_tracker st = None \<Longrightarrow>
    ReceiveGPSData sample_api_env sample_request st =
      (let (r, st') = enqueue_body sample_api_env sample_request [0x5B, 0x5D] [0x5B, 0x5D] st in (Ok r, st'))"
  by (simp add: ReceiveGPSData_def sample_request_def GetHeader_def track_def prepareBodyForQueue_def HasPrefix_def)

lemma sample_first:
  "ReceiveGPSData sample_api_env sample_request sample_api_state =
    (Ok (reply 200 (QueuedBody (unary 0))), sample_api_state\<lparr>as_redis := \<lparr>ls_log = [([0x5B, 0x5D], 7, True)], ls_counts = \<lambda>_. 0\<rparr>,
       as_handler := (as_handler sample_api_state)\<lparr>hd_cachedDepth := 1\<rparr>, as_enqueues := [True]\<rparr>)"
  by (subst sample_receive)
     (simp_all add: enqueue_body_def sample_api_state_def NewHandler_def backpressure_limit_def EnqueueWithDepth_def
       sample_api_env_def log_ops_def empty_stream_def GetHeader_def sample_request_def track_def record_enqueue_def Let_def)


theorem backpressure_latches_witness:
  "\<exists>t. api_run (sample_api_state\<lparr>as_handler := (as_handler sample_api_state)\<lparr>hd_cachedDepth := 1\<rparr>\<rparr>)
     [Ok \<lparr>rs_status = 503, rs_headers = [''Retry-After'' \<mapsto> Itoa 5], rs_body = ErrorBody QueueIsFull\<rparr>] t \<and>
     entries log_view (as_redis t) = [] \<and> hd_cachedDepth (as_handler t) = 1"
proof -
  let ?h = "(as_handler sample_api_state)\<lparr>hd_cachedDepth := 1\<rparr>"
  let ?s = "sample_api_state\<lparr>as_handler := ?h\<rparr>"
  let ?full = "\<lparr>rs_status = 503, rs_headers = [''Retry-After'' \<mapsto> Itoa 5], rs_body = ErrorBody QueueIsFull\<rparr>"
  have over: "over_limit (as_handler ?s)" by (simp add: backpressure_limit_def sample_api_state_def NewHandler_def)
  have "ReceiveGPSData sample_api_env sample_request ?s =
      (let (r, st') = enqueue_body sample_api_env sample_request [0x5B, 0x5D] [0x5B, 0x5D] ?s in (Ok r, st'))"
    by (simp add: ReceiveGPSData_def sample_request_def GetHeader_def track_def prepareBodyForQueue_def HasPrefix_def)
  moreover obtain resp t where e: "enqueue_body sample_api_env sample_request [0x5B, 0x5D] [0x5B, 0x5D] ?s = (resp, t)"
    by fastforce
  moreover have "resp = ?full" "as_redis t = as_redis ?s" using enqueue_body_full [OF over e] by (cases resp; simp)+
  ultimately have run: "api_run ?s [Ok ?full] t" by (auto intro: run_request run_nil)
  from backpressure_latches [OF run] over have "as_handler t = as_handler ?s" by blast
  then show ?thesis using run \<open>as_redis t = as_redis ?s\<close>
    by (intro exI [of _ t]) (simp add: sample_api_state_def log_view_def empty_stream_def)
qed

section \<open>The guards around the handler\<close>

text \<open>
  What is asked of the routes that are not modelled: they answer or panic, leave the queue, the
  gauge and the identifier alone, and do not answer with an identifier of their own.
\<close>

definition other_ok :: "('r, 'l) gin_handler \<Rightarrow> bool" where
  "other_ok h \<longleftrightarrow> (\<forall>cx s r cx' s'. h cx s = (r, cx', s') \<longrightarrow>
     r \<noteq> Err () \<and> cx_id cx' = cx_id cx \<and> cx_headers cx' = cx_headers cx \<and> as_redis (ss_api s') = as_redis (ss_api s) \<and>
     cx_written cx' = cx_written cx \<and> ss_active s' = ss_active s \<and> (\<forall>resp. r = Ok resp \<longrightarrow> rs_headers resp ''X-Request-ID'' = None))"

text \<open>A handler that keeps the books: the route, and every middleware around it.\<close>

abbreviation books_kept ::
  "ctx \<Rightarrow> ('r, 'l) server \<Rightarrow> (unit, response_body response) result \<Rightarrow> ctx \<Rightarrow> ('r, 'l) server \<Rightarrow> bool \<Rightarrow> bool" where
  "books_kept cx s r cx' s' writes \<equiv>
     r \<noteq> Err () \<and> cx_id cx' = cx_id cx \<and> cx_headers cx' = cx_headers cx \<and> ss_active s' = ss_active s \<and>
     (as_redis (ss_api s') \<noteq> as_redis (ss_api s) \<longrightarrow> writes) \<and>
     (\<forall>resp. r = Ok resp \<or> cx_written cx = None \<and> cx_written cx' = Some resp \<longrightarrow> rs_headers resp ''X-Request-ID'' = None)"

definition orderly :: "(ctx \<Rightarrow> bool) \<Rightarrow> ('r, 'l) gin_handler \<Rightarrow> (ctx \<Rightarrow> ('r, 'l) server \<Rightarrow> bool) \<Rightarrow> bool" where
  "orderly pre h writes \<longleftrightarrow> (\<forall>cx s r cx' s'. pre cx \<longrightarrow> h cx s = (r, cx', s') \<longrightarrow>
     books_kept cx s r cx' s' (writes cx s))"

lemma orderlyI:
  assumes "\<And>cx s r cx' s'. pre cx \<Longrightarrow> h cx s = (r, cx', s') \<Longrightarrow>
     books_kept cx s r cx' s' (writes cx s)"
  shows "orderly pre h writes"
  using assms unfolding orderly_def by blast

lemma orderlyD:
  assumes "orderly pre h writes" and "pre cx" and "h cx s = (r, cx', s')"
  shows "r \<noteq> Err ()" "cx_id cx' = cx_id cx" "cx_headers cx' = cx_headers cx" "ss_active s' = ss_active s"
    "as_redis (ss_api s') \<noteq> as_redis (ss_api s) \<Longrightarrow> writes cx s" "r = Ok resp \<or> cx_written cx = None \<and> cx_written cx' = Some resp \<Longrightarrow> rs_headers resp ''X-Request-ID'' = None"
  using assms unfolding orderly_def by blast+

lemma receive_headers:
  assumes "ReceiveGPSData e rq st = (r, st')"
  shows "r \<noteq> Err () \<and> (\<forall>resp. r = Ok resp \<longrightarrow> rs_headers resp ''X-Request-ID'' = None)"
  using assms
  by (auto simp: ReceiveGPSData_def enqueue_body_def reply_def Let_def split: option.splits if_splits result.splits prod.splits)

abbreviation nonempty_body :: "request \<Rightarrow> bool" where
  "nonempty_body rq \<equiv> (\<exists>body. rq_body rq = Some body \<and> body \<noteq> [])"

lemma receive_writes:
  assumes "ReceiveGPSData e rq st = (r, st')" and "as_redis st' \<noteq> as_redis st"
  shows "nonempty_body rq"
  using assms by (cases rule: ReceiveGPSData_cases) auto

lemma pure_route_headers:
  "rs_headers (Health rq) = Map.empty" "rs_headers (Ready rq) = Map.empty" "rs_headers (ListRequests o1 rq tr) = Map.empty"
  "rs_headers (GetStatistics_handler tr) = Map.empty" "rs_headers (GetRequestDetails rq tr) = Map.empty"
  by (simp_all add: Health_def Ready_def ListRequests_def GetStatistics_handler_def GetRequestDetails_def reply_def Let_def
      split: option.splits)

lemma reading_route_headers: "reading_route order rq tr = Some resp \<Longrightarrow> rs_headers resp = Map.empty"
  by (auto simp: reading_route_def pure_route_headers Let_def split: if_splits)

lemma orderly_routes:
  assumes "other_ok (se_other e)"
  shows "orderly (\<lambda>_. True) (routes e) (\<lambda>cx s. rq_method (cx_request cx) = ''POST'' \<and>
    rq_path (cx_request cx) = ''/api/gps/reports'' \<and> nonempty_body (cx_request cx))"
proof (rule orderlyI)
  fix cx s r cx' s' assume h: "routes e cx s = (r, cx', s')"
  show "books_kept cx s r cx' s' (rq_method (cx_request cx) = ''POST'' \<and>
       rq_path (cx_request cx) = ''/api/gps/reports'' \<and> nonempty_body (cx_request cx))"
  proof (cases "rq_method (cx_request cx) = ''POST'' \<and> rq_path (cx_request cx) = ''/api/gps/reports''")
    case True
    obtain r1 st where "ReceiveGPSData (se_api e) (cx_request cx) (ss_api s) = (r1, st)" by fastforce
    then show ?thesis using h True receive_headers [of "se_api e" "cx_request cx" "ss_api s" r1 st]
        receive_writes [of "se_api e" "cx_request cx" "ss_api s" r1 st]
      by (auto simp: routes_def receive_route_def)
  next
    case False
    show ?thesis
    proof (cases "reading_route (ae_order (se_api e)) (cx_request cx) (as_tracker (ss_api s))")
      case None
      then have "se_other e cx s = (r, cx', s')" using h False by (simp add: routes_def Let_def)
      from assms [unfolded other_ok_def, rule_format, OF this] show ?thesis by auto
    next
      case (Some resp)
      then show ?thesis using h False reading_route_headers [OF Some] by (auto simp: routes_def Let_def)
    qed
  qed
qed

lemma orderly_size:
  assumes "orderly (\<lambda>_. True) h writes"
  shows "orderly (\<lambda>_. True) (RequestSizeLimitMiddleware n h) (\<lambda>cx s. \<exists>b. writes (cx\<lparr>cx_request := (cx_request cx)\<lparr>rq_body := b\<rparr>\<rparr>) s \<and>
    (\<forall>body. b = Some body \<longrightarrow> rq_body (cx_request cx) = b \<and> int (length body) \<le> max 0 n))"
proof (rule orderlyI)
  fix cx s r cx' s' assume "RequestSizeLimitMiddleware n h cx s = (r, cx', s')"
  moreover define b where "b = (case rq_body (cx_request cx) of
         Some body \<Rightarrow> if int (length body) \<le> max 0 n then Some body else None | None \<Rightarrow> None)"
  ultimately have run: "h (cx\<lparr>cx_request := (cx_request cx)\<lparr>rq_body := b\<rparr>\<rparr>) s = (r, cx', s')"
    by (simp add: RequestSizeLimitMiddleware_def)
  have "\<forall>body. b = Some body \<longrightarrow> rq_body (cx_request cx) = b \<and> int (length body) \<le> max 0 n"
    by (auto simp: b_def split: option.splits if_splits)
  then show "books_kept cx s r cx' s' ((\<exists>b. writes (cx\<lparr>cx_request := (cx_request cx)\<lparr>rq_body := b\<rparr>\<rparr>) s \<and>
       (\<forall>body. b = Some body \<longrightarrow> rq_body (cx_request cx) = b \<and> int (length body) \<le> max 0 n)))"
    using orderlyD [OF assms TrueI run] by auto
qed

lemma orderly_content_type:
  assumes "orderly (\<lambda>_. True) h writes"
  shows "orderly (\<lambda>cx. cx_id cx \<noteq> None) (ContentTypeMiddleware h) (\<lambda>cx s. content_type_ok (cx_request cx) \<and> writes cx s)"
proof (rule orderlyI)
  fix cx s r cx' s' assume "cx_id cx \<noteq> None" "ContentTypeMiddleware h cx s = (r, cx', s')"
  then show "books_kept cx s r cx' s' (content_type_ok (cx_request cx) \<and> writes cx s)"
    using orderlyD [OF assms TrueI]
    by (cases "content_type_ok (cx_request cx)") (auto simp: ContentTypeMiddleware_def abort_with_id_def reply_def)
qed

lemma orderly_rate_limit:
  assumes "orderly (\<lambda>cx. cx_id cx \<noteq> None) h writes"
  shows "orderly (\<lambda>cx. cx_id cx \<noteq> None) (RateLimitMiddleware ops now later h)
    (\<lambda>cx s. fst (allow_client ops now later (rq_clientIP (cx_request cx)) (ss_limiter s)) \<and> (\<exists>rl. writes cx (s\<lparr>ss_limiter := rl\<rparr>)))"
proof (rule orderlyI)
  fix cx s r cx' s' assume id: "cx_id cx \<noteq> None" and run: "RateLimitMiddleware ops now later h cx s = (r, cx', s')"
  obtain ok rl where a: "allow_client ops now later (rq_clientIP (cx_request cx)) (ss_limiter s) = (ok, rl)" by fastforce
  show "books_kept cx s r cx' s'
      (fst (allow_client ops now later (rq_clientIP (cx_request cx)) (ss_limiter s)) \<and> (\<exists>rl. writes cx (s\<lparr>ss_limiter := rl\<rparr>)))"
  proof (cases ok)
    case True
    then have "h cx (s\<lparr>ss_limiter := rl\<rparr>) = (r, cx', s')" using run a by (simp add: RateLimitMiddleware_def Let_def)
    from orderlyD [OF assms id this] show ?thesis using a True by auto
  next
    case False
    then show ?thesis using run a id by (auto simp: RateLimitMiddleware_def abort_with_id_def reply_def Let_def)
  qed
qed

lemma orderly_logging:
  assumes "orderly pre h writes"
  shows "orderly pre (LoggingMiddleware h) (\<lambda>cx s. \<exists>n. writes cx (s\<lparr>ss_active := n\<rparr>))"
proof (rule orderlyI)
  fix cx s r cx' s' assume pre: "pre cx" and run: "LoggingMiddleware h cx s = (r, cx', s')"
  obtain r1 cx1 s1 where h: "h cx (s\<lparr>ss_active := ss_active s + 1\<rparr>) = (r1, cx1, s1)" by (metis prod_cases3)
  show "books_kept cx s r cx' s' (\<exists>n. writes cx (s\<lparr>ss_active := n\<rparr>))"
    using orderlyD [OF assms pre h] run h
    by (cases r1) (auto simp: LoggingMiddleware_def Let_def split: if_splits)
qed


text \<open>
  A path that is not UTF-8, such as the one of \<open>GET /%ff\<close>: the routes answer, and the error that the
  panic of the metrics causes follows their answer; the request is not recorded.
\<close>

lemma serve_bad_path:
  assumes "\<not> utf8_label (rq_path rq)" and "\<And>cx s. se_other e cx s = (Ok (reply status body), cx, s)" and "body \<noteq> NoBody"
    and "rq_method rq = ''DELETE''" and "fst (allow_client (se_limiter e) (se_now e) (se_later e) (rq_clientIP rq) (ss_limiter s))"
    and "GetHeader rq ''X-Request-ID'' = []"
  shows "\<exists>resp s'. serve e rq s = (Ok resp, s') \<and> rs_status resp = status \<and>
    rs_body resp = FollowedBy body (ErrorWithID InternalError (se_uuid e)) \<and> ss_requests s' = ss_requests s"
proof -
  obtain rl where a: "allow_client (se_limiter e) (se_now e) (se_later e) (rq_clientIP rq) (ss_limiter s) = (True, rl)"
    using assms(5) by (metis prod.collapse)
  have c: "content_type_ok rq" using assms(4) by (simp add: content_type_ok_def Let_def)
  have "reading_route order (rq\<lparr>rq_body := b\<rparr>) tr = None" for order b tr using assms(4) by (simp add: reading_route_def Let_def)
  then have "routes e \<lparr>cx_request = rq\<lparr>rq_body := b\<rparr>, cx_id = i, cx_headers = hs, cx_written = None\<rparr> t =
      (Ok \<lparr>rs_status = status, rs_headers = Map.empty, rs_body = body\<rparr>,
       \<lparr>cx_request = rq\<lparr>rq_body := b\<rparr>, cx_id = i, cx_headers = hs, cx_written = None\<rparr>, t)" for b i hs t
    using assms(2,4) by (simp add: routes_def reply_def Let_def)
  then show ?thesis using a c assms(1,3,6)
    by (simp add: serve_def chain_def RecoveryMiddleware_def RequestIDMiddleware_def LoggingMiddleware_def RateLimitMiddleware_def
        ContentTypeMiddleware_def RequestSizeLimitMiddleware_def reply_def Let_def)
qed

definition open_limiter :: "unit limiter_ops" where
  "open_limiter = \<lparr>lo_new = (\<lambda>_ _. ()), lo_allow = (\<lambda>_ _. (True, ()))\<rparr>"

definition sample_server_env :: "(log_stream, unit) server_env" where
  "sample_server_env = \<lparr>se_api = sample_api_env, se_uuid = ''u1'', se_limiter = open_limiter, se_now = 0, se_later = 0,
     se_maxSize = 100, se_other = (\<lambda>cx s. (Ok (reply 404 NoBody), cx, s))\<rparr>"

definition sample_http_server :: "(log_stream, unit) server" where
  "sample_http_server = \<lparr>ss_api = sample_api_state, ss_limiter = NewRateLimiter 10 20, ss_active = 3, ss_requests = [],
     ss_limit_hits = []\<rparr>"


end
