(* ===== verification/Postgres_Store.thy ===== *)
theory Postgres_Store
  imports Gps_Parser
begin

text \<open>
  The PostgreSQL store (\<open>internal/storage/postgres.go\<close>): the rows made of parsed records, the
  statements with their numbered parameters, the transactions around them, and the limits and
  pages of the queries.  The database is a set of operations; what is relied on in it is stated
  as laws over the tables.
\<close>

section \<open>Rows\<close>

definition imeiPattern :: "string \<Rightarrow> bool" where
  "imeiPattern s \<longleftrightarrow> length s = 15 \<and> list_all is_digit s"

text \<open>What is encoded as \<open>parsed_data\<close>: the record without its raw data.\<close>

record parsed_payload =
  pp_coordinate :: "float64 \<times> float64"
  pp_speed :: int
  pp_status :: int
  pp_directions :: DirectionData
  pp_date_time :: string
  pp_imei :: string

record gpsRecordRow =
  gr_imei :: string
  gr_rawData :: string
  gr_parsedJSON :: "u8 list"

record gpsFailedRecordRow =
  gf_row :: gpsRecordRow
  gf_targetServer :: string
  gf_errorMessage :: string

definition not_blank :: "string \<Rightarrow> string" where
  "not_blank rawData = (if rawData = [] then '' '' else rawData)"

definition payload_of :: "ParsedGPSData \<Rightarrow> parsed_payload" where
  "payload_of r = \<lparr>pp_coordinate = Coordinate r, pp_speed = Speed r, pp_status = Gps_Parser.Status r,
     pp_directions = Directions r, pp_date_time = DateTime r, pp_imei = IMEI r\<rparr>"

fun prepareGPSRecordRows :: "(parsed_payload \<Rightarrow> u8 list option) \<Rightarrow> ParsedGPSData list \<Rightarrow> gpsRecordRow list" where
  "prepareGPSRecordRows marshal [] = []"
| "prepareGPSRecordRows marshal (record # records) =
     (if IMEI record = [] \<or> \<not> imeiPattern (IMEI record) then prepareGPSRecordRows marshal records
      else case marshal (payload_of record) of
        None \<Rightarrow> prepareGPSRecordRows marshal records
      | Some json \<Rightarrow> \<lparr>gr_imei = IMEI record, gr_rawData = not_blank (RawData record), gr_parsedJSON = json\<rparr> #
          prepareGPSRecordRows marshal records)"

definition prepareGPSFailedRecordRows ::
  "(parsed_payload \<Rightarrow> u8 list option) \<Rightarrow> ParsedGPSData list \<Rightarrow> string \<Rightarrow> string \<Rightarrow> gpsFailedRecordRow list" where
  "prepareGPSFailedRecordRows marshal records targetServer errorMessage =
     map (\<lambda>row. \<lparr>gf_row = row, gf_targetServer = targetServer, gf_errorMessage = errorMessage\<rparr>)
       (prepareGPSRecordRows marshal records)"

section \<open>Statements\<close>

datatype sql_value = SText string | SBytes "u8 list" | STime Time | SInt int | SFloat float64 | SNull

definition record_values :: "Time \<Rightarrow> gpsRecordRow \<Rightarrow> sql_value list" where
  "record_values now row = [SText (gr_imei row), SText (gr_rawData row), SBytes (gr_parsedJSON row), STime now]"

definition failed_values :: "Time \<Rightarrow> gpsFailedRecordRow \<Rightarrow> sql_value list" where
  "failed_values now row = [SText (gr_imei (gf_row row)), SText (gr_rawData (gf_row row)), SBytes (gr_parsedJSON (gf_row row)),
     SText (gf_targetServer row), SText (gf_errorMessage row), STime now]"

text \<open>An invalid record as its raw data and the text of its reason.\<close>

definition invalid_values :: "Time \<Rightarrow> string \<times> string \<Rightarrow> sql_value list" where
  "invalid_values now record = [SText (not_blank (fst record)), SText (snd record), STime now]"

text \<open>\<open>($base, $base+1, \<dots>)\<close>, and the list of them for so many rows.\<close>

definition row_placeholders :: "nat \<Rightarrow> nat \<Rightarrow> string" where
  "row_placeholders columnsPerRow base =
     ''('' @ Join '', '' (map (\<lambda>i. CHR ''$'' # digits (base + i)) [0..<columnsPerRow]) @ '')''"

definition valuePlaceholders :: "nat \<Rightarrow> nat \<Rightarrow> string" where
  "valuePlaceholders columnsPerRow n = Join '', '' (map (\<lambda>i. row_placeholders columnsPerRow (i * columnsPerRow + 1)) [0..<n])"

definition insert_records :: string where
  "insert_records = ''INSERT INTO gps_records (imei, raw_data, parsed_data, created_at) VALUES ''"

definition insert_failed :: string where
  "insert_failed = ''INSERT INTO gps_failed_records (imei, raw_data, parsed_data, target_server, error_message, failed_at) VALUES ''"

definition insert_invalid :: string where
  "insert_invalid = ''INSERT INTO gps_invalid_records (raw_data, error_reason, created_at) VALUES ''"

section \<open>Storing\<close>

record 'd db_ops =
  db_begin :: "'d \<Rightarrow> bool \<times> 'd"
  db_exec :: "string \<Rightarrow> sql_value list \<Rightarrow> 'd \<Rightarrow> bool \<times> 'd"
  db_commit :: "'d \<Rightarrow> bool \<times> 'd"
  db_rollback :: "'d \<Rightarrow> 'd"

datatype store_error = BeginFailed | BatchInsertFailed | CommitFailed

definition execBatchInsert :: "'d db_ops \<Rightarrow> string \<Rightarrow> sql_value list \<Rightarrow> 'd \<Rightarrow> store_error option \<times> 'd" where
  "execBatchInsert ops query args d =
     (if length args = 0 then (None, d)
      else let (ok, d') = db_exec ops query args d in (if ok then None else Some BatchInsertFailed, d'))"

text \<open>
  The transaction that the three functions share: the deferred rollback has an effect only when
  the transaction has not ended with a commit, successful or not.
\<close>

definition in_transaction :: "'d db_ops \<Rightarrow> string \<Rightarrow> sql_value list \<Rightarrow> 'd \<Rightarrow> store_error option \<times> 'd" where
  "in_transaction ops query args d =
     (let (ok, d1) = db_begin ops d in
      if \<not> ok then (Some BeginFailed, d1)
      else case execBatchInsert ops query args d1 of
        (Some err, d2) \<Rightarrow> (Some err, db_rollback ops d2)
      | (None, d2) \<Rightarrow> (let (ok, d3) = db_commit ops d2 in (if ok then None else Some CommitFailed, d3)))"

definition StoreRecords ::
  "'d db_ops \<Rightarrow> (parsed_payload \<Rightarrow> u8 list option) \<Rightarrow> Time \<Rightarrow> ParsedGPSData list \<Rightarrow> 'd \<Rightarrow> store_error option \<times> 'd" where
  "StoreRecords ops marshal now records d =
     (if length records = 0 then (None, d)
      else let rows = prepareGPSRecordRows marshal records in
        if length rows = 0 then (None, d)
        else in_transaction ops (insert_records @ valuePlaceholders 4 (length rows)) (concat (map (record_values now) rows)) d)"

definition StoreFailedRecords ::
  "'d db_ops \<Rightarrow> (parsed_payload \<Rightarrow> u8 list option) \<Rightarrow> Time \<Rightarrow> ParsedGPSData list \<Rightarrow> string \<Rightarrow> string \<Rightarrow> 'd \<Rightarrow>
   store_error option \<times> 'd" where
  "StoreFailedRecords ops marshal now records targetServer errorMessage d =
     (if length records = 0 then (None, d)
      else let rows = prepareGPSFailedRecordRows marshal records targetServer errorMessage in
        if length rows = 0 then (None, d)
        else in_transaction ops (insert_failed @ valuePlaceholders 6 (length rows)) (concat (map (failed_values now) rows)) d)"

definition StoreInvalidRecords :: "'d db_ops \<Rightarrow> Time \<Rightarrow> (string \<times> string) list \<Rightarrow> 'd \<Rightarrow> store_error option \<times> 'd" where
  "StoreInvalidRecords ops now records d =
     (if length records = 0 then (None, d)
      else in_transaction ops (insert_invalid @ valuePlaceholders 3 (length records)) (concat (map (invalid_values now) records)) d)"

section \<open>What is relied on in the database\<close>

text \<open>
  Reading a statement back: a parameter number follows each dollar sign, and a tuple ends at each
  closing parenthesis.
\<close>

definition digits_value :: "string \<Rightarrow> nat" where
  "digits_value ds = foldl (\<lambda>n c. 10 * n + digit_of c) 0 ds"

fun placeholders :: "string \<Rightarrow> nat list" where
  "placeholders [] = []"
| "placeholders (c # s) =
     (if c = CHR ''$'' then digits_value (takeWhile is_digit s) # placeholders s else placeholders s)"

definition read_tuples :: "string \<Rightarrow> nat list list" where
  "read_tuples s = map placeholders (butlast (Split (CHR '')'') s))"

text \<open>
  The tables, by the text of the insertion into them, as committed and as the open transaction sees
  them.  An insertion that succeeds appends one row per tuple, each parameter replaced by its
  argument; nothing is committed before the commit; a commit that fails may or may not have
  reached the server.
\<close>

type_synonym tables = "string \<Rightarrow> sql_value list list"

record 'd db_view =
  committed :: "'d \<Rightarrow> tables"
  pending :: "'d \<Rightarrow> tables"

definition appended :: "string \<Rightarrow> sql_value list list \<Rightarrow> tables \<Rightarrow> tables" where
  "appended p rows t = t(p := t p @ rows)"

definition exec_law :: "'d db_view \<Rightarrow> string \<Rightarrow> string \<Rightarrow> sql_value list \<Rightarrow> 'd \<Rightarrow> bool \<Rightarrow> 'd \<Rightarrow> bool" where
  "exec_law v p s args d ok d' \<longleftrightarrow>
     committed v d' = committed v d \<and>
     (ok \<longrightarrow> pending v d' = appended p (map (map (\<lambda>n. args ! (n - 1))) (read_tuples s)) (pending v d))"

definition db_laws :: "'d db_ops \<Rightarrow> 'd db_view \<Rightarrow> bool" where
  "db_laws ops v \<longleftrightarrow>
     (\<forall>d ok d'. db_begin ops d = (ok, d') \<longrightarrow> committed v d' = committed v d \<and> (ok \<longrightarrow> pending v d' = committed v d)) \<and>
     (\<forall>p s args d ok d'. p \<in> {insert_records, insert_failed, insert_invalid} \<longrightarrow>
        set (concat (read_tuples s)) \<subseteq> {1..length args} \<longrightarrow> db_exec ops (p @ s) args d = (ok, d') \<longrightarrow> exec_law v p s args d ok d') \<and>
     (\<forall>d ok d'. db_commit ops d = (ok, d') \<longrightarrow>
        (ok \<longrightarrow> committed v d' = pending v d) \<and> (\<not> ok \<longrightarrow> committed v d' \<in> {committed v d, pending v d})) \<and>
     (\<forall>d. committed v (db_rollback ops d) = committed v d)"

section \<open>The statements read back\<close>

lemma digits_read: "digits_value (digits n) = n \<and> list_all is_digit (digits n)"
proof (induction n rule: digits.induct)
  case (1 n)
  have d: "digit_of (digit_char m) = m \<and> is_digit (digit_char m)" if "m < 10" for m
    using that by (simp add: digit_of_def digit_char_def is_digit_def)
  show ?case using 1 d by (subst (1 2) digits.simps) (auto simp: digits_value_def)
qed

lemma digits_no: "\<not> is_digit c \<Longrightarrow> c \<notin> set (digits n)"
  using digits_read [of n] by (auto simp: list_all_iff)

lemma signs_no_digits: "\<not> is_digit (CHR ''$'')" "\<not> is_digit (CHR '')'')" "\<not> is_digit (CHR '','')"
  by (simp_all add: is_digit_def)

lemma placeholders_skip: "CHR ''$'' \<notin> set a \<Longrightarrow> placeholders (a @ b) = placeholders b"
  by (induction a) auto

lemma placeholders_number:
  assumes "b = [] \<or> \<not> is_digit (hd b)"
  shows "placeholders (CHR ''$'' # digits n @ b) = n # placeholders b"
proof -
  have "takeWhile is_digit (digits n @ b) = digits n @ takeWhile is_digit b"
    using digits_read [of n] by (intro takeWhile_append2) (auto simp: list_all_iff)
  moreover have "takeWhile is_digit b = []" using assms by (cases b) auto
  ultimately show ?thesis using digits_read [of n] placeholders_skip [OF digits_no [OF signs_no_digits(1)], of n b] by simp
qed

lemma placeholders_list:
  "b = [] \<or> \<not> is_digit (hd b) \<Longrightarrow>
    placeholders (Join '', '' (map (\<lambda>n. CHR ''$'' # digits n) ns) @ b) = ns @ placeholders b"
proof (induction ns rule: induct_list012)
  case (3 m n ns)
  have "placeholders (CHR ''$'' # digits m @ '', '' @ r) = m # placeholders r" for r
    using placeholders_number [of "'', '' @ r" m] placeholders_skip [of "'', ''" r] by (simp add: signs_no_digits)
  then show ?case using 3 by simp
qed (simp_all add: placeholders_number del: placeholders.simps(2))

definition open_row :: "nat \<Rightarrow> nat \<Rightarrow> string" where
  "open_row k base = ''('' @ Join '', '' (map (\<lambda>i. CHR ''$'' # digits (base + i)) [0..<k])"

lemma open_row_facts: "placeholders (open_row k base) = map (\<lambda>i. base + i) [0..<k]" "CHR '')'' \<notin> set (open_row k base)"
proof -
  have m: "map (\<lambda>i. CHR ''$'' # digits (base + i)) [0..<k] = map (\<lambda>n. CHR ''$'' # digits n) (map (\<lambda>i. base + i) [0..<k])"
    by simp
  show "placeholders (open_row k base) = map (\<lambda>i. base + i) [0..<k]"
    using placeholders_list [of "[]" "map (\<lambda>i. base + i) [0..<k]"] unfolding open_row_def m by (simp del: map_map)
  have "CHR '')'' \<notin> set (Join '', '' (map (\<lambda>n. CHR ''$'' # digits n) ns))" for ns
    by (induction ns rule: induct_list012) (simp_all add: digits_no signs_no_digits)
  then show "CHR '')'' \<notin> set (open_row k base)" unfolding open_row_def m by (simp del: map_map)
qed

lemma read_tuples_rows:
  assumes "\<forall>r \<in> set rs. CHR '')'' \<notin> set r" and "CHR '')'' \<notin> set p" and "CHR ''$'' \<notin> set p"
  shows "read_tuples (p @ Join '', '' (map (\<lambda>r. r @ '')'') rs)) = map placeholders rs"
  using assms
proof (induction rs arbitrary: p rule: induct_list012)
  case 1
  then show ?case by (simp add: read_tuples_def Split_no_sep)
next
  case (2 r)
  then have "Split (CHR '')'') ((p @ r) @ CHR '')'' # []) = [p @ r, []]" by (subst Split_append) auto
  then show ?case using 2 by (simp add: read_tuples_def placeholders_skip)
next
  case (3 r r' rs)
  have "Split (CHR '')'') ((p @ r) @ CHR '')'' # s) = (p @ r) # Split (CHR '')'') s" for s
    using 3 by (subst Split_append) auto
  then have "read_tuples (p @ r @ '')'' @ s) = placeholders r # read_tuples s" for s
    using 3 by (simp add: read_tuples_def placeholders_skip)
  then show ?case using 3(2) [of "'', ''"] 3(3) by simp
qed

lemma read_valuePlaceholders:
  "read_tuples (valuePlaceholders k n) = map (\<lambda>i. map (\<lambda>j. i * k + 1 + j) [0..<k]) [0..<n]"
proof -
  have "valuePlaceholders k n = [] @ Join '', '' (map (\<lambda>r. r @ '')'') (map (\<lambda>i. open_row k (i * k + 1)) [0..<n]))"
    by (simp add: valuePlaceholders_def row_placeholders_def open_row_def o_def)
  then show ?thesis
    using read_tuples_rows [of "map (\<lambda>i. open_row k (i * k + 1)) [0..<n]" "[]"] open_row_facts by (simp add: o_def)
qed

lemma concat_blocks:
  assumes "\<forall>row \<in> set rows. length (f row) = k" and "i < length rows" and "j < k"
  shows "concat (map f rows) ! (i * k + j) = f (rows ! i) ! j"
  using assms
proof (induction rows arbitrary: i)
  case (Cons row rows)
  show ?case
  proof (cases i)
    case (Suc i')
    then have "i * k + j = length (f row) + (i' * k + j)" using Cons.prems by simp
    then show ?thesis using Cons Suc by (simp only: list.map concat.simps nth_append_length_plus) simp
  qed (use Cons.prems in \<open>simp add: nth_append\<close>)
qed simp

lemma bound_rows:
  assumes len: "\<forall>row \<in> set rows. length (f row) = k"
  shows "map (map (\<lambda>n. concat (map f rows) ! (n - 1))) (read_tuples (valuePlaceholders k (length rows))) = map f rows"
    and "set (concat (read_tuples (valuePlaceholders k (length rows)))) \<subseteq> {1..length (concat (map f rows))}"
proof -
  have row: "map (\<lambda>j. concat (map f rows) ! (i * k + j)) [0..<k] = f (rows ! i)" if "i < length rows" for i
    using that concat_blocks [OF len that] len by (intro nth_equalityI) (auto simp: nth_mem)
  have "map (\<lambda>i. map (\<lambda>j. concat (map f rows) ! (i * k + j)) [0..<k]) [0..<length rows] = map f rows"
    using row by (intro nth_equalityI) auto
  then show "map (map (\<lambda>n. concat (map f rows) ! (n - 1))) (read_tuples (valuePlaceholders k (length rows))) = map f rows"
    by (simp add: read_valuePlaceholders o_def)
  have "length (concat (map f rows)) = length rows * k"
    using len by (induction rows) auto
  moreover have "i * k + 1 + j \<le> length rows * k" if "i < length rows" "j < k" for i j
  proof -
    have "Suc i * k \<le> length rows * k" using that(1) by (intro mult_right_mono) auto
    then show ?thesis using that(2) by simp
  qed
  ultimately show "set (concat (read_tuples (valuePlaceholders k (length rows)))) \<subseteq> {1..length (concat (map f rows))}"
    by (auto simp: read_valuePlaceholders)
qed

section \<open>What is stored\<close>

text \<open>
  Without an error exactly these rows have been appended to exactly this table; with an error
  nothing is stored, except that a failed commit may have stored all of them.
\<close>

definition stored :: "'d db_view \<Rightarrow> string \<Rightarrow> sql_value list list \<Rightarrow> 'd \<Rightarrow> store_error option \<times> 'd \<Rightarrow> bool" where
  "stored v p rows d r \<longleftrightarrow>
     (fst r = None \<longrightarrow> committed v (snd r) = appended p rows (committed v d)) \<and>
     (fst r \<noteq> None \<longrightarrow> committed v (snd r) = committed v d \<or>
        fst r = Some CommitFailed \<and> committed v (snd r) = appended p rows (committed v d))"

lemma stored_nothing: "stored v p [] d (None, d)"
  by (simp add: stored_def appended_def)

lemma in_transaction_stored:
  assumes laws: "db_laws ops v" and p: "p \<in> {insert_records, insert_failed, insert_invalid}"
    and len: "\<forall>row \<in> set rows. length (f row) = k" and "0 < k" and "rows \<noteq> []"
  shows "stored v p (map f rows) d (in_transaction ops (p @ valuePlaceholders k (length rows)) (concat (map f rows)) d)"
proof -
  let ?s = "valuePlaceholders k (length rows)" and ?args = "concat (map f rows)"
  obtain b d1 where b: "db_begin ops d = (b, d1)" by fastforce
  obtain x d2 where x: "db_exec ops (p @ ?s) ?args d1 = (x, d2)" by fastforce
  obtain c d3 where c: "db_commit ops d2 = (c, d3)" by fastforce
  have ne: "?args \<noteq> []" using len assms(4,5) by (cases rows) auto
  have B: "committed v d1 = committed v d" "b \<Longrightarrow> pending v d1 = committed v d"
    using laws b unfolding db_laws_def by blast+
  have "exec_law v p ?s ?args d1 x d2" using laws p x bound_rows(2) [OF len] unfolding db_laws_def by blast
  then have X: "committed v d2 = committed v d1" "x \<Longrightarrow> pending v d2 = appended p (map f rows) (pending v d1)"
    by (simp_all add: exec_law_def bound_rows(1) [OF len] del: One_nat_def)
  have C: "c \<Longrightarrow> committed v d3 = pending v d2" "\<not> c \<Longrightarrow> committed v d3 \<in> {committed v d2, pending v d2}"
    using laws c unfolding db_laws_def by blast+
  have R: "committed v (db_rollback ops d2) = committed v d2" using laws unfolding db_laws_def by blast
  show ?thesis using B X C R ne
    by (auto simp: stored_def in_transaction_def execBatchInsert_def b x c)
qed

text \<open>
  C7: The store writes what it is given and nothing else: a call without error has appended, to
  its own table and in one transaction, exactly the rows of the records (those with an IMEI of 15
  digits whose payload can be encoded; invalid records all of them), every column at its
  parameter; a call with an error has appended none of them, or, after a failed commit, all.
\<close>

theorem store_rows:
  assumes "db_laws ops v"
  shows "stored v insert_records (map (record_values now) (prepareGPSRecordRows marshal records)) d
      (StoreRecords ops marshal now records d) \<and>
    stored v insert_failed (map (failed_values now) (prepareGPSFailedRecordRows marshal records targetServer errorMessage)) d
      (StoreFailedRecords ops marshal now records targetServer errorMessage d) \<and>
    stored v insert_invalid (map (invalid_values now) invalid) d (StoreInvalidRecords ops now invalid d)"
proof (intro conjI)
  note T = in_transaction_stored [OF assms]
  show "stored v insert_records (map (record_values now) (prepareGPSRecordRows marshal records)) d
      (StoreRecords ops marshal now records d)"
    using T [of insert_records "prepareGPSRecordRows marshal records" "record_values now" 4 d]
    by (auto simp: StoreRecords_def record_values_def Let_def stored_nothing)
  show "stored v insert_failed (map (failed_values now) (prepareGPSFailedRecordRows marshal records targetServer errorMessage)) d
      (StoreFailedRecords ops marshal now records targetServer errorMessage d)"
    using T [of insert_failed "prepareGPSFailedRecordRows marshal records targetServer errorMessage" "failed_values now" 6 d]
    by (auto simp: StoreFailedRecords_def failed_values_def Let_def stored_nothing prepareGPSFailedRecordRows_def)
  show "stored v insert_invalid (map (invalid_values now) invalid) d (StoreInvalidRecords ops now invalid d)"
    using T [of insert_invalid invalid "invalid_values now" 3 d]
    by (auto simp: StoreInvalidRecords_def invalid_values_def stored_nothing)
qed

section \<open>A database in memory\<close>

definition memory_ops :: "(tables \<times> tables) db_ops" where
  "memory_ops = \<lparr>
     db_begin = \<lambda>(c, p). (True, (c, c)),
     db_exec = \<lambda>q args (c, p). (case find (HasPrefix q) [insert_records, insert_failed, insert_invalid] of
         None \<Rightarrow> (False, (c, p))
       | Some t \<Rightarrow> (True, (c, appended t (map (map (\<lambda>n. args ! (n - 1))) (read_tuples (drop (length t) q))) p))),
     db_commit = \<lambda>(c, p). (True, (p, p)),
     db_rollback = \<lambda>(c, p). (c, c)\<rparr>"

definition memory_view :: "(tables \<times> tables) db_view" where
  "memory_view = \<lparr>committed = fst, pending = snd\<rparr>"

lemma insert_heads:
  "take 17 insert_records = ''INSERT INTO gps_r''" "take 17 insert_failed = ''INSERT INTO gps_f''"
  "take 17 insert_invalid = ''INSERT INTO gps_i''" "17 \<le> length insert_records" "17 \<le> length insert_failed"
  "17 \<le> length insert_invalid"
  by (simp_all add: insert_records_def insert_failed_def insert_invalid_def)

lemma HasPrefix_other: "17 \<le> length p \<Longrightarrow> 17 \<le> length t \<Longrightarrow> take 17 p \<noteq> take 17 t \<Longrightarrow> \<not> HasPrefix (t @ s) p"
  by (auto simp: HasPrefix_iff append_eq_append_conv2 take_append)

lemma find_table:
  assumes "t \<in> {insert_records, insert_failed, insert_invalid}"
  shows "find (HasPrefix (t @ s)) [insert_records, insert_failed, insert_invalid] = Some t"
proof -
  have "take 17 insert_records \<noteq> take 17 insert_failed" "take 17 insert_records \<noteq> take 17 insert_invalid"
    "take 17 insert_failed \<noteq> take 17 insert_invalid" by (simp_all add: insert_heads)
  then show ?thesis using assms insert_heads(4-6) HasPrefix_other by (auto simp: eq_commute)
qed

lemma memory_laws: "db_laws memory_ops memory_view"
proof -
  have "exec_law memory_view t s args d ok d'"
    if "t \<in> {insert_records, insert_failed, insert_invalid}" "db_exec memory_ops (t @ s) args d = (ok, d')" for t s args d ok d'
    using that(2) find_table [OF that(1), of s]
    by (cases d) (auto simp: memory_ops_def exec_law_def memory_view_def simp del: find.simps)
  then show ?thesis
    unfolding db_laws_def by (auto simp: memory_ops_def memory_view_def)
qed

definition sample_stored_record :: ParsedGPSData where
  "sample_stored_record = \<lparr>Coordinate = (Fin False 35, Fin False 51), Speed = 0, Status = 1, Directions = \<lparr>EW = 1, NS = 1\<rparr>,
     DateTime = ''2024-02-29 23:00:00'', IMEI = ''860000000000001'', RawData = []\<rparr>"

theorem store_rows_witness:
  "committed memory_view (snd (StoreRecords memory_ops (\<lambda>_. Some [1]) \<lparr>t_sec = 7, t_nsec = 0\<rparr>
      [sample_stored_record, sample_stored_record\<lparr>IMEI := ''123''\<rparr>] (\<lambda>_. [], \<lambda>_. []))) insert_records =
    [[SText ''860000000000001'', SText '' '', SBytes [1], STime \<lparr>t_sec = 7, t_nsec = 0\<rparr>]]"
proof -
  let ?rs = "[sample_stored_record, sample_stored_record\<lparr>IMEI := ''123''\<rparr>]" and ?now = "\<lparr>t_sec = 7, t_nsec = 0\<rparr> :: Time"
  have rows: "prepareGPSRecordRows (\<lambda>_. Some [1]) ?rs =
      [\<lparr>gr_imei = ''860000000000001'', gr_rawData = '' '', gr_parsedJSON = [1]\<rparr>]"
    by (simp add: sample_stored_record_def imeiPattern_def is_digit_def not_blank_def)
  have "fst (StoreRecords memory_ops (\<lambda>_. Some [1]) ?now ?rs (\<lambda>_. [], \<lambda>_. [])) = None"
    using find_table [of insert_records]
    by (simp add: StoreRecords_def rows in_transaction_def execBatchInsert_def memory_ops_def record_values_def del: find.simps)
  moreover have "stored memory_view insert_records (map (record_values ?now) (prepareGPSRecordRows (\<lambda>_. Some [1]) ?rs)) (\<lambda>_. [], \<lambda>_. [])
      (StoreRecords memory_ops (\<lambda>_. Some [1]) ?now ?rs (\<lambda>_. [], \<lambda>_. []))"
    using store_rows [OF memory_laws] by blast
  ultimately have "committed memory_view (snd (StoreRecords memory_ops (\<lambda>_. Some [1]) ?now ?rs (\<lambda>_. [], \<lambda>_. []))) =
      appended insert_records (map (record_values ?now) (prepareGPSRecordRows (\<lambda>_. Some [1]) ?rs)) (committed memory_view (\<lambda>_. [], \<lambda>_. []))"
    unfolding stored_def by blast
  then show ?thesis by (simp only: rows) (simp add: record_values_def appended_def memory_view_def)
qed

end
