(* ===== verification/Async_Writer.thy ===== *)
theory Async_Writer
  imports Postgres_Store Reachability "HOL-Library.Multiset"
begin

text \<open>
  The asynchronous writer (\<open>internal/storage/async_writer.go\<close>): a buffered channel of writes, one
  goroutine that stores them, detached goroutines for writes that find the buffer full, and the
  shutdown.
\<close>

section \<open>State\<close>

definition defaultWriteQueueSize :: int where
  "defaultWriteQueueSize = 10000"

datatype writeOp =
    writeOpSuccess "ParsedGPSData list"
  | writeOpFailed "ParsedGPSData list" string string
  | writeOpInvalid "(string \<times> string) list"

text \<open>
  The channel with its closed flag, the cancelled context, the detached senders, the write in
  progress, whether the writing goroutine has returned, and a panic; then the history of writes
  handed over, finished and abandoned.
\<close>

record 'd AsyncWriter =
  aw_ch :: "writeOp chan"
  aw_closed :: bool
  aw_cancelled :: bool
  aw_senders :: "writeOp list"
  aw_current :: "writeOp option"
  aw_returned :: bool
  aw_panicked :: bool
  aw_db :: 'd
  aw_given :: "writeOp list"
  aw_finished :: "writeOp list"
  aw_abandoned :: "writeOp list"

definition NewAsyncWriter :: "'d option \<Rightarrow> int \<Rightarrow> 'd AsyncWriter option" where
  "NewAsyncWriter store queueSize =
     (case store of
        None \<Rightarrow> None
      | Some d \<Rightarrow> Some \<lparr>aw_ch = make_chan (nat (if queueSize \<le> 0 then defaultWriteQueueSize else queueSize)), aw_closed = False,
          aw_cancelled = False, aw_senders = [], aw_current = None, aw_returned = False, aw_panicked = False, aw_db = d,
          aw_given = [], aw_finished = [], aw_abandoned = []\<rparr>)"

definition process_op ::
  "'d db_ops \<Rightarrow> (parsed_payload \<Rightarrow> u8 list option) \<Rightarrow> Time \<Rightarrow> writeOp \<Rightarrow> 'd \<Rightarrow> store_error option \<times> 'd" where
  "process_op ops marshal now op d =
     (case op of
        writeOpSuccess records \<Rightarrow> StoreRecords ops marshal now records d
      | writeOpFailed records targetServer errorMessage \<Rightarrow> StoreFailedRecords ops marshal now records targetServer errorMessage d
      | writeOpInvalid invalid \<Rightarrow> StoreInvalidRecords ops now invalid d)"

section \<open>Handing over\<close>

text \<open>
  What a \<open>select\<close> on sending and on the cancelled context may do: any of the ready cases.  A send on
  the closed channel is ready, and panics.
\<close>

datatype select_outcome = Sent | Abandoned | SendPanic | NoneReady

definition select_send :: "writeOp \<Rightarrow> 'd AsyncWriter \<Rightarrow> select_outcome set" where
  "select_send op w =
     (let ready = (if aw_closed w then {SendPanic} else if fst (try_send op (aw_ch w)) then {Sent} else {}) \<union>
            (if aw_cancelled w then {Abandoned} else {})
      in if ready = {} then {NoneReady} else ready)"

definition after_select :: "writeOp \<Rightarrow> select_outcome \<Rightarrow> 'd AsyncWriter \<Rightarrow> 'd AsyncWriter" where
  "after_select op out w =
     (case out of
        Sent \<Rightarrow> w\<lparr>aw_ch := snd (try_send op (aw_ch w))\<rparr>
      | Abandoned \<Rightarrow> w\<lparr>aw_abandoned := aw_abandoned w @ [op]\<rparr>
      | SendPanic \<Rightarrow> w\<lparr>aw_panicked := True\<rparr>
      | NoneReady \<Rightarrow> w\<lparr>aw_senders := aw_senders w @ [op]\<rparr>)"

fun op_empty :: "writeOp \<Rightarrow> bool" where
  "op_empty (writeOpSuccess records) = (records = [])"
| "op_empty (writeOpFailed records targetServer errorMessage) = (records = [])"
| "op_empty (writeOpInvalid invalid) = (invalid = [])"

text \<open>
  \<open>EnqueueSuccess\<close>, \<open>EnqueueFailed\<close> and \<open>EnqueueInvalid\<close>: an empty write is ignored; the default case
  of the first \<open>select\<close> starts a goroutine that waits in the second.
\<close>

definition enqueue_op :: "writeOp \<Rightarrow> select_outcome \<Rightarrow> 'd AsyncWriter \<Rightarrow> 'd AsyncWriter" where
  "enqueue_op op out w =
     (if op_empty op then w else after_select op out (w\<lparr>aw_given := aw_given w @ [op]\<rparr>))"

section \<open>Steps\<close>

inductive writer_step ::
  "'d db_ops \<Rightarrow> (parsed_payload \<Rightarrow> u8 list option) \<Rightarrow> 'd AsyncWriter \<Rightarrow> 'd AsyncWriter \<Rightarrow> bool" for ops marshal where
  give: "\<not> aw_panicked w \<Longrightarrow> out \<in> select_send op w \<Longrightarrow> writer_step ops marshal w (enqueue_op op out w)"
| resend: "\<not> aw_panicked w \<Longrightarrow> op \<in> set (aw_senders w) \<Longrightarrow> out \<in> select_send op w \<Longrightarrow> out \<noteq> NoneReady \<Longrightarrow>
    writer_step ops marshal w (after_select op out (w\<lparr>aw_senders := remove1 op (aw_senders w)\<rparr>))"
| receive: "\<not> aw_panicked w \<Longrightarrow> aw_current w = None \<Longrightarrow> \<not> aw_returned w \<Longrightarrow> try_recv (aw_ch w) = Some (op, ch) \<Longrightarrow>
    writer_step ops marshal w (w\<lparr>aw_ch := ch, aw_current := Some op\<rparr>)"
| store: "\<not> aw_panicked w \<Longrightarrow> aw_current w = Some op \<Longrightarrow> process_op ops marshal now op (aw_db w) = (err, d) \<Longrightarrow>
    writer_step ops marshal w (w\<lparr>aw_current := None, aw_db := d, aw_finished := aw_finished w @ [op]\<rparr>)"
| cancel: "\<not> aw_panicked w \<Longrightarrow> \<not> aw_cancelled w \<Longrightarrow> writer_step ops marshal w (w\<lparr>aw_cancelled := True\<rparr>)"
| close: "\<not> aw_panicked w \<Longrightarrow> aw_cancelled w \<Longrightarrow> \<not> aw_closed w \<Longrightarrow> writer_step ops marshal w (w\<lparr>aw_closed := True\<rparr>)"
| return: "\<not> aw_panicked w \<Longrightarrow> aw_closed w \<Longrightarrow> aw_current w = None \<Longrightarrow> try_recv (aw_ch w) = None \<Longrightarrow>
    writer_step ops marshal w (w\<lparr>aw_returned := True\<rparr>)"

abbreviation writer_reach ::
  "'d db_ops \<Rightarrow> (parsed_payload \<Rightarrow> u8 list option) \<Rightarrow> 'd AsyncWriter \<Rightarrow> 'd AsyncWriter \<Rightarrow> bool" where
  "writer_reach ops marshal w0 \<equiv> reachable ((=) w0) (writer_step ops marshal)"

section \<open>The invariant\<close>

abbreviation current :: "'d AsyncWriter \<Rightarrow> writeOp multiset" where
  "current w \<equiv> (case aw_current w of None \<Rightarrow> {#} | Some op \<Rightarrow> {#op#})"

definition accounted :: "writeOp multiset \<Rightarrow> 'd AsyncWriter \<Rightarrow> bool" where
  "accounted extra w \<longleftrightarrow> mset (aw_given w) = mset (queued (aw_ch w)) + mset (aw_senders w) + current w +
     mset (aw_finished w) + mset (aw_abandoned w) + extra"

definition flags_ok :: "'d AsyncWriter \<Rightarrow> bool" where
  "flags_ok w \<longleftrightarrow>
     (aw_abandoned w \<noteq> [] \<longrightarrow> aw_cancelled w) \<and> (aw_panicked w \<longrightarrow> aw_closed w) \<and> (aw_closed w \<longrightarrow> aw_cancelled w) \<and>
     (aw_returned w \<longrightarrow> aw_closed w \<and> aw_current w = None \<and> queued (aw_ch w) = [])"

definition writer_inv :: "'d AsyncWriter \<Rightarrow> bool" where
  "writer_inv w \<longleftrightarrow> (aw_panicked w \<or> accounted {#} w) \<and> flags_ok w"

lemma select_send_cases:
  "out \<in> select_send op w \<Longrightarrow>
    (out = Sent \<longrightarrow> \<not> aw_closed w \<and> fst (try_send op (aw_ch w))) \<and> (out = Abandoned \<longrightarrow> aw_cancelled w) \<and>
    (out = SendPanic \<longrightarrow> aw_closed w)"
  by (auto simp: select_send_def Let_def split: if_splits)

lemma select_send_frame:
  "aw_closed w' = aw_closed w \<Longrightarrow> aw_cancelled w' = aw_cancelled w \<Longrightarrow> aw_ch w' = aw_ch w \<Longrightarrow> select_send op w' = select_send op w"
  by (simp only: select_send_def)

lemma after_select_inv:
  assumes "out \<in> select_send op w" and "accounted {#op#} w" and "flags_ok w"
  shows "writer_inv (after_select op out w)"
proof (cases out)
  case Sent
  with select_send_cases [OF assms(1)] have "\<not> aw_closed w" "queued (snd (try_send op (aw_ch w))) = queued (aw_ch w) @ [op]"
    by (auto simp: try_send_def split: if_splits)
  with Sent assms(2,3) show ?thesis by (simp add: after_select_def writer_inv_def accounted_def flags_ok_def)
qed (use assms(2,3) select_send_cases [OF assms(1)] in
      \<open>auto simp: after_select_def writer_inv_def accounted_def flags_ok_def\<close>)

lemma writer_inv_step: "writer_step ops marshal w w' \<Longrightarrow> writer_inv w \<Longrightarrow> writer_inv w'"
proof (induction rule: writer_step.induct)
  case (give w out op)
  let ?w = "w\<lparr>aw_given := aw_given w @ [op]\<rparr>"
  have "out \<in> select_send op ?w" using give(2) by (subst select_send_frame [of ?w w]) simp_all
  moreover have "accounted {#op#} ?w" "flags_ok ?w"
    using give by (auto simp: writer_inv_def accounted_def flags_ok_def)
  ultimately have "writer_inv (after_select op out ?w)" by (rule after_select_inv)
  then show ?case using give by (simp add: enqueue_op_def)
next
  case (resend w op out)
  let ?w = "w\<lparr>aw_senders := remove1 op (aw_senders w)\<rparr>"
  have "out \<in> select_send op ?w" using resend(3) by (subst select_send_frame [of ?w w]) simp_all
  moreover have "mset (aw_senders w) = add_mset op (mset (remove1 op (aw_senders w)))" using resend(2) by simp
  then have "accounted {#op#} ?w" "flags_ok ?w"
    using resend by (auto simp: writer_inv_def accounted_def flags_ok_def)
  ultimately show ?case by (rule after_select_inv)
next
  case (receive w op ch)
  then have "queued (aw_ch w) = op # queued ch" by (simp add: try_recv_def split: list.splits) auto
  with receive show ?case by (auto simp: writer_inv_def accounted_def flags_ok_def)
next
  case (return w)
  then have "queued (aw_ch w) = []" by (simp add: try_recv_def split: list.splits)
  with return show ?case by (auto simp: writer_inv_def accounted_def flags_ok_def)
qed (auto simp: writer_inv_def accounted_def flags_ok_def)

interpretation writer: invariant_system "\<lambda>w. \<exists>d queueSize. NewAsyncWriter (Some d) queueSize = Some w" "writer_step ops marshal" writer_inv
  for ops :: "'d db_ops" and marshal
  by unfold_locales
    (auto simp: NewAsyncWriter_def writer_inv_def accounted_def flags_ok_def make_chan_def dest: writer_inv_step)

text \<open>
  C16: The writer loses nothing while it is open: every write handed over is in the channel, with a
  detached sender, in progress or finished, each exactly once.  Writes are abandoned only after
  \<open>Close\<close> has cancelled the context, and when the writing goroutine has returned without a panic
  every write is finished, abandoned or still with a detached sender.
\<close>

theorem writer_accounts:
  assumes "NewAsyncWriter (Some d) queueSize = Some w0" and "writer_reach ops marshal w0 w" and "\<not> aw_panicked w"
  shows "mset (aw_given w) = mset (queued (aw_ch w)) + mset (aw_senders w) +
      (case aw_current w of None \<Rightarrow> {#} | Some op \<Rightarrow> {#op#}) + mset (aw_finished w) + mset (aw_abandoned w) \<and>
    (\<not> aw_cancelled w \<longrightarrow> aw_abandoned w = []) \<and>
    (aw_returned w \<longrightarrow> mset (aw_given w) = mset (aw_senders w) + mset (aw_finished w) + mset (aw_abandoned w))"
proof -
  have "writer_inv w" using assms(1) by (intro writer.inv_from [OF assms(2)] writer.inv_init) blast
  then show ?thesis using assms(3) by (auto simp: writer_inv_def accounted_def flags_ok_def)
qed

text \<open>A database that refuses everything, and a writer of one place given two writes.\<close>

definition refusing_ops :: "unit db_ops" where
  "refusing_ops = \<lparr>db_begin = \<lambda>d. (False, d), db_exec = \<lambda>q args d. (False, d), db_commit = \<lambda>d. (False, d), db_rollback = \<lambda>d. d\<rparr>"

definition sample_writer :: "unit AsyncWriter" where
  "sample_writer = the (NewAsyncWriter (Some ()) 1)"

definition sample_write :: writeOp where
  "sample_write = writeOpInvalid [(''x'', ''y'')]"

lemma sample_writer_run:
  "writer_reach refusing_ops (\<lambda>_. None) sample_writer (enqueue_op sample_write NoneReady (enqueue_op sample_write Sent sample_writer))"
proof -
  have 1: "writer_step refusing_ops (\<lambda>_. None) sample_writer (enqueue_op sample_write Sent sample_writer)"
    by (rule give) (simp_all add: sample_writer_def NewAsyncWriter_def select_send_def make_chan_def try_send_def)
  have 2: "writer_step refusing_ops (\<lambda>_. None) (enqueue_op sample_write Sent sample_writer)
      (enqueue_op sample_write NoneReady (enqueue_op sample_write Sent sample_writer))"
    by (rule give) (simp_all add: sample_writer_def sample_write_def NewAsyncWriter_def select_send_def make_chan_def try_send_def
        enqueue_op_def after_select_def)
  note R = reach_step [where init = "(=) sample_writer" and step = "writer_step refusing_ops (\<lambda>_. None)"]
  show ?thesis by (rule R [OF R [OF reach_init [where init = "(=) sample_writer", OF refl] 1] 2])
qed

theorem writer_accounts_witness:
  "mset (aw_given (enqueue_op sample_write NoneReady (enqueue_op sample_write Sent sample_writer))) = {#sample_write, sample_write#} \<and>
   mset (aw_senders (enqueue_op sample_write NoneReady (enqueue_op sample_write Sent sample_writer))) = {#sample_write#}"
proof -
  let ?w = "enqueue_op sample_write NoneReady (enqueue_op sample_write Sent sample_writer)"
  have new: "NewAsyncWriter (Some ()) 1 = Some sample_writer" by (simp add: sample_writer_def NewAsyncWriter_def)
  note ev = sample_writer_def NewAsyncWriter_def sample_write_def enqueue_op_def after_select_def make_chan_def try_send_def
  have "\<not> aw_panicked ?w" and parts: "mset (queued (aw_ch ?w)) = {#sample_write#}" "mset (aw_senders ?w) = {#sample_write#}"
    "aw_current ?w = None" "aw_finished ?w = []" "aw_abandoned ?w = []"
    by (simp_all add: ev)
  from writer_accounts [OF new sample_writer_run this(1)] show ?thesis unfolding parts by simp
qed

text \<open>A detached sender that is still waiting when \<open>Close\<close> closes the channel may panic.\<close>

lemma sender_panics:
  assumes "aw_closed w" and "aw_senders w \<noteq> []" and "\<not> aw_panicked w"
  shows "\<exists>w'. writer_step ops marshal w w' \<and> aw_panicked w'"
proof (intro exI conjI)
  let ?op = "hd (aw_senders w)"
  have "SendPanic \<in> select_send ?op w" using assms(1) by (simp add: select_send_def)
  then show "writer_step ops marshal w (after_select ?op SendPanic (w\<lparr>aw_senders := remove1 ?op (aw_senders w)\<rparr>))"
    using assms by (intro resend) simp_all
qed (simp add: after_select_def)

end
