(* ===== verification/Record_Queries.thy ===== *)
theory Record_Queries
  imports Postgres_Store Api_Handler
begin

text \<open>
  Reading stored records: the queries of \<open>internal/storage/postgres.go\<close> with their limits, pages and
  date windows, and the handlers in front of them (\<open>analysis.go\<close>, \<open>path.go\<close>, \<open>failed.go\<close> and
  \<open>invalid.go\<close> of \<open>internal/api\<close>).  The database answers a statement and its arguments with rows of
  column values.
\<close>

section \<open>Dates in a location\<close>

text \<open>
  A location is its zone lookup: for an instant the offset in force, and the interval of instants
  for which it is in force.
\<close>

record Location =
  lc_lookup :: "int \<Rightarrow> int \<times> int \<times> int"

definition FixedZone :: "int \<Rightarrow> Location" where
  "FixedZone offset = \<lparr>lc_lookup = (\<lambda>_. (offset, - (2 ^ 63), 2 ^ 63 - 1))\<rparr>"

text \<open>The location of the handlers: the loaded \<open>Asia/Tehran\<close>, or a fixed zone.\<close>

definition tehranLocation :: "Location option \<Rightarrow> Location" where
  "tehranLocation loaded = (case loaded of Some loc \<Rightarrow> loc | None \<Rightarrow> FixedZone (3 * 3600 + 30 * 60))"

record ztime =
  zt_time :: Time
  zt_loc :: Location

definition UTC :: Location where
  "UTC = FixedZone 0"

text \<open>\<open>time.Date\<close> of a date in a location.\<close>

definition DateIn :: "Location \<Rightarrow> int \<Rightarrow> nat \<Rightarrow> int \<Rightarrow> ztime" where
  "DateIn loc y m d =
     (let unix = 86400 * days_of_date y m d; (offset, start, stop) = lc_lookup loc unix; utc = unix - offset;
          offset' = (if offset \<noteq> 0 \<and> (utc < start \<or> stop \<le> utc) then fst (lc_lookup loc utc) else offset)
      in \<lparr>zt_time = \<lparr>t_sec = unix - offset', t_nsec = 0\<rparr>, zt_loc = loc\<rparr>)"

text \<open>The layout \<open>2006-01-02\<close> of \<open>ParseInLocation\<close> and \<open>Format\<close>.\<close>

definition parse_dash :: "string \<Rightarrow> string option" where
  "parse_dash s = (case s of [] \<Rightarrow> None | c # r \<Rightarrow> if c = CHR ''-'' then Some r else None)"

definition parse_date :: "string \<Rightarrow> (int \<times> nat \<times> int) option" where
  "parse_date s0 =
     (if length s0 < 4 \<or> \<not> list_all is_digit (take 4 s0) then None
      else let year = foldl (\<lambda>n c. 10 * n + dval c) 0 (take 4 s0) in
        Option.bind (parse_dash (drop 4 s0)) (\<lambda>s1.
        Option.bind (range_num s1 True 1 13) (\<lambda>(month, s2).
        Option.bind (parse_dash s2) (\<lambda>s3.
        Option.bind (getnum s3 True) (\<lambda>(day, s4).
        if s4 \<noteq> [] \<or> day < 1 \<or> day > month_len (is_leap year) (nat month) then None
        else Some (year, nat month, day))))))"

definition parseQueryDate :: "Location \<Rightarrow> string \<Rightarrow> ztime option" where
  "parseQueryDate loc dateStr = map_option (\<lambda>(y, m, d). DateIn loc y m d) (parse_date dateStr)"

definition format_date :: "int \<Rightarrow> string" where
  "format_date n = (let (y, m, d) = date_of_days n in int_pad 4 y @ ''-'' @ pad 2 m @ ''-'' @ int_pad 2 d)"

definition FormatDate :: "ztime \<Rightarrow> string" where
  "FormatDate z = (let s = t_sec (zt_time z) in format_date ((s + fst (lc_lookup (zt_loc z) s)) div 86400))"

definition zt_Add :: "ztime \<Rightarrow> int \<Rightarrow> ztime" where
  "zt_Add z d = z\<lparr>zt_time := t_Add (zt_time z) d\<rparr>"

text \<open>The zero time is the first of January of the year 1.\<close>

definition zero_time :: ztime where
  "zero_time = \<lparr>zt_time = \<lparr>t_sec = - 62135596800, t_nsec = 0\<rparr>, zt_loc = UTC\<rparr>"

definition zt_IsZero :: "ztime \<Rightarrow> bool" where
  "zt_IsZero z \<longleftrightarrow> zt_time z = zt_time zero_time"

section \<open>Stored rows\<close>

record StoredRecord =
  rc_ID :: int
  rc_IMEI :: string
  rc_RawData :: string
  ParsedData :: "u8 list"
  CreatedAt :: Time

record FailedRecord =
  fr_ID :: int
  fr_IMEI :: string
  fr_RawData :: string
  fr_ParsedData :: "u8 list"
  fr_TargetServer :: string
  fr_ErrorMessage :: string
  FailedAt :: Time

record InvalidStoredRecord =
  ir_ID :: int
  ir_RawData :: string
  ErrorReason :: string
  ir_CreatedAt :: Time

record PathPoint =
  pt_ID :: int
  pt_IMEI :: string
  Lat :: float64
  Lng :: float64
  pt_Speed :: float64
  pt_Status :: int
  pt_DateTime :: string

record QueryFilter =
  qf_DateStart :: ztime
  qf_DateEnd :: ztime
  qf_IMEI :: string
  qf_Limit :: int

record PaginatedQueryFilter =
  pq_DateStart :: ztime
  pq_DateEnd :: ztime
  pq_Page :: int
  pq_Limit :: int

record PaginatedInvalidRecords =
  pi_Records :: "InvalidStoredRecord list"
  pi_Total :: int
  pi_Page :: int
  pi_Limit :: int

section \<open>Queries\<close>

datatype query_error = StoreNotInitialized | ImeiIsRequired | CountFailed | QueryFailed | ScanFailed | IterateFailed

text \<open>
  A query fails, or gives rows and then possibly an error of the iteration.  \<open>Scan\<close> accepts a row
  whose columns have the types of its targets.
\<close>

fun scan_rows :: "(sql_value list \<Rightarrow> 'a option) \<Rightarrow> sql_value list list \<Rightarrow> 'a list option" where
  "scan_rows scan [] = Some []"
| "scan_rows scan (row # rows) =
     (case scan row of None \<Rightarrow> None | Some x \<Rightarrow> map_option (Cons x) (scan_rows scan rows))"

definition read_rows :: "(sql_value list \<Rightarrow> 'a option) \<Rightarrow> (sql_value list list \<times> bool) option \<Rightarrow> (query_error, 'a list) result" where
  "read_rows scan answer =
     (case answer of
        None \<Rightarrow> Err QueryFailed
      | Some (rows, broken) \<Rightarrow>
          (case scan_rows scan rows of
             None \<Rightarrow> Err ScanFailed
           | Some xs \<Rightarrow> if broken then Err IterateFailed else Ok xs))"

fun as_int :: "sql_value \<Rightarrow> int option" where
  "as_int (SInt i) = Some i"
| "as_int _ = None"

fun as_text :: "sql_value \<Rightarrow> string option" where
  "as_text (SText s) = Some s"
| "as_text _ = None"

fun as_bytes :: "sql_value \<Rightarrow> u8 list option" where
  "as_bytes (SBytes bs) = Some bs"
| "as_bytes _ = None"

fun as_time :: "sql_value \<Rightarrow> Time option" where
  "as_time (STime t) = Some t"
| "as_time _ = None"

fun as_float :: "sql_value \<Rightarrow> float64 option" where
  "as_float (SFloat f) = Some f"
| "as_float _ = None"

definition scan_record :: "sql_value list \<Rightarrow> StoredRecord option" where
  "scan_record row =
     (if length row \<noteq> 5 then None
      else Option.bind (as_int (row ! 0)) (\<lambda>i. Option.bind (as_text (row ! 1)) (\<lambda>imei.
        Option.bind (as_text (row ! 2)) (\<lambda>raw. Option.bind (as_bytes (row ! 3)) (\<lambda>parsed.
        Option.bind (as_time (row ! 4)) (\<lambda>created.
        Some \<lparr>rc_ID = i, rc_IMEI = imei, rc_RawData = raw, ParsedData = parsed, CreatedAt = created\<rparr>))))))"

definition scan_failed :: "sql_value list \<Rightarrow> FailedRecord option" where
  "scan_failed row =
     (if length row \<noteq> 7 then None
      else Option.bind (as_int (row ! 0)) (\<lambda>i. Option.bind (as_text (row ! 1)) (\<lambda>imei.
        Option.bind (as_text (row ! 2)) (\<lambda>raw. Option.bind (as_bytes (row ! 3)) (\<lambda>parsed.
        Option.bind (as_text (row ! 4)) (\<lambda>server. Option.bind (as_text (row ! 5)) (\<lambda>msg.
        Option.bind (as_time (row ! 6)) (\<lambda>failed.
        Some \<lparr>fr_ID = i, fr_IMEI = imei, fr_RawData = raw, fr_ParsedData = parsed, fr_TargetServer = server,
              fr_ErrorMessage = msg, FailedAt = failed\<rparr>))))))))"

definition scan_invalid :: "sql_value list \<Rightarrow> InvalidStoredRecord option" where
  "scan_invalid row =
     (if length row \<noteq> 4 then None
      else Option.bind (as_int (row ! 0)) (\<lambda>i. Option.bind (as_text (row ! 1)) (\<lambda>raw.
        Option.bind (as_text (row ! 2)) (\<lambda>reason. Option.bind (as_time (row ! 3)) (\<lambda>created.
        Some \<lparr>ir_ID = i, ir_RawData = raw, ErrorReason = reason, ir_CreatedAt = created\<rparr>)))))"

definition scan_point :: "sql_value list \<Rightarrow> PathPoint option" where
  "scan_point row =
     (if length row \<noteq> 7 then None
      else Option.bind (as_int (row ! 0)) (\<lambda>i. Option.bind (as_text (row ! 1)) (\<lambda>imei.
        Option.bind (as_float (row ! 2)) (\<lambda>lat. Option.bind (as_float (row ! 3)) (\<lambda>lng.
        Option.bind (as_float (row ! 4)) (\<lambda>speed. Option.bind (as_int (row ! 5)) (\<lambda>status.
        Option.bind (as_text (row ! 6)) (\<lambda>dt.
        Some \<lparr>pt_ID = i, pt_IMEI = imei, Lat = lat, Lng = lng, pt_Speed = speed, pt_Status = status, pt_DateTime = dt\<rparr>))))))))"

text \<open>
  The statements, by the parts the code puts into them: whether the clause on the IMEI is there,
  the limit in the text, whether the clause on the dates is there and the numbers of the
  parameters of limit and offset.
\<close>

datatype statement =
    SelectRecords bool int
  | SelectFailed bool int
  | SelectPath int
  | CountInvalid bool
  | SelectInvalid bool nat nat

type_synonym 'd query_op = "statement \<Rightarrow> sql_value list \<Rightarrow> 'd \<Rightarrow> (sql_value list list \<times> bool) option"

definition midnight :: "ztime \<Rightarrow> string" where
  "midnight z = FormatDate z @ '' 00:00:00''"

definition query_args :: "QueryFilter \<Rightarrow> sql_value list" where
  "query_args f = [SText (midnight (qf_DateStart f)), SText (midnight (qf_DateEnd f))] @
     (if qf_IMEI f \<noteq> [] then [SText (qf_IMEI f)] else [])"

definition QueryRecords :: "'d query_op \<Rightarrow> 'd option \<Rightarrow> QueryFilter \<Rightarrow> (query_error, StoredRecord list) result" where
  "QueryRecords query store f =
     (case store of
        None \<Rightarrow> Err StoreNotInitialized
      | Some d \<Rightarrow> (let limit = (if qf_Limit f \<le> 0 then 5000 else qf_Limit f) in
          read_rows scan_record (query (SelectRecords (qf_IMEI f \<noteq> []) limit) (query_args f) d)))"

definition QueryFailedRecords :: "'d query_op \<Rightarrow> 'd option \<Rightarrow> QueryFilter \<Rightarrow> (query_error, FailedRecord list) result" where
  "QueryFailedRecords query store f =
     (case store of
        None \<Rightarrow> Err StoreNotInitialized
      | Some d \<Rightarrow> (let limit = (if qf_Limit f \<le> 0 then 5000 else qf_Limit f) in
          read_rows scan_failed (query (SelectFailed (qf_IMEI f \<noteq> []) limit) (query_args f) d)))"

definition path_limit :: "int \<Rightarrow> int" where
  "path_limit limit = (let l = (if limit \<le> 0 then 50000 else limit) in if l > 200000 then 200000 else l)"

definition QueryPathPoints :: "'d query_op \<Rightarrow> 'd option \<Rightarrow> QueryFilter \<Rightarrow> (query_error, PathPoint list) result" where
  "QueryPathPoints query store f =
     (case store of
        None \<Rightarrow> Err StoreNotInitialized
      | Some d \<Rightarrow>
          if qf_IMEI f = [] then Err ImeiIsRequired
          else read_rows scan_point (query (SelectPath (path_limit (qf_Limit f)))
                 [SText (qf_IMEI f), SText (midnight (qf_DateStart f)), SText (midnight (qf_DateEnd f))] d))"

text \<open>
  The page of invalid records: the count and the rows are read by two statements, in the states
  \<open>d\<close> and \<open>d'\<close> of the database.
\<close>

definition page_limit :: "int \<Rightarrow> int" where
  "page_limit limit = (let l = (if limit \<le> 0 then 50 else limit) in if l > 500 then 500 else l)"

definition has_dates :: "PaginatedQueryFilter \<Rightarrow> bool" where
  "has_dates f \<longleftrightarrow> \<not> zt_IsZero (pq_DateStart f) \<and> \<not> zt_IsZero (pq_DateEnd f)"

definition date_args :: "PaginatedQueryFilter \<Rightarrow> sql_value list" where
  "date_args f = (if has_dates f then [STime (zt_time (pq_DateStart f)), STime (zt_time (pq_DateEnd f))] else [])"

definition max_page :: "int \<Rightarrow> int \<Rightarrow> int" where
  "max_page n limit = (let m = (n + limit - 1) div limit in if m < 1 then 1 else m)"

definition QueryInvalidRecords ::
  "'d query_op \<Rightarrow> ('d \<times> 'd) option \<Rightarrow> PaginatedQueryFilter \<Rightarrow> (query_error, PaginatedInvalidRecords) result" where
  "QueryInvalidRecords query store f =
     (case store of
        None \<Rightarrow> Err StoreNotInitialized
      | Some (d, d') \<Rightarrow>
          (let limit = page_limit (pq_Limit f);
               page = (if pq_Page f < 1 then 1 else pq_Page f)
           in case query (CountInvalid (has_dates f)) (date_args f) d of
                Some ((SInt n # _) # _, _) \<Rightarrow>
                  (let maxPage = max_page n limit;
                       page' = (if page > maxPage then maxPage else page);
                       offset = (page' - 1) * limit;
                       args = date_args f
                   in andThen (read_rows scan_invalid
                          (query (SelectInvalid (has_dates f) (length args + 1) (length args + 2))
                             (args @ [SInt limit, SInt offset]) d'))
                        (\<lambda>records. Ok \<lparr>pi_Records = records, pi_Total = n, pi_Page = page', pi_Limit = limit\<rparr>))
              | _ \<Rightarrow> Err CountFailed))"

section \<open>The meaning of the statements\<close>

text \<open>
  What is relied on in PostgreSQL: the operators on JSON documents and the casts, as arguments,
  and for each statement the rows it selects from the tables.  A statement without ties in its
  \<open>ORDER BY\<close> has one answer, otherwise any order of the ties.
\<close>

record jsonb =
  jb_text :: "u8 list \<Rightarrow> string \<Rightarrow> string option"
  jb_has :: "u8 list \<Rightarrow> string \<Rightarrow> bool"
  jb_item :: "u8 list \<Rightarrow> string \<Rightarrow> nat \<Rightarrow> string option"
  jb_double :: "string \<Rightarrow> float64"
  jb_bigint :: "string \<Rightarrow> int"

record 'd table_view =
  tv_records :: "'d \<Rightarrow> StoredRecord list"
  tv_failed :: "'d \<Rightarrow> FailedRecord list"
  tv_invalid :: "'d \<Rightarrow> InvalidStoredRecord list"

definition ordered :: "('a \<Rightarrow> 'a \<Rightarrow> bool) \<Rightarrow> 'a list \<Rightarrow> 'a list \<Rightarrow> bool" where
  "ordered lt ms xs \<longleftrightarrow> mset xs = mset ms \<and> sorted_wrt (\<lambda>a b. \<not> lt b a) xs"

definition newer :: "('a \<Rightarrow> Time) \<Rightarrow> 'a \<Rightarrow> 'a \<Rightarrow> bool" where
  "newer key a b \<longleftrightarrow> key b < key a"

text \<open>The window on the device's date, and the clause on the IMEI; a comparison with \<open>NULL\<close> is not true.\<close>

fun in_window :: "sql_value list \<Rightarrow> string option \<Rightarrow> bool" where
  "in_window (SText start # SText stop # _) (Some dt) \<longleftrightarrow> start \<le> dt \<and> dt < stop"
| "in_window _ _ \<longleftrightarrow> False"

fun imei_clause :: "bool \<Rightarrow> sql_value list \<Rightarrow> string \<Rightarrow> bool" where
  "imei_clause False _ imei \<longleftrightarrow> True"
| "imei_clause True [_, _, SText i] imei \<longleftrightarrow> imei = i"
| "imei_clause True _ imei \<longleftrightarrow> False"

definition selected_records :: "jsonb \<Rightarrow> bool \<Rightarrow> sql_value list \<Rightarrow> StoredRecord list \<Rightarrow> StoredRecord list" where
  "selected_records j by_imei args rows =
     filter (\<lambda>r. in_window args (jb_text j (ParsedData r) ''date_time'') \<and> imei_clause by_imei args (rc_IMEI r)) rows"

definition selected_failed :: "jsonb \<Rightarrow> bool \<Rightarrow> sql_value list \<Rightarrow> FailedRecord list \<Rightarrow> FailedRecord list" where
  "selected_failed j by_imei args rows =
     filter (\<lambda>r. in_window args (jb_text j (fr_ParsedData r) ''date_time'') \<and> imei_clause by_imei args (fr_IMEI r)) rows"

fun selected_invalid :: "bool \<Rightarrow> sql_value list \<Rightarrow> InvalidStoredRecord list \<Rightarrow> InvalidStoredRecord list" where
  "selected_invalid True (STime start # STime stop # _) rows =
     filter (\<lambda>r. start \<le> ir_CreatedAt r \<and> ir_CreatedAt r < stop) rows"
| "selected_invalid True _ rows = []"
| "selected_invalid False _ rows = rows"

text \<open>
  The path: the columns of \<open>base\<close>, the flag of the row before it in the window order, and the rows
  that are not a stop after a stop.
\<close>

record path_row =
  pr_id :: int
  pr_imei :: string
  pr_date_time :: string
  pr_lat :: "float64 option"
  pr_lng :: "float64 option"
  pr_speed :: float64
  pr_status :: int

definition nullif_empty :: "string option \<Rightarrow> string option" where
  "nullif_empty s = (if s = Some [] then None else s)"

definition base_row :: "jsonb \<Rightarrow> StoredRecord \<Rightarrow> path_row" where
  "base_row j r = \<lparr>pr_id = rc_ID r, pr_imei = rc_IMEI r,
     pr_date_time = (case jb_text j (ParsedData r) ''date_time'' of Some dt \<Rightarrow> dt | None \<Rightarrow> []),
     pr_lat = map_option (jb_double j) (jb_item j (ParsedData r) ''coordinate'' 0),
     pr_lng = map_option (jb_double j) (jb_item j (ParsedData r) ''coordinate'' 1),
     pr_speed = (case map_option (jb_double j) (nullif_empty (jb_text j (ParsedData r) ''speed'')) of Some v \<Rightarrow> v | None \<Rightarrow> Fin False 0),
     pr_status = (case map_option (jb_bigint j) (nullif_empty (jb_text j (ParsedData r) ''status'')) of Some v \<Rightarrow> v | None \<Rightarrow> 0)\<rparr>"

fun base_rows :: "jsonb \<Rightarrow> sql_value list \<Rightarrow> StoredRecord list \<Rightarrow> path_row list" where
  "base_rows j (SText imei # window) rows =
     map (base_row j) (filter (\<lambda>r. rc_IMEI r = imei \<and> in_window window (jb_text j (ParsedData r) ''date_time'') \<and>
       jb_has j (ParsedData r) ''coordinate'') rows)"
| "base_rows j _ rows = []"

definition path_less :: "path_row \<Rightarrow> path_row \<Rightarrow> bool" where
  "path_less a b \<longleftrightarrow> pr_date_time a < pr_date_time b \<or> pr_date_time a = pr_date_time b \<and> pr_id a < pr_id b"

definition is_stop :: "path_row \<Rightarrow> bool" where
  "is_stop r \<longleftrightarrow> (case pr_speed r of Fin _ q \<Rightarrow> q = 0 | _ \<Rightarrow> False)"

definition lag_stop :: "path_row list \<Rightarrow> bool list" where
  "lag_stop rows = take (length rows) (False # map is_stop rows)"

definition path_points :: "path_row list \<Rightarrow> path_row list" where
  "path_points rows = map fst (filter (\<lambda>(r, prev_is_stop). \<not> (is_stop r \<and> prev_is_stop)) (zip rows (lag_stop rows)))"

definition SFloat_or_null :: "float64 option \<Rightarrow> sql_value" where
  "SFloat_or_null v = (case v of Some f \<Rightarrow> SFloat f | None \<Rightarrow> SNull)"

definition point_columns :: "path_row \<Rightarrow> sql_value list" where
  "point_columns r = [SInt (pr_id r), SText (pr_imei r), SFloat_or_null (pr_lat r), SFloat_or_null (pr_lng r),
     SFloat (pr_speed r), SInt (pr_status r), SText (pr_date_time r)]"

definition record_columns :: "StoredRecord \<Rightarrow> sql_value list" where
  "record_columns r = [SInt (rc_ID r), SText (rc_IMEI r), SText (rc_RawData r), SBytes (ParsedData r), STime (CreatedAt r)]"

definition failed_columns :: "FailedRecord \<Rightarrow> sql_value list" where
  "failed_columns r = [SInt (fr_ID r), SText (fr_IMEI r), SText (fr_RawData r), SBytes (fr_ParsedData r),
     SText (fr_TargetServer r), SText (fr_ErrorMessage r), STime (FailedAt r)]"

definition invalid_columns :: "InvalidStoredRecord \<Rightarrow> sql_value list" where
  "invalid_columns r = [SInt (ir_ID r), SText (ir_RawData r), SText (ErrorReason r), STime (ir_CreatedAt r)]"

fun nat_arg :: "sql_value list \<Rightarrow> nat \<Rightarrow> nat" where
  "nat_arg args n = (case args ! (n - 1) of SInt i \<Rightarrow> nat i | _ \<Rightarrow> 0)"

fun answers :: "jsonb \<Rightarrow> 'd table_view \<Rightarrow> 'd \<Rightarrow> statement \<Rightarrow> sql_value list \<Rightarrow> sql_value list list \<Rightarrow> bool" where
  "answers j v d (SelectRecords by_imei limit) args rows \<longleftrightarrow>
     (\<exists>xs. ordered (newer CreatedAt) (selected_records j by_imei args (tv_records v d)) xs \<and>
        rows = map record_columns (take (nat limit) xs))"
| "answers j v d (SelectFailed by_imei limit) args rows \<longleftrightarrow>
     (\<exists>xs. ordered (newer FailedAt) (selected_failed j by_imei args (tv_failed v d)) xs \<and>
        rows = map failed_columns (take (nat limit) xs))"
| "answers j v d (SelectPath limit) args rows \<longleftrightarrow>
     (\<exists>xs. ordered path_less (base_rows j args (tv_records v d)) xs \<and>
        rows = map point_columns (take (nat limit) (path_points xs)))"
| "answers j v d (CountInvalid by_date) args rows \<longleftrightarrow>
     rows = [[SInt (int (length (selected_invalid by_date args (tv_invalid v d))))]]"
| "answers j v d (SelectInvalid by_date l off) args rows \<longleftrightarrow>
     (\<exists>xs. ordered (newer ir_CreatedAt) (selected_invalid by_date args (tv_invalid v d)) xs \<and>
        rows = map invalid_columns (take (nat_arg args l) (drop (nat_arg args off) xs)))"

definition query_laws :: "'d query_op \<Rightarrow> jsonb \<Rightarrow> 'd table_view \<Rightarrow> bool" where
  "query_laws query j v \<longleftrightarrow>
     (\<forall>st args d rows. query st args d = Some (rows, False) \<longrightarrow> answers j v d st args rows) \<and>
     (\<forall>by_date args d row rows b. query (CountInvalid by_date) args d = Some (row # rows, b) \<longrightarrow>
        answers j v d (CountInvalid by_date) args [row])"

section \<open>The handlers\<close>

definition imeiQueryPattern :: "string \<Rightarrow> bool" where
  "imeiQueryPattern s \<longleftrightarrow> length s = 15 \<and> list_all is_digit s"

datatype query_body =
    QueryErrorBody api_error
  | RecordsBody "StoredRecord list" nat string string
  | FailedRecordsBody "FailedRecord list" nat string string
  | PathBody "PathPoint list" nat string string
  | InvalidRecordsBody "InvalidStoredRecord list" int int int

definition QueryGPSRecords :: "Location \<Rightarrow> 'd query_op \<Rightarrow> 'd option \<Rightarrow> request \<Rightarrow> query_body response" where
  "QueryGPSRecords loc query store rq =
     (if store = None then reply 503 (QueryErrorBody StorageNotEnabled)
      else let dateStr = Query rq ''date'' in
        if dateStr = [] then reply 400 (QueryErrorBody DateRequired)
        else case parseQueryDate loc dateStr of
          None \<Rightarrow> reply 400 (QueryErrorBody DateInvalid)
        | Some day \<Rightarrow> (let imei = Query rq ''imei'' in
            if imei \<noteq> [] \<and> \<not> imeiQueryPattern imei then reply 400 (QueryErrorBody ImeiInvalid)
            else case QueryRecords query store
                \<lparr>qf_DateStart = day, qf_DateEnd = zt_Add day (24 * Hour), qf_IMEI = imei, qf_Limit = 5000\<rparr> of
              Ok records \<Rightarrow> reply 200 (RecordsBody records (length records) dateStr imei)
            | _ \<Rightarrow> reply 500 (QueryErrorBody QueryError)))"

definition QueryFailedGPSRecords :: "Location \<Rightarrow> 'd query_op \<Rightarrow> 'd option \<Rightarrow> request \<Rightarrow> query_body response" where
  "QueryFailedGPSRecords loc query store rq =
     (if store = None then reply 503 (QueryErrorBody StorageNotEnabled)
      else let dateStr = Query rq ''date'' in
        if dateStr = [] then reply 400 (QueryErrorBody DateRequired)
        else case parseQueryDate loc dateStr of
          None \<Rightarrow> reply 400 (QueryErrorBody DateInvalid)
        | Some day \<Rightarrow> (let imei = Query rq ''imei'' in
            if imei \<noteq> [] \<and> \<not> imeiQueryPattern imei then reply 400 (QueryErrorBody ImeiInvalid)
            else case QueryFailedRecords query store
                \<lparr>qf_DateStart = day, qf_DateEnd = zt_Add day (24 * Hour), qf_IMEI = imei, qf_Limit = 5000\<rparr> of
              Ok records \<Rightarrow> reply 200 (FailedRecordsBody records (length records) dateStr imei)
            | _ \<Rightarrow> reply 500 (QueryErrorBody QueryError)))"

definition QueryGPSPath :: "Location \<Rightarrow> 'd query_op \<Rightarrow> 'd option \<Rightarrow> request \<Rightarrow> query_body response" where
  "QueryGPSPath loc query store rq =
     (if store = None then reply 503 (QueryErrorBody StorageNotEnabled)
      else let dateStr = Query rq ''date'' in
        if dateStr = [] then reply 400 (QueryErrorBody DateRequired)
        else case parseQueryDate loc dateStr of
          None \<Rightarrow> reply 400 (QueryErrorBody DateInvalid)
        | Some day \<Rightarrow> (let imei = Query rq ''imei'' in
            if imei = [] then reply 400 (QueryErrorBody ImeiRequired)
            else if \<not> imeiQueryPattern imei then reply 400 (QueryErrorBody ImeiInvalid)
            else case QueryPathPoints query store
                \<lparr>qf_DateStart = day, qf_DateEnd = zt_Add day (24 * Hour), qf_IMEI = imei, qf_Limit = 50000\<rparr> of
              Ok points \<Rightarrow> reply 200 (PathBody points (length points) dateStr imei)
            | _ \<Rightarrow> reply 500 (QueryErrorBody QueryError)))"

definition DefaultQuery :: "request \<Rightarrow> string \<Rightarrow> string \<Rightarrow> string" where
  "DefaultQuery rq key def = (case rq_query rq key of Some v \<Rightarrow> v | None \<Rightarrow> def)"

definition invalid_reply :: "(query_error, PaginatedInvalidRecords) result \<Rightarrow> query_body response" where
  "invalid_reply r =
     (case r of
        Ok p \<Rightarrow> reply 200 (InvalidRecordsBody (pi_Records p) (pi_Total p) (pi_Page p) (pi_Limit p))
      | _ \<Rightarrow> reply 500 (QueryErrorBody QueryError))"

definition QueryInvalidGPSRecords :: "Location \<Rightarrow> 'd query_op \<Rightarrow> ('d \<times> 'd) option \<Rightarrow> request \<Rightarrow> query_body response" where
  "QueryInvalidGPSRecords loc query store rq =
     (if store = None then reply 503 (QueryErrorBody StorageNotEnabled)
      else let page = fst (Atoi (DefaultQuery rq ''page'' ''1'')); limit = fst (Atoi (DefaultQuery rq ''limit'' ''50''));
               f = \<lparr>pq_DateStart = zero_time, pq_DateEnd = zero_time, pq_Page = page, pq_Limit = limit\<rparr>;
               dateStr = Query rq ''date''
           in if dateStr = [] then invalid_reply (QueryInvalidRecords query store f)
              else case parseQueryDate loc dateStr of
                None \<Rightarrow> reply 400 (QueryErrorBody DateInvalid)
              | Some day \<Rightarrow> invalid_reply (QueryInvalidRecords query store
                  (f\<lparr>pq_DateStart := day, pq_DateEnd := zt_Add day (24 * Hour)\<rparr>)))"

end
