(* ===== verification/Query_Properties.thy ===== *)
theory Query_Properties
  imports Record_Queries Gps_Parser_Facts Stoppage_Filter
begin

text \<open>
  What the queries answer: the records of a day, the pages of the invalid records and the path of
  a device, each down to the rows of the tables.
\<close>

section \<open>Rows read back\<close>

lemma scan_columns:
  "scan_record (record_columns r) = Some r" "scan_failed (failed_columns f) = Some f" "scan_invalid (invalid_columns i) = Some i"
  by (simp_all add: scan_record_def record_columns_def scan_failed_def failed_columns_def scan_invalid_def invalid_columns_def)

lemma scan_rows_columns: "(\<And>x. scan (cols x) = Some x) \<Longrightarrow> scan_rows scan (map cols xs) = Some xs"
  by (induction xs) simp_all

lemmas read_columns = scan_rows_columns [of scan_record record_columns, OF scan_columns(1)]
  scan_rows_columns [of scan_failed failed_columns, OF scan_columns(2)]
  scan_rows_columns [of scan_invalid invalid_columns, OF scan_columns(3)]

lemma read_rows_OkD: "read_rows scan answer = Ok xs \<Longrightarrow> \<exists>rows. answer = Some (rows, False) \<and> scan_rows scan rows = Some xs"
  by (auto simp: read_rows_def split: option.splits if_splits)

lemma query_lawsD: "query_laws query j v \<Longrightarrow> query st args d = Some (rows, False) \<Longrightarrow> answers j v d st args rows"
  unfolding query_laws_def by blast

section \<open>Dates as strings\<close>

lemma dval_range:
  assumes "is_digit c"
  shows "0 \<le> dval c \<and> dval c < 10 \<and> digit_char (nat (dval c)) = c"
proof -
  have "dval c = int (of_char c) - 48" unfolding dval_def by (simp only: of_nat_of_char)
  then show ?thesis using assms by (auto simp: is_digit_def digit_char_def nat_diff_distrib)
qed

lemma digits_foldl:
  assumes "list_all is_digit ds"
  shows "0 \<le> foldl (\<lambda>n c. 10 * n + dval c) 0 ds \<and> foldl (\<lambda>n c. 10 * n + dval c) 0 ds < 10 ^ length ds \<and>
    fixed_digits (length ds) (nat (foldl (\<lambda>n c. 10 * n + dval c) 0 ds)) = ds"
  using assms
proof (induction ds rule: rev_induct)
  case (snoc c ds)
  let ?n = "foldl (\<lambda>n c. 10 * n + dval c) 0 ds"
  have n: "0 \<le> ?n" "?n < 10 ^ length ds" "fixed_digits (length ds) (nat ?n) = ds" using snoc by auto
  have c: "0 \<le> dval c" "dval c < 10" "digit_char (nat (dval c)) = c" using snoc.prems dval_range [of c] by auto
  have "nat (10 * ?n + dval c) = 10 * nat ?n + nat (dval c)" using n(1) c(1) by simp
  moreover have "10 * ?n + dval c < 10 ^ Suc (length ds)" using n(2) c(2) by simp
  ultimately show ?case using n c by simp
qed simp

lemma getnum_fixed:
  assumes "getnum s True = Some (n, r)"
  shows "0 \<le> n \<and> n < 100 \<and> s = fixed_digits 2 (nat n) @ r"
proof -
  from assms have l: "1 < length s" and ds: "is_digit (s ! 0)" "is_digit (s ! 1)" and n: "n = 10 * dval (s ! 0) + dval (s ! 1)" "r = drop 2 s"
    by (auto simp: getnum_def is_digit_at_def is_digit_def split: if_splits)
  obtain a b where s: "s = a # b # r" using l n(2) by (cases s; cases "tl s") auto
  show ?thesis using digits_foldl [of "[a, b]"] ds n(1) unfolding s by (simp add: numeral_2_eq_2)
qed

lemma parse_dash_eq: "parse_dash s = Some r \<Longrightarrow> s = ''-'' @ r"
  by (auto simp: parse_dash_def split: list.splits if_splits)

lemma format_date_fixed:
  assumes "0 \<le> year_of n" "year_of n \<le> 9999" "date_of_days n = (y, m, d)"
  shows "format_date n = fixed_digits 4 (nat y) @ ''-'' @ fixed_digits 2 m @ ''-'' @ fixed_digits 2 (nat d)"
proof -
  note D = date_of_days [OF assms(3)]
  have y: "0 \<le> y" "y \<le> 9999" using assms(1,2) D(3) by simp_all
  have md: "1 \<le> m" "m \<le> 12" "1 \<le> d" "d \<le> 31"
    using D(1) month_len_le [of "is_leap y" m] by (auto simp: valid_date_def)
  have p: "int_pad k i = fixed_digits k (nat i)" if "0 \<le> i" "i < 10 ^ k" "0 < k" for i k
    using that by (simp add: int_pad_def pad_fixed nat_less_iff)
  show ?thesis using y md by (simp only: format_date_def assms(3) Let_def prod.case) (simp add: p pad_fixed)
qed

lemma parse_date_format:
  assumes "parse_date s = Some (y, m, d)"
  shows "valid_date y m d \<and> 0 \<le> y \<and> y \<le> 9999 \<and> format_date (days_of_date y m d) = s \<and> length s = 10"
proof -
  let ?y = "take 4 s"
  obtain s1 mo s2 s3 where p: "4 \<le> length s" "list_all is_digit ?y" "y = foldl (\<lambda>n c. 10 * n + dval c) 0 ?y"
    "parse_dash (drop 4 s) = Some s1" "range_num s1 True 1 13 = Some (mo, s2)" "parse_dash s2 = Some s3"
    "getnum s3 True = Some (d, [])" "1 \<le> d" "d \<le> month_len (is_leap y) (nat mo)" "m = nat mo"
    using assms by (auto simp: parse_date_def Let_def bind_eq_Some_conv split: if_splits)
  have mo: "getnum s1 True = Some (mo, s2)" "1 \<le> mo" "mo < 13" using p(5) by (auto simp: range_num_def split: option.splits if_splits)
  have y: "0 \<le> y" "y \<le> 9999" "?y = fixed_digits 4 (nat y)"
    using digits_foldl [OF p(2)] p(1) unfolding p(3) by auto
  have v: "valid_date y m d" using mo p(8-10) by (auto simp: valid_date_def)
  have "s = ?y @ drop 4 s" by simp
  also have "\<dots> = fixed_digits 4 (nat y) @ ''-'' @ fixed_digits 2 (nat mo) @ ''-'' @ fixed_digits 2 (nat d)"
    using y(3) parse_dash_eq [OF p(4)] getnum_fixed [OF mo(1)] parse_dash_eq [OF p(6)] getnum_fixed [OF p(7)] by simp
  finally have s: "s = fixed_digits 4 (nat y) @ ''-'' @ fixed_digits 2 (nat mo) @ ''-'' @ fixed_digits 2 (nat d)" .
  have dd: "date_of_days (days_of_date y m d) = (y, m, d)" using v by (rule date_of_days_of_date)
  have "year_of (days_of_date y m d) = y" using date_of_days(3) [OF dd] by simp
  then have "format_date (days_of_date y m d) = s" using format_date_fixed [OF _ _ dd] y s p(10) by simp
  then show ?thesis using v y s by simp
qed

lemma format_midnight: "format_datetime (86400 * n) = format_date n @ '' 00:00:00''"
proof -
  have "int_pad 2 0 = ''00''" by code_simp
  then show ?thesis by (simp add: format_datetime_def format_date_def split: prod.splits)
qed

lemma format_datetime_date:
  assumes "0 \<le> instant_year s" "instant_year s \<le> 9999"
  shows "take 10 (format_datetime s) = format_date (s div 86400)"
proof -
  obtain y m d where e: "date_of_days (s div 86400) = (y, m, d)" by (metis prod_cases3)
  show ?thesis
    using format_datetime_fixed [OF assms e] format_date_fixed [OF _ _ e] assms by (simp add: instant_year_def)
qed

lemma format_datetime_le:
  assumes "0 \<le> instant_year s" "instant_year s \<le> 9999" "0 \<le> instant_year s'" "instant_year s' \<le> 9999"
  shows "format_datetime s \<le> format_datetime s' \<longleftrightarrow> s \<le> s'"
  using format_datetime_less [OF assms(3,4) assms(1,2)] by (simp add: not_less [symmetric])

lemma format_date_inj:
  assumes "0 \<le> year_of a" "year_of a \<le> 9999" "0 \<le> year_of b" "year_of b \<le> 9999" "format_date a = format_date b"
  shows "a = b"
proof -
  have "format_datetime (86400 * a) = format_datetime (86400 * b)" using assms(5) by (simp add: format_midnight)
  then show ?thesis
    using format_datetime_less [of "86400 * a" "86400 * b"] format_datetime_less [of "86400 * b" "86400 * a"] assms(1-4)
    by (simp add: instant_year_def)
qed

section \<open>The window of a day\<close>

text \<open>The zone of a location does not change on the day \<open>n\<close> nor at its end.\<close>

definition steady_day :: "Location \<Rightarrow> int \<Rightarrow> bool" where
  "steady_day loc n \<longleftrightarrow>
     (let (offset, start, stop) = lc_lookup loc (86400 * n) in
      start \<le> 86400 * n - offset \<and> 86400 * (n + 1) - offset < stop \<and>
      fst (lc_lookup loc (86400 * n - offset)) = offset \<and> fst (lc_lookup loc (86400 * (n + 1) - offset)) = offset)"

lemma steady_window:
  assumes "steady_day loc (days_of_date y m d)"
  shows "midnight (DateIn loc y m d) = format_datetime (86400 * days_of_date y m d)"
    and "midnight (zt_Add (DateIn loc y m d) (24 * Hour)) = format_datetime (86400 * (days_of_date y m d + 1))"
proof -
  let ?n = "days_of_date y m d"
  obtain offset start stop where l: "lc_lookup loc (86400 * ?n) = (offset, start, stop)" by (metis prod_cases3)
  note S = assms [unfolded steady_day_def l, simplified]
  have z: "DateIn loc y m d = \<lparr>zt_time = \<lparr>t_sec = 86400 * ?n - offset, t_nsec = 0\<rparr>, zt_loc = loc\<rparr>"
    using S by (simp add: DateIn_def l Let_def)
  show "midnight (DateIn loc y m d) = format_datetime (86400 * ?n)"
    using S by (simp add: z midnight_def FormatDate_def format_midnight)
  have e: "86400 * ?n - offset + 86400 = 86400 * ?n + 86400 - offset" by simp
  show "midnight (zt_Add (DateIn loc y m d) (24 * Hour)) = format_datetime (86400 * (?n + 1))"
    unfolding format_midnight using S by (simp add: z midnight_def FormatDate_def zt_Add_def t_Add_def Let_def e)
qed

text \<open>A date-time of the device is in the window exactly when its first ten characters are the date.\<close>

lemma window_is_day:
  assumes "0 \<le> instant_year s" "instant_year s \<le> 9999" and "0 \<le> year_of n" "year_of n \<le> 9999" "year_of (n + 1) \<le> 9999"
  shows "format_datetime (86400 * n) \<le> format_datetime s \<and> format_datetime s < format_datetime (86400 * (n + 1)) \<longleftrightarrow>
    take 10 (format_datetime s) = format_date n"
proof -
  have y: "0 \<le> year_of (n + 1)" using assms(3) year_of_mono [of n "n + 1"] by simp
  have "format_datetime (86400 * n) \<le> format_datetime s \<and> format_datetime s < format_datetime (86400 * (n + 1)) \<longleftrightarrow>
      86400 * n \<le> s \<and> s < 86400 * (n + 1)"
    using format_datetime_le [of "86400 * n" s] format_datetime_less [of s "86400 * (n + 1)"] assms y
    by (simp add: instant_year_def)
  also have "\<dots> \<longleftrightarrow> s div 86400 = n" by auto
  also have "\<dots> \<longleftrightarrow> format_date (s div 86400) = format_date n"
    using format_date_inj [of "s div 86400" n] assms by (auto simp: instant_year_def)
  also have "\<dots> \<longleftrightarrow> take 10 (format_datetime s) = format_date n" using format_datetime_date [OF assms(1,2)] by simp
  finally show ?thesis .
qed

section \<open>The records of a day\<close>

definition dated :: "jsonb \<Rightarrow> string \<Rightarrow> u8 list \<Rightarrow> bool" where
  "dated j date parsed \<longleftrightarrow> (case jb_text j parsed ''date_time'' of Some dt \<Rightarrow> take 10 dt = date | None \<Rightarrow> False)"

text \<open>The dates that the parser stores: the instants of the years 0 to 9999 in its own layout.\<close>

definition parser_dates :: "jsonb \<Rightarrow> u8 list set \<Rightarrow> bool" where
  "parser_dates j docs \<longleftrightarrow>
     (\<forall>parsed \<in> docs. \<exists>s. 0 \<le> instant_year s \<and> instant_year s \<le> 9999 \<and> jb_text j parsed ''date_time'' = Some (format_datetime s))"

definition day_filter :: "Location \<Rightarrow> int \<Rightarrow> nat \<Rightarrow> int \<Rightarrow> string \<Rightarrow> QueryFilter" where
  "day_filter loc y m d imei =
     \<lparr>qf_DateStart = DateIn loc y m d, qf_DateEnd = zt_Add (DateIn loc y m d) (24 * Hour), qf_IMEI = imei, qf_Limit = 5000\<rparr>"

lemma in_day_window:
  assumes "parse_date date = Some (y, m, d)" and "y < 9999" and "steady_day loc (days_of_date y m d)"
    and "0 \<le> instant_year s" "instant_year s \<le> 9999"
  shows "in_window (query_args (day_filter loc y m d imei)) (Some (format_datetime s)) \<longleftrightarrow> take 10 (format_datetime s) = date"
proof -
  let ?n = "days_of_date y m d"
  note P = parse_date_format [OF assms(1)]
  have dd: "date_of_days ?n = (y, m, d)" using P by (intro date_of_days_of_date) simp
  have yn: "year_of ?n = y" using date_of_days(3) [OF dd] by simp
  have "?n + 1 < year_start (y + 2)"
    using year_of_bounds(2) [of ?n] year_start_Suc [of "y + 1"] by (simp add: yn year_len_def add.commute split: if_splits)
  then have "year_of (?n + 1) \<le> y + 1"
    using year_of_bounds(1) [of "?n + 1"] year_start_mono [of "y + 2" "year_of (?n + 1)"] by linarith
  then show ?thesis
    using window_is_day [of s ?n] assms P steady_window [OF assms(3)]
    by (simp add: yn query_args_def day_filter_def)
qed

lemma imei_clause_args: "imei_clause (imei \<noteq> []) (query_args (day_filter loc y m d imei)) i \<longleftrightarrow> imei = [] \<or> i = imei"
  by (simp add: query_args_def day_filter_def)

lemma selected_of_day:
  assumes "parse_date date = Some (y, m, d)" and "y < 9999" and "steady_day loc (days_of_date y m d)"
  shows "parser_dates j (ParsedData ` set rs) \<Longrightarrow>
      selected_records j (imei \<noteq> []) (query_args (day_filter loc y m d imei)) rs =
        filter (\<lambda>r. dated j date (ParsedData r) \<and> (imei = [] \<or> rc_IMEI r = imei)) rs"
    and "parser_dates j (fr_ParsedData ` set fs) \<Longrightarrow>
      selected_failed j (imei \<noteq> []) (query_args (day_filter loc y m d imei)) fs =
        filter (\<lambda>r. dated j date (fr_ParsedData r) \<and> (imei = [] \<or> fr_IMEI r = imei)) fs"
  unfolding selected_records_def selected_failed_def imei_clause_args
  by (rule filter_cong [OF refl], use in_day_window [OF assms] in \<open>fastforce simp: parser_dates_def dated_def\<close>)+

lemma QueryRecords_rows:
  assumes "query_laws query j v" and "QueryRecords query (Some db) (day_filter loc y m d imei) = Ok records"
  shows "\<exists>xs. ordered (newer CreatedAt) (selected_records j (imei \<noteq> []) (query_args (day_filter loc y m d imei)) (tv_records v db)) xs \<and>
    records = take 5000 xs"
  using read_rows_OkD [OF assms(2) [unfolded QueryRecords_def Let_def option.case]] query_lawsD [OF assms(1)] read_columns
  by (fastforce simp: day_filter_def)

lemma QueryFailedRecords_rows:
  assumes "query_laws query j v" and "QueryFailedRecords query (Some db) (day_filter loc y m d imei) = Ok records"
  shows "\<exists>xs. ordered (newer FailedAt) (selected_failed j (imei \<noteq> []) (query_args (day_filter loc y m d imei)) (tv_failed v db)) xs \<and>
    records = take 5000 xs"
  using read_rows_OkD [OF assms(2) [unfolded QueryFailedRecords_def Let_def option.case]] query_lawsD [OF assms(1)] read_columns
  by (fastforce simp: day_filter_def)

lemma handler_200:
  assumes "parse_date date = Some (y, m, d)" and "Query rq ''date'' = date" and "Query rq ''imei'' = imei"
  shows "rs_status (QueryGPSRecords loc query (Some db) rq) = 200 \<Longrightarrow>
      \<exists>records. QueryRecords query (Some db) (day_filter loc y m d imei) = Ok records \<and>
        rs_body (QueryGPSRecords loc query (Some db) rq) = RecordsBody records (length records) date imei"
    and "rs_status (QueryFailedGPSRecords loc query (Some db) rq) = 200 \<Longrightarrow>
      \<exists>records. QueryFailedRecords query (Some db) (day_filter loc y m d imei) = Ok records \<and>
        rs_body (QueryFailedGPSRecords loc query (Some db) rq) = FailedRecordsBody records (length records) date imei"
proof -
  have p: "parseQueryDate loc date = Some (DateIn loc y m d)" "date \<noteq> []"
    using assms(1) parse_date_format [OF assms(1)] by (auto simp: parseQueryDate_def)
  show "rs_status (QueryGPSRecords loc query (Some db) rq) = 200 \<Longrightarrow>
      \<exists>records. QueryRecords query (Some db) (day_filter loc y m d imei) = Ok records \<and>
        rs_body (QueryGPSRecords loc query (Some db) rq) = RecordsBody records (length records) date imei"
    using p assms by (auto simp: QueryGPSRecords_def reply_def Let_def day_filter_def split: if_splits result.splits)
  show "rs_status (QueryFailedGPSRecords loc query (Some db) rq) = 200 \<Longrightarrow>
      \<exists>records. QueryFailedRecords query (Some db) (day_filter loc y m d imei) = Ok records \<and>
        rs_body (QueryFailedGPSRecords loc query (Some db) rq) = FailedRecordsBody records (length records) date imei"
    using p assms by (auto simp: QueryFailedGPSRecords_def reply_def Let_def day_filter_def split: if_splits result.splits)
qed

text \<open>
  C19: On a day on which the zone does not change, the two record queries answer with the records
  whose device date is the asked date, of the asked device or of all, newest first, all of them
  or the first 5000.
\<close>

theorem records_of_the_day:
  assumes "query_laws query j v" and "parse_date date = Some (y, m, d)" and "y < 9999" and "steady_day loc (days_of_date y m d)"
    and "parser_dates j (ParsedData ` set (tv_records v db))" and "parser_dates j (fr_ParsedData ` set (tv_failed v db))"
    and "Query rq ''date'' = date" and "Query rq ''imei'' = imei"
  shows "(rs_status (QueryGPSRecords loc query (Some db) rq) = 200 \<longrightarrow>
      (\<exists>xs. ordered (newer CreatedAt) (filter (\<lambda>r. dated j date (ParsedData r) \<and> (imei = [] \<or> rc_IMEI r = imei)) (tv_records v db)) xs \<and>
        rs_body (QueryGPSRecords loc query (Some db) rq) = RecordsBody (take 5000 xs) (min (length xs) 5000) date imei)) \<and>
    (rs_status (QueryFailedGPSRecords loc query (Some db) rq) = 200 \<longrightarrow>
      (\<exists>xs. ordered (newer FailedAt) (filter (\<lambda>r. dated j date (fr_ParsedData r) \<and> (imei = [] \<or> fr_IMEI r = imei)) (tv_failed v db)) xs \<and>
        rs_body (QueryFailedGPSRecords loc query (Some db) rq) = FailedRecordsBody (take 5000 xs) (min (length xs) 5000) date imei))"
proof (intro conjI impI)
  note S = selected_of_day [OF assms(2-4)]
  assume "rs_status (QueryGPSRecords loc query (Some db) rq) = 200"
  from handler_200(1) [OF assms(2,7,8) this] QueryRecords_rows [OF assms(1)] S(1) [OF assms(5)]
  show "\<exists>xs. ordered (newer CreatedAt) (filter (\<lambda>r. dated j date (ParsedData r) \<and> (imei = [] \<or> rc_IMEI r = imei)) (tv_records v db)) xs \<and>
      rs_body (QueryGPSRecords loc query (Some db) rq) = RecordsBody (take 5000 xs) (min (length xs) 5000) date imei"
    by fastforce
next
  note S = selected_of_day [OF assms(2-4)]
  assume "rs_status (QueryFailedGPSRecords loc query (Some db) rq) = 200"
  from handler_200(2) [OF assms(2,7,8) this] QueryFailedRecords_rows [OF assms(1)] S(2) [OF assms(6)]
  show "\<exists>xs. ordered (newer FailedAt) (filter (\<lambda>r. dated j date (fr_ParsedData r) \<and> (imei = [] \<or> fr_IMEI r = imei)) (tv_failed v db)) xs \<and>
      rs_body (QueryFailedGPSRecords loc query (Some db) rq) = FailedRecordsBody (take 5000 xs) (min (length xs) 5000) date imei"
    by fastforce
qed

text \<open>
  C40: On a day that is followed, 24 hours after its midnight, by an instant of the same date (the
  day on which the clock is set back), the queries of that day answer with no record at all.
\<close>

theorem long_day_is_empty:
  assumes "query_laws query j v" and "parse_date date = Some (y, m, d)"
    and "FormatDate (zt_Add (DateIn loc y m d) (24 * Hour)) = FormatDate (DateIn loc y m d)"
    and "Query rq ''date'' = date" and "rs_status (QueryGPSRecords loc query (Some db) rq) = 200"
  shows "rs_body (QueryGPSRecords loc query (Some db) rq) = RecordsBody [] 0 date (Query rq ''imei'')"
proof -
  let ?f = "day_filter loc y m d (Query rq ''imei'')"
  obtain records where r: "QueryRecords query (Some db) ?f = Ok records"
    "rs_body (QueryGPSRecords loc query (Some db) rq) = RecordsBody records (length records) date (Query rq ''imei'')"
    using handler_200(1) [OF assms(2,4) refl assms(5)] by blast
  have "\<not> in_window (query_args ?f) dt" for dt
    using assms(3) by (cases dt) (auto simp: query_args_def day_filter_def midnight_def)
  then have "selected_records j b (query_args ?f) rs = []" for b rs by (simp add: selected_records_def)
  with QueryRecords_rows [OF assms(1) r(1)] have "records = []" by (auto simp: ordered_def)
  with r(2) show ?thesis by simp
qed

section \<open>The path of a device\<close>

text \<open>The rows one after the other, with the flag of the row before.\<close>

fun drop_repeats :: "bool \<Rightarrow> path_row list \<Rightarrow> path_row list" where
  "drop_repeats prev [] = []"
| "drop_repeats prev (r # rows) = (if is_stop r \<and> prev then [] else [r]) @ drop_repeats (is_stop r) rows"

lemma path_points_eq: "path_points rows = drop_repeats False rows"
proof -
  have "map fst (filter (\<lambda>(r, p). \<not> (is_stop r \<and> p)) (zip rows (take (length rows) (b # map is_stop rows)))) = drop_repeats b rows" for b
    by (induction rows arbitrary: b) auto
  then show ?thesis by (simp add: path_points_def lag_stop_def)
qed

lemma drop_repeats_keep_spec:
  assumes "\<forall>r \<in> set rows. isStoppage (rec r) \<longleftrightarrow> is_stop r"
  shows "keep_spec prev (map rec rows) = map rec (drop_repeats (prev = Some True) rows)"
  using assms by (induction rows arbitrary: prev) (auto simp: keep_abs_def)

lemma FilterData_one_device:
  assumes "shards_ok sf" and "sf_enabled sf" and "\<forall>r \<in> set data. IMEI r = i"
  shows "fst (FilterData sf data) = keep_spec (flat sf i) data"
proof (cases data)
  case (Cons r rs)
  obtain kept where k: "fst (FilterData_loop data [] sf) = kept" "subseq kept data"
    using FilterData_loop_subseq [of data "[]" sf] by auto
  have "set kept \<subseteq> set data" using list_emb_set [OF k(2)] by blast
  then have "filter (\<lambda>r. IMEI r = i) kept = kept" "filter (\<lambda>r. IMEI r = i) data = data"
    using assms(3) by (auto simp: filter_id_conv)
  then have "fst (FilterData_loop data [] sf) = keep_spec (flat sf i) data"
    using FilterData_loop_spec [OF assms(1), of i data "[]"] k(1) by simp
  then show ?thesis using assms(2) Cons by (simp add: FilterData_def)
qed (simp add: FilterData_def)

definition point_of :: "path_row \<Rightarrow> PathPoint" where
  "point_of r = \<lparr>pt_ID = pr_id r, pt_IMEI = pr_imei r, Lat = the (pr_lat r), Lng = the (pr_lng r), pt_Speed = pr_speed r,
     pt_Status = pr_status r, pt_DateTime = pr_date_time r\<rparr>"

lemma scan_point_columns:
  "scan_point (point_columns r) = Some p \<Longrightarrow> p = point_of r \<and> pr_lat r \<noteq> None \<and> pr_lng r \<noteq> None"
  by (cases "pr_lat r"; cases "pr_lng r") (simp_all add: scan_point_def point_columns_def SFloat_or_null_def point_of_def)

lemma scan_points:
  "scan_rows scan_point (map point_columns rows) = Some points \<Longrightarrow>
    points = map point_of rows \<and> (\<forall>r \<in> set rows. pr_lat r \<noteq> None \<and> pr_lng r \<noteq> None)"
  by (induction rows arbitrary: points) (auto split: option.splits dest!: scan_point_columns)

text \<open>
  C21: The path of a device is its located rows of the window in the order of their dates, up to the
  limit, without the stops that follow a stop; these are the rows that the stoppage filter keeps of
  the same records, when it has not seen the device before.
\<close>

theorem path_is_filtered:
  assumes "query_laws query j v" and "QueryPathPoints query (Some db) f = Ok points"
  shows "\<exists>rows. ordered path_less
      (base_rows j [SText (qf_IMEI f), SText (midnight (qf_DateStart f)), SText (midnight (qf_DateEnd f))] (tv_records v db)) rows \<and>
    points = map point_of (take (nat (path_limit (qf_Limit f))) (drop_repeats False rows)) \<and>
    (\<forall>sf rec. shards_ok sf \<and> sf_enabled sf \<and> flat sf (qf_IMEI f) = None \<and>
        (\<forall>r \<in> set rows. IMEI (rec r) = qf_IMEI f \<and> (isStoppage (rec r) \<longleftrightarrow> is_stop r)) \<longrightarrow>
      map rec (drop_repeats False rows) = fst (FilterData sf (map rec rows)))"
proof -
  let ?args = "[SText (qf_IMEI f), SText (midnight (qf_DateStart f)), SText (midnight (qf_DateEnd f))]"
  obtain cols where "query (SelectPath (path_limit (qf_Limit f))) ?args db = Some (cols, False)" "scan_rows scan_point cols = Some points"
    using assms(2) by (auto simp: QueryPathPoints_def dest!: read_rows_OkD split: if_splits)
  with query_lawsD [OF assms(1)] obtain rows where rows: "ordered path_less (base_rows j ?args (tv_records v db)) rows"
    and "scan_rows scan_point (map point_columns (take (nat (path_limit (qf_Limit f))) (path_points rows))) = Some points"
    by fastforce
  from scan_points [OF this(2)] have points: "points = map point_of (take (nat (path_limit (qf_Limit f))) (drop_repeats False rows))"
    by (simp add: path_points_eq)
  have "map rec (drop_repeats False rows) = fst (FilterData sf (map rec rows))"
    if "shards_ok sf" "sf_enabled sf" "flat sf (qf_IMEI f) = None"
      "\<forall>r \<in> set rows. IMEI (rec r) = qf_IMEI f \<and> (isStoppage (rec r) \<longleftrightarrow> is_stop r)" for sf rec
  proof -
    have "fst (FilterData sf (map rec rows)) = keep_spec None (map rec rows)"
      using FilterData_one_device [of sf "map rec rows" "qf_IMEI f"] that by simp
    then show ?thesis using drop_repeats_keep_spec [of rows rec None] that(4) by simp
  qed
  with rows points show ?thesis by blast
qed

section \<open>The pages of the invalid records\<close>

lemma sorted_unique:
  assumes "mset xs = mset ys" and "sorted_wrt P xs" and "sorted_wrt P ys"
    and "\<And>a b. a \<in> set xs \<Longrightarrow> b \<in> set xs \<Longrightarrow> P a b \<Longrightarrow> P b a \<Longrightarrow> a = b"
  shows "xs = ys"
  using assms
proof (induction xs arbitrary: ys)
  case (Cons x xs)
  from Cons.prems(1) obtain y ys' where ys: "ys = y # ys'" by (cases ys) auto
  have s: "set (x # xs) = set ys" using Cons.prems(1) by (rule mset_eq_setD)
  have "x = y"
  proof (rule ccontr)
    assume "x \<noteq> y"
    then have "y \<in> set xs" "x \<in> set ys'" using s ys by auto
    then have "P x y" "P y x" using Cons.prems(2,3) ys by auto
    then show False using Cons.prems(4) [of x y] \<open>y \<in> set xs\<close> \<open>x \<noteq> y\<close> by simp
  qed
  moreover have "xs = ys'" using Cons.prems ys \<open>x = y\<close> by (intro Cons.IH) auto
  ultimately show ?case using ys by simp
qed simp

lemma ordered_unique:
  assumes "ordered (newer key) ms xs" and "ordered (newer key) ms ys" and "inj_on key (set ms)"
  shows "xs = ys"
proof (rule sorted_unique)
  show "mset xs = mset ys" "sorted_wrt (\<lambda>a b. \<not> newer key b a) xs" "sorted_wrt (\<lambda>a b. \<not> newer key b a) ys"
    using assms by (auto simp: ordered_def)
  fix a b assume ab: "a \<in> set xs" "b \<in> set xs" "\<not> newer key b a" "\<not> newer key a b"
  have "set xs = set ms" using assms(1) by (auto simp: ordered_def dest: mset_eq_setD)
  moreover have "key a = key b" using ab(3,4) by (simp add: newer_def)
  ultimately show "a = b" using ab(1,2) assms(3) by (auto simp: inj_on_def)
qed

lemma chunks: "concat (map (\<lambda>i. take l (drop (i * l) xs)) [0..<k]) = take (k * l) xs"
  by (induction k) (simp_all add: take_add [symmetric] add.commute)

abbreviation invalid_rows :: "'d table_view \<Rightarrow> PaginatedQueryFilter \<Rightarrow> 'd \<Rightarrow> InvalidStoredRecord list" where
  "invalid_rows v f d \<equiv> selected_invalid (has_dates f) (date_args f) (tv_invalid v d)"

lemma selected_invalid_args: "selected_invalid (has_dates f) (date_args f @ tail) rows = selected_invalid (has_dates f) (date_args f) rows"
  by (simp add: date_args_def)

lemma page_limit_range: "1 \<le> page_limit l \<and> page_limit l \<le> 500"
  by (simp add: page_limit_def Let_def)

lemma nat_below: "x < int k \<Longrightarrow> 0 < k \<Longrightarrow> nat x < k"
  by linarith

lemma max_page_bounds:
  assumes "1 \<le> l" and "0 \<le> n"
  shows "1 \<le> max_page n l \<and> n \<le> max_page n l * l \<and> (0 < n \<longrightarrow> (max_page n l - 1) * l < n)"
proof -
  let ?q = "(n + l - 1) div l"
  have q: "?q * l \<le> n + l - 1" "n + l - 1 < ?q * l + l"
    using assms div_mult_mod_eq [of "n + l - 1" l] pos_mod_bound [of l "n + l - 1"] pos_mod_sign [of l "n + l - 1"] by linarith+
  show ?thesis
  proof (cases "?q < 1")
    case True
    then have "?q * l \<le> 0" using assms by (simp add: mult_nonpos_nonneg)
    then show ?thesis using True q assms by (simp add: max_page_def)
  next
    case False
    then show ?thesis using q assms by (simp add: max_page_def left_diff_distrib)
  qed
qed

lemma QueryInvalidRecords_OkD:
  assumes "query_laws query j v" and "QueryInvalidRecords query (Some (d, d')) f = Ok p"
  shows "pi_Limit p = page_limit (pq_Limit f) \<and> pi_Total p = int (length (invalid_rows v f d)) \<and>
    pi_Page p = min (max 1 (pq_Page f)) (max_page (pi_Total p) (pi_Limit p)) \<and>
    (\<exists>xs. ordered (newer ir_CreatedAt) (invalid_rows v f d') xs \<and>
      pi_Records p = take (nat (pi_Limit p)) (drop (nat ((pi_Page p - 1) * pi_Limit p)) xs))"
proof -
  let ?l = "page_limit (pq_Limit f)" and ?n = "length (date_args f)"
  obtain n r rs b where c: "query (CountInvalid (has_dates f)) (date_args f) d = Some ((SInt n # r) # rs, b)"
    using assms(2) by (auto simp: QueryInvalidRecords_def Let_def split: option.splits list.splits sql_value.splits)
  have "answers j v d (CountInvalid (has_dates f)) (date_args f) [SInt n # r]" using assms(1) c unfolding query_laws_def by blast
  then have n: "n = int (length (invalid_rows v f d))" by simp
  define page where "page = min (max 1 (pq_Page f)) (max_page n ?l)"
  let ?args = "date_args f @ [SInt ?l, SInt ((page - 1) * ?l)]"
  have pg: "(if (if pq_Page f < 1 then 1 else pq_Page f) > max_page n ?l then max_page n ?l
      else if pq_Page f < 1 then 1 else pq_Page f) = page"
    by (auto simp: page_def)
  obtain records where rec: "read_rows scan_invalid (query (SelectInvalid (has_dates f) (?n + 1) (?n + 2)) ?args d') = Ok records"
    and p: "p = \<lparr>pi_Records = records, pi_Total = n, pi_Page = page, pi_Limit = ?l\<rparr>"
    using assms(2) c pg by (auto simp: QueryInvalidRecords_def Let_def andThen_eq_Ok)
  from read_rows_OkD [OF rec] query_lawsD [OF assms(1)] obtain xs where
    xs: "ordered (newer ir_CreatedAt) (selected_invalid (has_dates f) ?args (tv_invalid v d')) xs"
    and "scan_rows scan_invalid (map invalid_columns (take (nat_arg ?args (?n + 1)) (drop (nat_arg ?args (?n + 2)) xs))) = Some records"
    by fastforce
  then have "records = take (nat ?l) (drop (nat ((page - 1) * ?l)) xs)" by (simp add: read_columns nth_append)
  then show ?thesis using xs n by (auto simp: p page_def selected_invalid_args)
qed


end
