(* ===== verification/Query_Witnesses.thy ===== *)
theory Query_Witnesses
  imports Query_Properties
begin

text \<open>
  A database in memory that answers the statements, and the queries on small tables: a day's
  records, a day of 25 hours, a path with a repeated stop, pages, and pages of records that were
  created at the same instant.
\<close>

section \<open>A database in memory\<close>

type_synonym memory = "StoredRecord list \<times> FailedRecord list \<times> InvalidStoredRecord list"

definition memory_tables :: "memory table_view" where
  "memory_tables = \<lparr>tv_records = fst, tv_failed = fst \<circ> snd, tv_invalid = snd \<circ> snd\<rparr>"

primrec memory_query :: "jsonb \<Rightarrow> statement \<Rightarrow> sql_value list \<Rightarrow> memory \<Rightarrow> (sql_value list list \<times> bool) option" where
  "memory_query j (SelectRecords by_imei limit) args d =
     Some (map record_columns (take (nat limit) (insertionSort (newer CreatedAt) (selected_records j by_imei args (fst d)))), False)"
| "memory_query j (SelectFailed by_imei limit) args d =
     Some (map failed_columns (take (nat limit) (insertionSort (newer FailedAt) (selected_failed j by_imei args (fst (snd d))))), False)"
| "memory_query j (SelectPath limit) args d =
     Some (map point_columns (take (nat limit) (path_points (insertionSort path_less (base_rows j args (fst d))))), False)"
| "memory_query j (CountInvalid by_date) args d = Some ([[SInt (int (length (selected_invalid by_date args (snd (snd d)))))]], False)"
| "memory_query j (SelectInvalid by_date l off) args d =
     Some (map invalid_columns (take (nat_arg args l) (drop (nat_arg args off)
       (insertionSort (newer ir_CreatedAt) (selected_invalid by_date args (snd (snd d)))))), False)"

lemma strict_newer: "strict_weak (newer key)"
  by (auto simp: strict_weak_def newer_def)

lemma strict_path: "strict_weak path_less"
  by (auto simp: strict_weak_def path_less_def)

lemma ordered_insertion: "strict_weak lt \<Longrightarrow> ordered lt xs (insertionSort lt xs)"
  by (simp add: ordered_def insertion.ordered_sort insertion.mset_sort)

lemma memory_answers: "memory_query j st args d = Some (rows, b) \<Longrightarrow> answers j memory_tables d st args rows"
  by (cases st) (auto simp: memory_tables_def intro: ordered_insertion [OF strict_newer] ordered_insertion [OF strict_path])

lemma memory_query_laws: "query_laws (memory_query j) j memory_tables"
proof -
  have "answers j memory_tables d (CountInvalid by_date) args [row]"
    if "memory_query j (CountInvalid by_date) args d = Some (row # rows, b)" for by_date args d row rows b
    using memory_answers [OF that] that by simp
  then show ?thesis unfolding query_laws_def using memory_answers by blast
qed

text \<open>Documents that are the bytes of their date, of a device that stands still.\<close>

definition plain_json :: jsonb where
  "plain_json = \<lparr>
     jb_text = \<lambda>doc key. if key = ''date_time'' then Some (string_of doc) else Some ''0'',
     jb_has = \<lambda>doc key. True, jb_item = \<lambda>doc key i. Some ''1'',
     jb_double = \<lambda>s. if s = ''0'' then Fin False 0 else Fin False 1, jb_bigint = \<lambda>s. 1\<rparr>"

definition sample_row :: "int \<Rightarrow> string \<Rightarrow> StoredRecord" where
  "sample_row i dt = \<lparr>rc_ID = i, rc_IMEI = ''860000000000001'', rc_RawData = '' '', ParsedData = bytes_of dt,
     CreatedAt = \<lparr>t_sec = i, t_nsec = 0\<rparr>\<rparr>"

definition day_request :: "string \<Rightarrow> request" where
  "day_request date = \<lparr>rq_method = ''GET'', rq_path = ''/api/gps/records'', rq_headers = Map.empty, rq_query = [''date'' \<mapsto> date],
     rq_param_id = [], rq_body = Some [], rq_clientIP = []\<rparr>"

section \<open>A day\<close>

lemma steady_fixed:
  assumes "0 \<le> n" "n \<le> 1000000" "\<bar>offset\<bar> \<le> 86400"
  shows "steady_day (FixedZone offset) n"
  using assms by (simp add: steady_day_def FixedZone_def) linarith

lemma sample_day:
  "parse_date ''2024-02-29'' = Some (2024, 2, 29)" "days_of_date 2024 2 29 = 19782"
  "format_datetime 1709247600 = ''2024-02-29 23:00:00''" "format_datetime 1709251200 = ''2024-03-01 00:00:00''"
  "instant_year 1709247600 = 2024" "instant_year 1709251200 = 2024"
  by code_simp+

lemma march_first: "parse_date ''2024-03-01'' = Some (2024, 3, 1)" "days_of_date 2024 3 1 = 19783"
  by code_simp+

lemma UTC_midnight:
  assumes "parse_date s = Some (y, m, d)" and "0 \<le> days_of_date y m d" "days_of_date y m d \<le> 1000000"
  shows "midnight (DateIn UTC y m d) = s @ '' 00:00:00''"
  using steady_window(1) [of UTC y m d] steady_fixed [OF assms(2,3), of 0] parse_date_format [OF assms(1)]
  by (simp add: UTC_def format_midnight)

theorem records_of_the_day_witness:
  "rs_body (QueryGPSRecords (tehranLocation None) (memory_query plain_json)
      (Some ([sample_row 1 ''2024-02-29 23:00:00'', sample_row 2 ''2024-03-01 00:00:00''], [], [])) (day_request ''2024-02-29'')) =
    RecordsBody [sample_row 1 ''2024-02-29 23:00:00''] 1 ''2024-02-29'' []"
proof -
  let ?a = "sample_row 1 ''2024-02-29 23:00:00''" and ?b = "sample_row 2 ''2024-03-01 00:00:00''"
  let ?db = "([?a, ?b], [], []) :: memory" and ?loc = "tehranLocation None"
  let ?r = "QueryGPSRecords ?loc (memory_query plain_json) (Some ?db) (day_request ''2024-02-29'')"
  have q: "Query (day_request ''2024-02-29'') ''date'' = ''2024-02-29''" "Query (day_request ''2024-02-29'') ''imei'' = []"
    by (simp_all add: Query_def day_request_def)
  have s: "steady_day ?loc (days_of_date 2024 2 29)"
    using steady_fixed [of 19782 12600] by (simp add: sample_day tehranLocation_def)
  have t: "jb_text plain_json (ParsedData (sample_row i dt)) ''date_time'' = Some dt" for i dt
    by (simp add: plain_json_def sample_row_def)
  have pd: "parser_dates plain_json (ParsedData ` set (tv_records memory_tables ?db))"
    using t sample_day(3-6) by (auto simp: parser_dates_def memory_tables_def intro: exI [of _ 1709247600] exI [of _ 1709251200])
  have pf: "parser_dates plain_json (fr_ParsedData ` set (tv_failed memory_tables ?db))"
    by (simp add: parser_dates_def memory_tables_def)
  have ok: "rs_status ?r = 200"
    using sample_day(1) by (simp add: QueryGPSRecords_def q parseQueryDate_def QueryRecords_def read_rows_def read_columns reply_def)
  have y: "(2024 :: int) < 9999" by simp
  from records_of_the_day [OF memory_query_laws sample_day(1) y s pd pf q] ok obtain xs where
    xs: "ordered (newer CreatedAt) (filter (\<lambda>r. dated plain_json ''2024-02-29'' (ParsedData r)) (tv_records memory_tables ?db)) xs"
      "rs_body ?r = RecordsBody (take 5000 xs) (min (length xs) 5000) ''2024-02-29'' []" by auto
  have "filter (\<lambda>r. dated plain_json ''2024-02-29'' (ParsedData r)) (tv_records memory_tables ?db) = [?a]"
    by (simp add: dated_def t memory_tables_def)
  with xs(1) have "xs = [?a]" by (simp add: ordered_def)
  with xs(2) show ?thesis by simp
qed

text \<open>A zone that goes from four and a half hours to three and a half at the end of 2021-09-21.\<close>

definition autumn :: Location where
  "autumn = \<lparr>lc_lookup = \<lambda>t. if t < 1632252600 then (16200, 1616358600, 1632252600) else (12600, 1632252600, 1647894600)\<rparr>"

theorem long_day_is_empty_witness:
  "rs_body (QueryGPSRecords autumn (memory_query plain_json) (Some ([sample_row 1 ''2021-09-21 12:00:00''], [], []))
      (day_request ''2021-09-21'')) = RecordsBody [] 0 ''2021-09-21'' []"
proof -
  let ?db = "([sample_row 1 ''2021-09-21 12:00:00''], [], []) :: memory"
  let ?r = "QueryGPSRecords autumn (memory_query plain_json) (Some ?db) (day_request ''2021-09-21'')"
  have p: "parse_date ''2021-09-21'' = Some (2021, 9, 21)" by code_simp
  have q: "Query (day_request ''2021-09-21'') ''date'' = ''2021-09-21''" "Query (day_request ''2021-09-21'') ''imei'' = []"
    by (simp_all add: Query_def day_request_def)
  have "days_of_date 2021 9 21 = 18891" by code_simp
  then have f: "FormatDate (zt_Add (DateIn autumn 2021 9 21) (24 * Hour)) = FormatDate (DateIn autumn 2021 9 21)"
    by (simp add: DateIn_def autumn_def FormatDate_def zt_Add_def t_Add_def)
  have ok: "rs_status ?r = 200"
    using p by (simp add: QueryGPSRecords_def q parseQueryDate_def QueryRecords_def read_rows_def read_columns reply_def)
  from long_day_is_empty [OF memory_query_laws p f q(1) ok] show ?thesis by (simp add: q)
qed

section \<open>A path\<close>

definition path_filter :: QueryFilter where
  "path_filter = \<lparr>qf_DateStart = DateIn UTC 2024 2 29, qf_DateEnd = DateIn UTC 2024 3 1, qf_IMEI = ''860000000000001'', qf_Limit = 50000\<rparr>"

definition path_record :: "path_row \<Rightarrow> ParsedGPSData" where
  "path_record r = \<lparr>Coordinate = (the (pr_lat r), the (pr_lng r)), Speed = (if is_stop r then 0 else 1), Status = pr_status r,
     Directions = \<lparr>EW = 0, NS = 0\<rparr>, DateTime = pr_date_time r, IMEI = ''860000000000001'', RawData = []\<rparr>"

theorem path_is_filtered_witness:
  "map pt_ID (case QueryPathPoints (memory_query plain_json)
      (Some ([sample_row 2 ''2024-02-29 23:00:00'', sample_row 1 ''2024-02-29 22:00:00''], [], [])) path_filter of Ok points \<Rightarrow> points) = [1] \<and>
   fst (FilterData \<lparr>shards = replicate shardCount Map.empty, sf_enabled = True\<rparr> (map (path_record \<circ> base_row plain_json)
      [sample_row 1 ''2024-02-29 22:00:00'', sample_row 2 ''2024-02-29 23:00:00''])) =
     [path_record (base_row plain_json (sample_row 1 ''2024-02-29 22:00:00''))]"
proof -
  let ?a = "sample_row 1 ''2024-02-29 22:00:00''" and ?b = "sample_row 2 ''2024-02-29 23:00:00''"
  let ?db = "([?b, ?a], [], []) :: memory" and ?args = "[SText (qf_IMEI path_filter), SText (midnight (qf_DateStart path_filter)),
    SText (midnight (qf_DateEnd path_filter))]"
  let ?sf = "\<lparr>shards = replicate shardCount Map.empty, sf_enabled = True\<rparr>"
  have w: "midnight (DateIn UTC 2024 2 29) = ''2024-02-29 00:00:00''" "midnight (DateIn UTC 2024 3 1) = ''2024-03-01 00:00:00''"
    using UTC_midnight [OF sample_day(1)] UTC_midnight [OF march_first(1)] by (simp_all add: sample_day march_first)
  have c: "''2024-02-29 00:00:00'' \<le> ''2024-02-29 22:00:00''" "''2024-02-29 22:00:00'' < ''2024-03-01 00:00:00''"
    "''2024-02-29 00:00:00'' \<le> ''2024-02-29 23:00:00''" "''2024-02-29 23:00:00'' < ''2024-03-01 00:00:00''"
    "''2024-02-29 22:00:00'' < ''2024-02-29 23:00:00''"
    by code_simp+
  have base: "base_rows plain_json ?args (tv_records memory_tables ?db) = map (base_row plain_json) [?b, ?a]"
    using c by (simp add: w path_filter_def memory_tables_def plain_json_def sample_row_def)
  have stop: "is_stop (base_row plain_json ?a)" "is_stop (base_row plain_json ?b)"
    by (simp_all add: is_stop_def base_row_def plain_json_def nullif_empty_def)
  have less: "path_less (base_row plain_json ?a) (base_row plain_json ?b)" "\<not> path_less (base_row plain_json ?b) (base_row plain_json ?a)"
    using c(5) by (auto simp: path_less_def base_row_def sample_row_def plain_json_def)
  have scan: "scan_point (point_columns (base_row plain_json r)) = Some (point_of (base_row plain_json r))" for r
    by (simp add: scan_point_def point_columns_def SFloat_or_null_def point_of_def base_row_def plain_json_def)
  have "insertionSort path_less (map (base_row plain_json) [?b, ?a]) = map (base_row plain_json) [?a, ?b]"
    using less by (simp add: insertionSort_def)
  then have "memory_query plain_json (SelectPath (path_limit (qf_Limit path_filter))) ?args ?db =
      Some (map point_columns (take (nat (path_limit (qf_Limit path_filter))) [base_row plain_json ?a]), False)"
    using base stop by (simp add: memory_tables_def path_points_eq)
  then have ok: "QueryPathPoints (memory_query plain_json) (Some ?db) path_filter = Ok [point_of (base_row plain_json ?a)]"
    using scan by (simp add: QueryPathPoints_def read_rows_def path_filter_def path_limit_def)
  from path_is_filtered [OF memory_query_laws ok, unfolded base] obtain rows where
    rows: "ordered path_less (map (base_row plain_json) [?b, ?a]) rows"
      "[point_of (base_row plain_json ?a)] = map point_of (take (nat (path_limit (qf_Limit path_filter))) (drop_repeats False rows))"
      "\<forall>sf rec. shards_ok sf \<and> sf_enabled sf \<and> flat sf (qf_IMEI path_filter) = None \<and>
        (\<forall>r \<in> set rows. IMEI (rec r) = qf_IMEI path_filter \<and> (isStoppage (rec r) \<longleftrightarrow> is_stop r)) \<longrightarrow>
        map rec (drop_repeats False rows) = fst (FilterData sf (map rec rows))"
    by (elim exE conjE) (rule that)
  have "rows = map (base_row plain_json) [?a, ?b]"
  proof (rule sorted_unique)
    show "mset rows = mset (map (base_row plain_json) [?a, ?b])" "sorted_wrt (\<lambda>a b. \<not> path_less b a) rows"
      using rows(1) by (simp_all add: ordered_def)
    show "sorted_wrt (\<lambda>a b. \<not> path_less b a) (map (base_row plain_json) [?a, ?b])" using less by simp
    have "set rows = {base_row plain_json ?a, base_row plain_json ?b}"
      using mset_eq_setD [of rows "map (base_row plain_json) [?b, ?a]"] rows(1) by (auto simp: ordered_def)
    then show "\<And>a b. a \<in> set rows \<Longrightarrow> b \<in> set rows \<Longrightarrow> \<not> path_less b a \<Longrightarrow> \<not> path_less a b \<Longrightarrow> a = b" using less by auto
  qed
  then have r: "rows = map (base_row plain_json) [?a, ?b]" "drop_repeats False rows = [base_row plain_json ?a]" using stop by simp_all
  have "pt_ID (point_of (base_row plain_json ?a)) = 1" by (simp add: point_of_def base_row_def sample_row_def)
  moreover have "map path_record (drop_repeats False rows) = fst (FilterData ?sf (map path_record rows))"
    by (rule rows(3) [rule_format]) (use shards_ok_fresh flat_fresh in \<open>auto simp: path_filter_def path_record_def isStoppage_def\<close>)
  ultimately show ?thesis using ok r by simp
qed

section \<open>Pages\<close>

definition page_row :: "int \<Rightarrow> int \<Rightarrow> InvalidStoredRecord" where
  "page_row i t = \<lparr>ir_ID = i, ir_RawData = ''x'', ErrorReason = ''y'', ir_CreatedAt = \<lparr>t_sec = t, t_nsec = 0\<rparr>\<rparr>"

definition page_of :: "int \<Rightarrow> PaginatedQueryFilter" where
  "page_of page = \<lparr>pq_DateStart = zero_time, pq_DateEnd = zero_time, pq_Page = page, pq_Limit = 1\<rparr>"

definition three_rows :: memory where
  "three_rows = ([], [], [page_row 1 10, page_row 2 30, page_row 3 20])"

definition ok_value :: "('e, 'a) result \<Rightarrow> 'a option" where
  "ok_value r = (case r of Ok x \<Rightarrow> Some x | _ \<Rightarrow> None)"


text \<open>
  With two records of the same instant a database may order them one way for the first page and
  the other way for the second, and both pages show the same record.
\<close>

definition two_rows :: memory where
  "two_rows = ([], [], [page_row 1 10, page_row 2 10])"

definition turning_query :: "jsonb \<Rightarrow> statement \<Rightarrow> sql_value list \<Rightarrow> memory \<Rightarrow> (sql_value list list \<times> bool) option" where
  "turning_query j st args d =
     (if d = two_rows \<and> st = SelectInvalid False 1 2 \<and> nat_arg args 2 = 1
      then Some (map invalid_columns (take (nat_arg args 1) (drop 1 [page_row 2 10, page_row 1 10])), False)
      else if d = two_rows \<and> st = SelectInvalid False 1 2 \<and> nat_arg args 2 = 0
      then Some (map invalid_columns (take (nat_arg args 1) [page_row 1 10, page_row 2 10]), False)
      else memory_query j st args d)"

lemma pages_may_repeat:
  "query_laws (turning_query plain_json) plain_json memory_tables \<and>
   pi_Records (the (ok_value (QueryInvalidRecords (turning_query plain_json) (Some (two_rows, two_rows)) (page_of 1)))) = [page_row 1 10] \<and>
   pi_Records (the (ok_value (QueryInvalidRecords (turning_query plain_json) (Some (two_rows, two_rows)) (page_of 2)))) = [page_row 1 10]"
proof (intro conjI)
  have o: "ordered (newer ir_CreatedAt) [page_row 1 10, page_row 2 10] [page_row 1 10, page_row 2 10]"
    "ordered (newer ir_CreatedAt) [page_row 1 10, page_row 2 10] [page_row 2 10, page_row 1 10]"
    by (simp_all add: ordered_def newer_def page_row_def)
  have sel: "selected_invalid False args (tv_invalid memory_tables two_rows) = [page_row 1 10, page_row 2 10]" for args
    by (simp add: memory_tables_def two_rows_def)
  have "answers plain_json memory_tables d st args rows" if "turning_query plain_json st args d = Some (rows, b)" for st args d rows b
  proof (cases "d = two_rows \<and> st = SelectInvalid False 1 2 \<and> nat_arg args 2 \<le> 1")
    case True
    then consider "nat_arg args 2 = 1" | "nat_arg args 2 = 0" by linarith
    then show ?thesis
    proof cases
      case 1
      then have "rows = map invalid_columns (take (nat_arg args 1) (drop 1 [page_row 2 10, page_row 1 10]))"
        using that True by (simp add: turning_query_def del: nat_arg.simps)
      with o(2) 1 show ?thesis unfolding True [THEN conjunct1] True [THEN conjunct2, THEN conjunct1] answers.simps sel
        by (intro exI [of _ "[page_row 2 10, page_row 1 10]"]) (simp del: nat_arg.simps)
    next
      case 2
      then have "rows = map invalid_columns (take (nat_arg args 1) [page_row 1 10, page_row 2 10])"
        using that True by (simp add: turning_query_def del: nat_arg.simps)
      with o(1) 2 show ?thesis unfolding True [THEN conjunct1] True [THEN conjunct2, THEN conjunct1] answers.simps sel
        by (intro exI [of _ "[page_row 1 10, page_row 2 10]"]) (simp del: nat_arg.simps)
    qed
  next
    case False
    then have "memory_query plain_json st args d = Some (rows, b)" using that by (auto simp: turning_query_def simp del: nat_arg.simps split: if_splits)
    then show ?thesis by (rule memory_answers)
  qed
  then show "query_laws (turning_query plain_json) plain_json memory_tables"
    unfolding query_laws_def by fastforce
next
  have nd: "has_dates (page_of page) = False" "date_args (page_of page) = []" for page
    by (simp_all add: has_dates_def date_args_def page_of_def zt_IsZero_def)
  have pg: "pq_Page (page_of page) = page" "pq_Limit (page_of page) = 1" for page by (simp_all add: page_of_def)
  have c: "turning_query plain_json (CountInvalid False) [] two_rows = Some ([[SInt 2]], False)"
    by (simp add: turning_query_def two_rows_def)
  have r: "turning_query plain_json (SelectInvalid False 1 2) [SInt 1, SInt 0] two_rows = Some (map invalid_columns [page_row 1 10], False)"
    "turning_query plain_json (SelectInvalid False 1 2) [SInt 1, SInt 1] two_rows = Some (map invalid_columns [page_row 1 10], False)"
    by (simp_all add: turning_query_def)
  have m: "max_page 2 1 = 2" "page_limit 1 = 1" by (simp_all add: max_page_def page_limit_def)
  note ev = QueryInvalidRecords_def nd pg m c numeral_2_eq_2 [symmetric] r read_rows_def read_columns ok_value_def
  show "pi_Records (the (ok_value (QueryInvalidRecords (turning_query plain_json) (Some (two_rows, two_rows)) (page_of 1)))) = [page_row 1 10]"
    "pi_Records (the (ok_value (QueryInvalidRecords (turning_query plain_json) (Some (two_rows, two_rows)) (page_of 2)))) = [page_row 1 10]"
    by (simp_all add: ev del: list.map One_nat_def)
qed

end
