(* ===== verification/Static_Files.thy ===== *)
theory Static_Files
  imports Go_Strings
begin

text \<open>
  The files that the server hands out to a browser (the frontend routes at the end of \<open>main\<close> in
  \<open>cmd/server/main.go\<close>): which file an unknown path leads to, with the lexical path functions of
  \<open>path/filepath\<close> on Unix.  The answers of \<open>os.Stat\<close> are an argument.
\<close>

section \<open>Paths\<close>

text \<open>
  \<open>Clean\<close> by elements: empty elements and dots vanish, two dots remove the element before them unless
  there is none or it is two dots too, and at the root they vanish.  The stack is kept reversed.
\<close>

fun clean_elems :: "bool \<Rightarrow> string list \<Rightarrow> string list \<Rightarrow> string list" where
  "clean_elems rooted stack [] = rev stack"
| "clean_elems rooted stack (c # cs) =
     (if c = [] \<or> c = ''.'' then clean_elems rooted stack cs
      else if c = ''..'' then
        (if stack \<noteq> [] \<and> hd stack \<noteq> ''..'' then clean_elems rooted (tl stack) cs
         else if rooted then clean_elems rooted stack cs
         else clean_elems rooted (c # stack) cs)
      else clean_elems rooted (c # stack) cs)"

definition is_rooted :: "string \<Rightarrow> bool" where
  "is_rooted path \<longleftrightarrow> path \<noteq> [] \<and> hd path = CHR ''/''"

definition Clean :: "string \<Rightarrow> string" where
  "Clean path =
     (let s = (if is_rooted path then ''/'' else []) @ Join ''/'' (clean_elems (is_rooted path) [] (Split (CHR ''/'') path))
      in if s = [] then ''.'' else s)"

fun JoinPath :: "string list \<Rightarrow> string" where
  "JoinPath [] = []"
| "JoinPath (e # es) = (if e \<noteq> [] then Clean (Join ''/'' (e # es)) else JoinPath es)"

fun strip_common :: "'a list \<Rightarrow> 'a list \<Rightarrow> 'a list \<times> 'a list" where
  "strip_common (b # bs) (t # ts) = (if b = t then strip_common bs ts else (b # bs, t # ts))"
| "strip_common bs ts = (bs, ts)"

definition elements :: "string \<Rightarrow> string list" where
  "elements s = (if s = [] then [] else Split (CHR ''/'') s)"

definition Rel :: "string \<Rightarrow> string \<Rightarrow> string option" where
  "Rel basepath targpath =
     (let base = Clean basepath; targ = Clean targpath in
      if targ = base then Some ''.''
      else let base' = (if base = ''.'' then [] else base) in
        if is_rooted base' \<noteq> is_rooted targ then None
        else let (bs, ts) = strip_common (elements base') (elements targ) in
          if bs \<noteq> [] \<and> hd bs = ''..'' then None
          else Some (Join ''/'' (map (\<lambda>_. ''..'') bs @ ts)))"

section \<open>The frontend\<close>

definition frontendDir :: string where
  "frontendDir = ''web/dist''"

definition indexPath :: string where
  "indexPath = JoinPath [frontendDir, ''index.html'']"

datatype served = NotFound | ServeFile string | StatusPage

text \<open>\<open>os.Stat\<close>: nothing when it fails, otherwise whether the path is a directory.\<close>

type_synonym file_stat = "string \<Rightarrow> bool option"

definition NoRoute :: "file_stat \<Rightarrow> string \<Rightarrow> string \<Rightarrow> served" where
  "NoRoute stat meth path =
     (if meth \<noteq> ''GET'' then NotFound
      else let cleanPath = Clean (JoinPath [frontendDir, TrimPrefix path ''/'']) in
        case Rel frontendDir cleanPath of
          None \<Rightarrow> ServeFile indexPath
        | Some rel \<Rightarrow>
            if HasPrefix rel ''..'' then ServeFile indexPath
            else if stat cleanPath = Some False then ServeFile cleanPath
            else ServeFile indexPath)"

text \<open>
  All frontend routes; \<open>built\<close> says whether the directory was there when the server started.  The
  files below \<open>/assets\<close> are served by the framework.
\<close>

definition frontend :: "bool \<Rightarrow> file_stat \<Rightarrow> string \<Rightarrow> string \<Rightarrow> served" where
  "frontend built stat meth path =
     (if built then
        (if meth = ''GET'' \<and> path = ''/'' then ServeFile indexPath
         else if (meth = ''GET'' \<or> meth = ''HEAD'') \<and> path = ''/favicon.svg'' then ServeFile (JoinPath [frontendDir, ''favicon.svg''])
         else NoRoute stat meth path)
      else if meth = ''GET'' \<and> path = ''/'' then StatusPage else NotFound)"

section \<open>Clean paths\<close>

text \<open>Elements of a clean relative path: no empty element, no dot, two dots only at the front.\<close>

definition clean_stack :: "string list \<Rightarrow> bool" where
  "clean_stack cs \<longleftrightarrow> (\<forall>c \<in> set cs. c \<noteq> [] \<and> c \<noteq> ''.'' \<and> CHR ''/'' \<notin> set c) \<and> ''..'' \<notin> set (dropWhile (\<lambda>c. c = ''..'') cs)"

lemma last_dropWhile: "dropWhile P cs \<noteq> [] \<Longrightarrow> last cs \<in> set (dropWhile P cs)"
  by (induction cs) auto

lemma clean_stack_snoc:
  assumes "clean_stack cs" and "c \<noteq> []" "c \<noteq> ''.''" "CHR ''/'' \<notin> set c" and "c = ''..'' \<Longrightarrow> cs = [] \<or> last cs = ''..''"
  shows "clean_stack (cs @ [c])"
proof (cases "\<forall>x \<in> set cs. x = ''..''")
  case True
  then have "dropWhile (\<lambda>c. c = ''..'') cs = []" by (simp add: dropWhile_eq_Nil_conv)
  then show ?thesis using True assms by (simp add: clean_stack_def dropWhile_append)
next
  case False
  then have "last cs \<in> set (dropWhile (\<lambda>c. c = ''..'') cs)" "cs \<noteq> []"
    using last_dropWhile [of "\<lambda>c. c = ''..''" cs] by (auto simp: dropWhile_eq_Nil_conv)
  then have "c \<noteq> ''..''" using assms(1,5) by (auto simp: clean_stack_def)
  then show ?thesis using assms False by (auto simp: clean_stack_def dropWhile_append)
qed

lemma clean_stack_butlast:
  assumes "clean_stack (cs @ [c])"
  shows "clean_stack cs"
proof (cases "\<forall>x \<in> set cs. x = ''..''")
  case True
  then have "dropWhile (\<lambda>c. c = ''..'') cs = []" by (simp add: dropWhile_eq_Nil_conv)
  with assms show ?thesis unfolding clean_stack_def \<open>dropWhile (\<lambda>c. c = ''..'') cs = []\<close> by simp
next
  case False
  with assms show ?thesis unfolding clean_stack_def dropWhile_append by (auto split: if_split_asm)
qed

lemma clean_elems_clean:
  assumes "clean_stack (rev stack)" and "\<forall>c \<in> set cs. CHR ''/'' \<notin> set c"
  shows "clean_stack (clean_elems False stack cs)"
  using assms
proof (induction cs arbitrary: stack)
  case (Cons c cs)
  show ?case
  proof (cases "c = ''..'' \<and> stack \<noteq> [] \<and> hd stack \<noteq> ''..''")
    case True
    then have "clean_stack (rev (tl stack))" using Cons.prems(1) clean_stack_butlast by (cases stack) auto
    then show ?thesis using Cons True by simp
  next
    case False
    have "clean_stack (rev (c # stack))" if "c \<noteq> []" "c \<noteq> ''.''"
      using clean_stack_snoc [OF Cons.prems(1) that] Cons.prems(2) False by (auto simp: last_rev)
    then show ?thesis using Cons False by auto
  qed
qed simp

lemma dots_at_front: "clean_stack (rev stack @ ''..'' # cs) \<Longrightarrow> stack = [] \<or> hd stack = ''..''"
  by (cases stack) (auto simp: clean_stack_def dropWhile_append split: if_splits)

lemma clean_elems_id: "clean_stack (rev stack @ cs) \<Longrightarrow> clean_elems False stack cs = rev stack @ cs"
proof (induction cs arbitrary: stack)
  case (Cons c cs)
  have "c \<noteq> []" "c \<noteq> ''.''" using Cons.prems by (auto simp: clean_stack_def)
  moreover have "c = ''..'' \<Longrightarrow> stack = [] \<or> hd stack = ''..''" using dots_at_front Cons.prems by blast
  ultimately show ?case using Cons by auto
qed simp

lemma Join_not_rooted: "clean_stack cs \<Longrightarrow> \<not> is_rooted (Join ''/'' cs)"
  by (cases cs; cases "tl cs") (auto simp: clean_stack_def is_rooted_def neq_Nil_conv)

lemma Join_Nil: "clean_stack cs \<Longrightarrow> Join ''/'' cs = [] \<longleftrightarrow> cs = []"
  by (cases cs; cases "tl cs") (auto simp: clean_stack_def)

lemma elements_Join: "clean_stack cs \<Longrightarrow> elements (Join ''/'' cs) = cs"
  using Split_Join [of cs "CHR ''/''"] by (auto simp: elements_def Join_Nil) (auto simp: clean_stack_def)

text \<open>The string of a clean path, and that \<open>Clean\<close> gives one and keeps one.\<close>

definition clean_path :: "string list \<Rightarrow> string" where
  "clean_path cs = (if cs = [] then ''.'' else Join ''/'' cs)"

lemma Clean_elements:
  assumes "\<not> is_rooted path"
  shows "clean_stack (clean_elems False [] (Split (CHR ''/'') path)) \<and> Clean path = clean_path (clean_elems False [] (Split (CHR ''/'') path))"
proof -
  have "clean_stack (clean_elems False [] (Split (CHR ''/'') path))"
    by (rule clean_elems_clean) (auto simp: clean_stack_def dest: Split_fields)
  then show ?thesis using assms by (simp add: Clean_def Let_def Join_Nil clean_path_def)
qed

lemma Clean_clean:
  assumes "clean_stack cs"
  shows "Clean (clean_path cs) = clean_path cs"
proof (cases "cs = []")
  case True
  have "Clean ''.'' = ''.''" by code_simp
  with True show ?thesis by (simp add: clean_path_def)
next
  case False
  have "Split (CHR ''/'') (Join ''/'' cs) = cs" using elements_Join [OF assms] Join_Nil [OF assms] False by (simp add: elements_def)
  then have "clean_elems False [] (Split (CHR ''/'') (Join ''/'' cs)) = cs" using clean_elems_id [of "[]" cs] assms by simp
  then show ?thesis using Join_not_rooted [OF assms] False by (simp add: Clean_def clean_path_def Join_Nil assms)
qed

lemma strip_common_prefix: "fst (strip_common bs ts) = [] \<Longrightarrow> ts = bs @ snd (strip_common bs ts)"
  by (induction bs ts rule: strip_common.induct) (auto split: if_splits)

lemma strip_common_append: "strip_common bs (bs @ ts) = ([], ts)"
  by (induction bs) (auto intro: strip_common.simps)

section \<open>What is served\<close>

text \<open>The elements below \<open>web/dist\<close> of a requested path, when it stays there.\<close>

lemma JoinPath_dir:
  "\<exists>cs. clean_stack cs \<and> JoinPath [frontendDir, p] = clean_path cs \<and>
     cs = clean_elems False [''dist'', ''web''] (Split (CHR ''/'') p)"
proof -
  let ?s = "frontendDir @ ''/'' @ p"
  have sp: "Split (CHR ''/'') ?s = ''web'' # ''dist'' # Split (CHR ''/'') p" by (simp add: frontendDir_def)
  have j: "JoinPath [frontendDir, p] = Clean ?s" by (simp add: frontendDir_def)
  have "\<not> is_rooted ?s" by (simp add: frontendDir_def is_rooted_def)
  from Clean_elements [OF this] show ?thesis unfolding j sp by (auto simp: numeral_2_eq_2)
qed

lemma dir_stack: "clean_stack [''web'', ''dist'']"
  by (simp add: clean_stack_def)

lemma frontendDir_path: "frontendDir = clean_path [''web'', ''dist'']"
  by (simp add: frontendDir_def clean_path_def)

lemma Rel_dir:
  assumes "clean_stack cs" and "Rel frontendDir (clean_path cs) = Some rel" and "\<not> HasPrefix rel ''..''"
  shows "\<exists>below. cs = ''web'' # ''dist'' # below"
proof (cases "cs = [''web'', ''dist'']")
  case False
  let ?p = "strip_common [''web'', ''dist''] (elements (clean_path cs))"
  have d: "Clean frontendDir = frontendDir" unfolding frontendDir_path by (rule Clean_clean [OF dir_stack])
  have e: "elements frontendDir = [''web'', ''dist'']" by code_simp
  have r: "\<not> is_rooted frontendDir" "frontendDir \<noteq> ''.''" by (simp_all add: frontendDir_def is_rooted_def)
  have ne: "clean_path cs \<noteq> frontendDir"
  proof
    assume "clean_path cs = frontendDir"
    then have "cs \<noteq> []" "Join ''/'' cs = Join ''/'' [''web'', ''dist'']" by (auto simp: clean_path_def frontendDir_def split: if_splits)
    then show False using elements_Join [OF assms(1)] elements_Join [OF dir_stack] False by metis
  qed
  have "rel = Join ''/'' (map (\<lambda>_. ''..'') (fst ?p) @ snd ?p)"
    using assms(2) ne r by (auto simp: Rel_def d e Let_def Clean_clean [OF assms(1)] split: if_splits prod.splits)
  moreover have "HasPrefix (Join ''/'' (map (\<lambda>_. ''..'') bs @ ts)) ''..''" if "bs \<noteq> []" for bs ts :: "string list"
    using that by (cases bs; cases "map (\<lambda>_. ''..'') (tl bs) @ ts") (simp_all add: HasPrefix_def Join_Cons)
  ultimately have "fst ?p = []" using assms(3) by metis
  then have "elements (clean_path cs) = ''web'' # ''dist'' # snd ?p" using strip_common_prefix by force
  moreover have "elements (clean_path cs) = (if cs = [] then [''.''] else cs)"
    using elements_Join [OF assms(1)] by (auto simp: clean_path_def elements_def)
  ultimately show ?thesis by (auto split: if_splits)
qed simp

lemma below_dir:
  assumes "clean_stack (''web'' # ''dist'' # below)"
  shows "''..'' \<notin> set below"
  using assms by (simp add: clean_stack_def)

lemma served_paths: "indexPath = Join ''/'' [''web'', ''dist'', ''index.html'']"
  "JoinPath [frontendDir, ''favicon.svg''] = Join ''/'' [''web'', ''dist'', ''favicon.svg'']"
  by code_simp+

lemma Rel_below:
  assumes "clean_stack (''web'' # ''dist'' # below)" and "below \<noteq> []"
  shows "Rel frontendDir (clean_path (''web'' # ''dist'' # below)) = Some (Join ''/'' below)"
proof -
  let ?cs = "''web'' # ''dist'' # below"
  have d: "Clean frontendDir = frontendDir" unfolding frontendDir_path by (rule Clean_clean [OF dir_stack])
  have e: "elements frontendDir = [''web'', ''dist'']" by code_simp
  have r: "\<not> is_rooted frontendDir" "frontendDir \<noteq> ''.''" by (simp_all add: frontendDir_def is_rooted_def)
  have cp: "clean_path ?cs = Join ''/'' ?cs" "elements (clean_path ?cs) = ?cs" "\<not> is_rooted (clean_path ?cs)"
    using elements_Join [OF assms(1)] Join_not_rooted [OF assms(1)] by (simp_all add: clean_path_def)
  have "clean_path ?cs \<noteq> frontendDir" using cp(2) e assms(2) by (metis list.inject)
  then show ?thesis
    using strip_common_append [of "[''web'', ''dist'']" below] by (simp add: Rel_def Let_def d e r cp(2,3) Clean_clean [OF assms(1)])
qed

lemma plain_prefix:
  assumes "c \<noteq> ''.''" and "c \<noteq> []" and "\<not> HasPrefix c ''..''"
  shows "\<not> HasPrefix (Join ''/'' (c # cs)) ''..''"
  using assms by (cases c; cases "tl c"; cases cs) (auto simp: HasPrefix_def)

definition inside_dir :: "string \<Rightarrow> bool" where
  "inside_dir file \<longleftrightarrow> (\<exists>below. file = Join ''/'' (''web'' # ''dist'' # below) \<and> (\<forall>c \<in> set below. c \<noteq> ''..'' \<and> CHR ''/'' \<notin> set c))"

definition plain_elements :: "string list \<Rightarrow> bool" where
  "plain_elements below \<longleftrightarrow> below \<noteq> [] \<and> (\<forall>c \<in> set below. c \<notin> {[], ''.'', ''..''} \<and> CHR ''/'' \<notin> set c) \<and> \<not> HasPrefix (hd below) ''..''"

lemma plain_stack: "plain_elements below \<Longrightarrow> clean_stack (''web'' # ''dist'' # below)"
  by (auto simp: plain_elements_def clean_stack_def)

lemma inside_served: "inside_dir (Join ''/'' [''web'', ''dist'', ''index.html''])" "inside_dir (Join ''/'' [''web'', ''dist'', ''favicon.svg''])"
  unfolding inside_dir_def by (rule exI [of _ "[''index.html'']"], simp) (rule exI [of _ "[''favicon.svg'']"], simp)

lemma NoRoute_inside:
  assumes "NoRoute stat ''GET'' path = ServeFile file"
  shows "inside_dir file \<and> (file = indexPath \<or> stat file = Some False)"
proof (cases "file = indexPath")
  case False
  obtain cs where cs: "clean_stack cs" "JoinPath [frontendDir, TrimPrefix path ''/''] = clean_path cs" using JoinPath_dir by blast
  obtain rel where rel: "Rel frontendDir (clean_path cs) = Some rel" "\<not> HasPrefix rel ''..''" "stat (clean_path cs) = Some False" "file = clean_path cs"
    using assms False by (auto simp: NoRoute_def Let_def cs(2) Clean_clean [OF cs(1)] simp del: JoinPath.simps split: option.splits if_splits)
  from Rel_dir [OF cs(1) rel(1,2)] obtain below where b: "cs = ''web'' # ''dist'' # below" by blast
  have "\<forall>c \<in> set below. c \<noteq> ''..'' \<and> CHR ''/'' \<notin> set c"
    using below_dir cs(1) unfolding b by (fastforce simp: clean_stack_def)
  then show ?thesis using rel(3,4) unfolding b inside_dir_def by (auto simp: clean_path_def)
next
  case True
  then show ?thesis using inside_served(1) unfolding served_paths by blast
qed

lemma NoRoute_plain:
  assumes "plain_elements below" and "stat (Join ''/'' (''web'' # ''dist'' # below)) = Some False"
  shows "NoRoute stat ''GET'' (''/'' @ Join ''/'' below) = ServeFile (Join ''/'' (''web'' # ''dist'' # below))"
proof -
  let ?cs = "''web'' # ''dist'' # below"
  note st = plain_stack [OF assms(1)]
  have sp: "Split (CHR ''/'') (Join ''/'' below) = below"
    using assms(1) by (intro Split_Join) (auto simp: plain_elements_def)
  have "clean_elems False [''dist'', ''web''] below = ?cs" using clean_elems_id [of "[''dist'', ''web'']" below] st by simp
  with JoinPath_dir [of "Join ''/'' below"] sp have j: "JoinPath [frontendDir, Join ''/'' below] = clean_path ?cs" by auto
  have "\<not> HasPrefix (Join ''/'' below) ''..''"
    using assms(1) plain_prefix [of "hd below" "tl below"] by (cases below) (auto simp: plain_elements_def)
  moreover have "Rel frontendDir (clean_path ?cs) = Some (Join ''/'' below)"
    using Rel_below [OF st] assms(1) by (simp add: plain_elements_def)
  moreover have "clean_path ?cs = Join ''/'' ?cs" by (simp add: clean_path_def)
  ultimately show ?thesis
    using assms(2) j Clean_clean [OF st] by (simp add: NoRoute_def TrimPrefix_def HasPrefix_def del: Join.simps JoinPath.simps)
qed



end
