(* ===== verification/Process.thy ===== *)
theory Process
  imports Consumer_Properties Http_Sender Stoppage_Filter Hooshnics_Forwarder Api_Handler Async_Writer Tcp_Pipeline Metrics Request_Tracker Config
begin

text \<open>
  The life of the process (\<open>main\<close> of \<open>cmd/server/main.go\<close>): the parts are created in order, each
  from the configuration and the parts before it, and register the calls that close them; a part
  that fails to start ends the process at once, without these calls; a signal stops the consumer
  and the HTTP server, and then the registered calls run in reverse order.
\<close>

section \<open>Parts and the calls that stop them\<close>

datatype component =
  TheQueue | TheSender | TheFilter | TheMirror | TheBroadcaster | TheStore | TheWriter | TheConsumer | TheTcpServer | TheHttpServer

datatype stop_call =
    SyncLogger | CloseQueue | CloseSender | CloseFilter | CloseMirror | CloseBroadcaster | CloseWriter | CloseStore
  | StopTcpServer | CancelShutdown | StopConsumer | ShutdownHttp

fun stop_of :: "component \<Rightarrow> stop_call" where
  "stop_of TheQueue = CloseQueue"
| "stop_of TheSender = CloseSender"
| "stop_of TheFilter = CloseFilter"
| "stop_of TheMirror = CloseMirror"
| "stop_of TheBroadcaster = CloseBroadcaster"
| "stop_of TheStore = CloseStore"
| "stop_of TheWriter = CloseWriter"
| "stop_of TheConsumer = StopConsumer"
| "stop_of TheTcpServer = StopTcpServer"
| "stop_of TheHttpServer = ShutdownHttp"

text \<open>
  Which part calls which while it runs: the message handler of the consumer, the HTTP handlers and
  the TCP sessions, the filter's synchronisation, and the writer.
\<close>

definition uses :: "(component \<times> component) list" where
  "uses = [(TheConsumer, TheQueue), (TheConsumer, TheSender), (TheConsumer, TheFilter), (TheConsumer, TheMirror),
     (TheConsumer, TheBroadcaster), (TheConsumer, TheWriter), (TheHttpServer, TheQueue), (TheHttpServer, TheMirror),
     (TheHttpServer, TheStore), (TheTcpServer, TheQueue), (TheTcpServer, TheMirror), (TheFilter, TheQueue), (TheWriter, TheStore)]"

section \<open>Starting\<close>

text \<open>
  What the process meets outside: the environment, whether the logger can be built, Redis with the
  stored states of the filter, the files of the spill directory, the database when it can be
  opened and migrated, the clock, and whether the two servers can listen.
\<close>

record ('r, 'd) outside =
  ou_environ :: environ
  ou_logger_ok :: bool
  ou_redis_ops :: "'r redis_ops"
  ou_redis :: 'r
  ou_pages :: "scan_page list"
  ou_files :: spill_files
  ou_database :: "'d option"
  ou_nowUnix :: int
  ou_tcp_listens :: bool
  ou_http_listens :: bool

datatype start_error =
    LoadFailed config_error
  | LoggerFailed
  | QueueFailed queue_error
  | MirrorFailed forwarder_error
  | StoreFailed
  | TcpListenFailed
  | HttpListenFailed

text \<open>
  The database of the writer carries the flag that \<open>sql.DB.Close\<close> sets: no transaction begins on a
  closed database, one that has begun goes on.
\<close>

type_synonym 'd sql_DB = "'d \<times> bool"

definition DB_ops :: "'d db_ops \<Rightarrow> 'd sql_DB db_ops" where
  "DB_ops ops = \<lparr>
     db_begin = \<lambda>(d, closed). if closed then (False, (d, closed)) else (let (ok, d') = db_begin ops d in (ok, (d', closed))),
     db_exec = \<lambda>q args (d, closed). (let (ok, d') = db_exec ops q args d in (ok, (d', closed))),
     db_commit = \<lambda>(d, closed). (let (ok, d') = db_commit ops d in (ok, (d', closed))),
     db_rollback = \<lambda>(d, closed). (db_rollback ops d, closed)\<rparr>"

definition Close_store :: "'d sql_DB \<Rightarrow> 'd sql_DB" where
  "Close_store db = (fst db, True)"

record ('r, 'd) process =
  pr_cfg :: Config
  pr_opened :: "component list"
  pr_deferred :: "stop_call list"
  pr_metrics :: Metrics
  pr_tracker :: RequestTracker
  pr_redis :: 'r
  pr_queue :: RedisQueue
  pr_sender :: HTTPSender
  pr_filter :: stoppageFilter
  pr_mirror :: "mirror_system option"
  pr_broadcaster :: "string broadcaster option"
  pr_writer :: "'d sql_DB AsyncWriter option"
  pr_consumer :: "Consumer option"
  pr_handler :: "Handler option"
  pr_server :: "Server option"
  pr_pipeline :: "pipeline option"

definition opened :: "component \<Rightarrow> stop_call list \<Rightarrow> ('r, 'd) process \<Rightarrow> ('r, 'd) process" where
  "opened c calls p = p\<lparr>pr_opened := pr_opened p @ [c], pr_deferred := pr_deferred p @ calls\<rparr>"

text \<open>\<open>os.Exit\<close> and \<open>logger.Fatal\<close>: the process ends with what was open and none of the deferred calls.\<close>

type_synonym exit = "start_error \<times> component list"

text \<open>A call without an error result: all that can go wrong is a panic.\<close>

definition no_error :: "(unit, 'a) result \<Rightarrow> (exit, 'a) result" where
  "no_error r = (case r of Ok x \<Rightarrow> Ok x | _ \<Rightarrow> Panic)"

definition or_exit :: "('e \<Rightarrow> start_error) \<Rightarrow> component list \<Rightarrow> ('e, 'a) result \<Rightarrow> (exit, 'a) result" where
  "or_exit why cs r = (case r of Ok x \<Rightarrow> Ok x | Err e \<Rightarrow> Err (why e, cs) | Panic \<Rightarrow> Panic)"

text \<open>The configuration, the logger, the metrics, the tracker, the queue, the sender and the filter.\<close>

definition start_core :: "('r, 'd) outside \<Rightarrow> (exit, ('r, 'd) process) result" where
  "start_core out =
     andThen (or_exit LoadFailed [] (Load (ou_environ out))) (\<lambda>cfg.
     if \<not> ou_logger_ok out then Err (LoggerFailed, [])
     else andThen (no_error (InitMetrics [])) (\<lambda>(metrics, _).
       let (res, redis) = NewRedisQueue (ou_redis_ops out) (cfg_Redis cfg) (ou_redis out)
       in andThen (or_exit QueueFailed [] res) (\<lambda>queue. Ok \<lparr>
         pr_cfg = cfg, pr_opened = [TheQueue, TheSender, TheFilter], pr_deferred = [SyncLogger, CloseQueue, CloseSender, CloseFilter],
         pr_metrics = metrics,
         pr_tracker = NewRequestTrackerWithSampling (tc_MaxRequests (cfg_Tracking cfg)) (tc_SampleRate (cfg_Tracking cfg))
           (tc_Enabled (cfg_Tracking cfg)),
         pr_redis = redis, pr_queue = queue,
         pr_sender = NewHTTPSender (http_DestinationServers (cfg_HTTP cfg)) (orl_RequestsPerSecond (cfg_OutgoingRateLimit cfg))
           (orl_BurstSize (cfg_OutgoingRateLimit cfg)) (ry_MaxAttempts (cfg_Retry cfg)) (ry_DelayFirst (cfg_Retry cfg)),
         pr_filter = NewStoppageFilter (Config.fc_Enabled (cfg_Filter cfg)) (ou_pages out),
         pr_mirror = None, pr_broadcaster = None, pr_writer = None, pr_consumer = None, pr_handler = None,
         pr_server = None, pr_pipeline = None\<rparr>)))"

definition mirror_config :: "HooshnicsConfig \<Rightarrow> Forwarder_Config" where
  "mirror_config c = \<lparr>fc_Enabled = hc_Enabled c, fc_AuthToken = hc_AuthToken c, fc_RawURL = hc_RawURL c, fc_ParsedURL = hc_ParsedURL c,
     fc_BufferSize = hc_BufferSize c, fc_SpillDir = hc_SpillDir c, fc_Timeout = hc_Timeout c, fc_Workers = hc_Workers c\<rparr>"

definition start_mirror :: "('r, 'd) outside \<Rightarrow> ('r, 'd) process \<Rightarrow> (exit, ('r, 'd) process) result" where
  "start_mirror out p =
     andThen (or_exit MirrorFailed (pr_opened p) (NewForwarder (mirror_config (cfg_Hooshnics (pr_cfg p))) (ou_files out))) (\<lambda>fw.
       case fw of
         None \<Rightarrow> Ok p
       | Some f \<Rightarrow> Ok (opened TheMirror [CloseMirror] (p\<lparr>pr_mirror := Some (Start_forwarder f)\<rparr>)))"

definition start_broadcaster :: "('r, 'd) process \<Rightarrow> ('r, 'd) process" where
  "start_broadcaster p =
     (case NewAsyncBroadcaster True 10000 of
        None \<Rightarrow> p
      | Some ab \<Rightarrow> opened TheBroadcaster [CloseBroadcaster] (p\<lparr>pr_broadcaster := Some ab\<rparr>))"

text \<open>The writer's call is deferred before the store's, and so runs after it.\<close>

definition start_storage :: "('r, 'd) outside \<Rightarrow> ('r, 'd) process \<Rightarrow> (exit, ('r, 'd) process) result" where
  "start_storage out p =
     (if \<not> pg_Enabled (cfg_Postgres (pr_cfg p)) then Ok p
      else case ou_database out of
        None \<Rightarrow> Err (StoreFailed, pr_opened p)
      | Some d \<Rightarrow> Ok (opened TheWriter [CloseWriter, CloseStore]
          (opened TheStore [] (p\<lparr>pr_writer := NewAsyncWriter (Some (d, False)) 0\<rparr>))))"

definition start_consumer :: "('r, 'd) outside \<Rightarrow> ('r, 'd) process \<Rightarrow> (exit, ('r, 'd) process) result" where
  "start_consumer out p =
     (let cfg = pr_cfg p;
          consumer = NewConsumer (pr_queue p) (wc_Count (cfg_Worker cfg)) (wc_BatchSize (cfg_Worker cfg)) (ry_MaxAttempts (cfg_Retry cfg))
            (ou_nowUnix out)
      in andThen (no_error (InitWorkerCounts (wc_Count (cfg_Worker cfg)) (pr_metrics p))) (\<lambda>metrics.
         Ok (opened TheConsumer [] (p\<lparr>pr_consumer := Some consumer, pr_metrics := metrics\<rparr>))))"

text \<open>
  The handlers and the servers.  The mirror reaches the TCP server as an interface that is never
  nil, also when it holds a nil forwarder.
\<close>

definition start_servers :: "('r, 'd) outside \<Rightarrow> ('r, 'd) process \<Rightarrow> (exit, ('r, 'd) process) result" where
  "start_servers out p0 =
     (let cfg = pr_cfg p0;
          p = p0\<lparr>pr_handler := Some (NewHandler (pr_queue p0) (rc_QueueBackpressureLimit (cfg_Redis cfg)) (tk_TimezoneOffset (cfg_Teltonika cfg)))\<rparr>;
          http = (\<lambda>p. if ou_http_listens out then Ok (opened TheHttpServer [] p) else Err (HttpListenFailed, pr_opened p))
      in case NewServer (cfg_Teltonika cfg) True True of
           None \<Rightarrow> http p
         | Some s \<Rightarrow>
             (let (ok, pipe) = Start_server (ou_tcp_listens out)
              in if \<not> ok then Err (TcpListenFailed, pr_opened p)
                 else http (opened TheTcpServer [StopTcpServer] (p\<lparr>pr_server := Some s, pr_pipeline := Some pipe\<rparr>))))"

definition startup :: "('r, 'd) outside \<Rightarrow> (exit, ('r, 'd) process) result" where
  "startup out =
     andThen (start_core out) (\<lambda>p. andThen (start_mirror out p) (\<lambda>p. andThen (start_storage out (start_broadcaster p)) (\<lambda>p.
       andThen (start_consumer out p) (start_servers out))))"

section \<open>The tickers\<close>

text \<open>Every five seconds the gauges, the queue depth only when Redis answers; every five minutes the old requests.\<close>

definition metrics_tick :: "'r redis_ops \<Rightarrow> ('r, 'd) process \<Rightarrow> (unit, ('r, 'd) process) result" where
  "metrics_tick ops p =
     andThen (SetWorkerPoolSize (wc_Count (cfg_Worker (pr_cfg p))) (pr_metrics p)) (\<lambda>m1.
     andThen (UpdateFilterStateCount (int (GetStateCount (pr_filter p))) m1) (\<lambda>m2.
     let (len, redis) = op_XLen ops (pr_redis p)
     in andThen (case len of Ok n \<Rightarrow> UpdateQueueDepth n m2 | _ \<Rightarrow> Ok m2) (\<lambda>m3.
       Ok (p\<lparr>pr_metrics := m3, pr_redis := redis\<rparr>))))"

definition tracker_tick :: "int \<Rightarrow> ('r, 'd) process \<Rightarrow> ('r, 'd) process" where
  "tracker_tick now p = p\<lparr>pr_tracker := snd (Cleanup now (30 * Minute) (pr_tracker p))\<rparr>"

section \<open>Stopping\<close>

text \<open>After the signal: two calls, and the deferred ones in reverse, the last that was deferred first.\<close>

definition shutdown :: "('r, 'd) process \<Rightarrow> stop_call list" where
  "shutdown p = [StopConsumer, ShutdownHttp] @ rev (pr_deferred p @ [CancelShutdown])"

text \<open>
  The writer while these calls are made, one after the other: its goroutines run all the time, the
  store's call closes the database under them, and the writer's call cancels, closes the channel
  and returns when the writing goroutine has returned.
\<close>

definition working :: "'d db_ops \<Rightarrow> (parsed_payload \<Rightarrow> u8 list option) \<Rightarrow> 'd sql_DB AsyncWriter \<Rightarrow> 'd sql_DB AsyncWriter \<Rightarrow> bool" where
  "working ops marshal w w' \<longleftrightarrow>
     writer_reach (DB_ops ops) marshal w w' \<and> aw_cancelled w' = aw_cancelled w \<and> aw_closed w' = aw_closed w"

inductive stopping ::
  "'d db_ops \<Rightarrow> (parsed_payload \<Rightarrow> u8 list option) \<Rightarrow> stop_call list \<Rightarrow> 'd sql_DB AsyncWriter \<Rightarrow> 'd sql_DB AsyncWriter \<Rightarrow> bool"
  for ops marshal where
  stopped: "working ops marshal w w' \<Longrightarrow> stopping ops marshal [] w w'"
| close_store: "working ops marshal w w1 \<Longrightarrow> stopping ops marshal calls (w1\<lparr>aw_db := Close_store (aw_db w1)\<rparr>) w' \<Longrightarrow>
    stopping ops marshal (CloseStore # calls) w w'"
| close_writer: "writer_reach (DB_ops ops) marshal w w1 \<Longrightarrow> aw_cancelled w1 \<Longrightarrow> aw_closed w1 \<Longrightarrow> aw_returned w1 \<Longrightarrow>
    stopping ops marshal calls w1 w' \<Longrightarrow> stopping ops marshal (CloseWriter # calls) w w'"
| other: "call \<notin> {CloseStore, CloseWriter} \<Longrightarrow> working ops marshal w w1 \<Longrightarrow> stopping ops marshal calls w1 w' \<Longrightarrow>
    stopping ops marshal (call # calls) w w'"

inductive_cases stopping_NilE: "stopping ops marshal [] w w'"

inductive_cases stopping_ConsE: "stopping ops marshal (call # calls) w w'"

section \<open>The order of the stops\<close>

fun before :: "'a \<Rightarrow> 'a \<Rightarrow> 'a list \<Rightarrow> bool" where
  "before a b [] \<longleftrightarrow> False"
| "before a b (x # xs) \<longleftrightarrow> (if x = a then b \<in> set xs else before a b xs)"

lemma startup_shape:
  assumes "startup out = Ok p"
  shows "pr_opened p = [TheQueue, TheSender, TheFilter] @ (if pr_mirror p = None then [] else [TheMirror]) @ [TheBroadcaster] @
      (if pr_writer p = None then [] else [TheStore, TheWriter]) @ [TheConsumer] @
      (if pr_pipeline p = None then [] else [TheTcpServer]) @ [TheHttpServer]" (is ?opened)
    and "pr_deferred p = [SyncLogger, CloseQueue, CloseSender, CloseFilter] @ (if pr_mirror p = None then [] else [CloseMirror]) @
      [CloseBroadcaster] @ (if pr_writer p = None then [] else [CloseWriter, CloseStore]) @
      (if pr_pipeline p = None then [] else [StopTcpServer])" (is ?deferred)
    and "pr_writer p = None \<or> (\<exists>d. pr_writer p = NewAsyncWriter (Some (d, False)) 0)" (is ?writer)
proof -
  obtain p1 p2 p3 p4 where p: "start_core out = Ok p1" "start_mirror out p1 = Ok p2" "start_storage out (start_broadcaster p2) = Ok p3"
    "start_consumer out p3 = Ok p4" "start_servers out p4 = Ok p"
    using assms by (auto simp: startup_def andThen_eq_Ok)
  have 1: "pr_opened p1 = [TheQueue, TheSender, TheFilter]" "pr_deferred p1 = [SyncLogger, CloseQueue, CloseSender, CloseFilter]"
    "pr_mirror p1 = None" "pr_writer p1 = None" "pr_pipeline p1 = None"
    using p(1) by (auto simp: start_core_def andThen_eq_Ok split_beta Let_def split: if_splits)
  have 2: "pr_opened p2 = pr_opened p1 @ (if pr_mirror p2 = None then [] else [TheMirror])"
    "pr_deferred p2 = pr_deferred p1 @ (if pr_mirror p2 = None then [] else [CloseMirror])"
    "pr_writer p2 = None" "pr_pipeline p2 = None"
    using p(2) 1 by (auto simp: start_mirror_def andThen_eq_Ok opened_def split: option.splits)
  let ?b = "start_broadcaster p2"
  have b: "pr_opened ?b = pr_opened p2 @ [TheBroadcaster]" "pr_deferred ?b = pr_deferred p2 @ [CloseBroadcaster]"
    "pr_mirror ?b = pr_mirror p2" "pr_writer ?b = None" "pr_pipeline ?b = None"
    using 2 by (simp_all add: start_broadcaster_def NewAsyncBroadcaster_def opened_def)
  have w: "(NewAsyncWriter (Some x) n = None) = False" for x :: "'b sql_DB" and n by (simp add: NewAsyncWriter_def)
  have 3: "pr_opened p3 = pr_opened ?b @ (if pr_writer p3 = None then [] else [TheStore, TheWriter])"
    "pr_deferred p3 = pr_deferred ?b @ (if pr_writer p3 = None then [] else [CloseWriter, CloseStore])"
    "pr_mirror p3 = pr_mirror ?b" "pr_pipeline p3 = None" "pr_writer p3 = None \<or> (\<exists>d. pr_writer p3 = NewAsyncWriter (Some (d, False)) 0)"
    using p(3) b by (auto simp: w start_storage_def opened_def split: if_splits option.splits)
  have 4: "pr_opened p4 = pr_opened p3 @ [TheConsumer]" "pr_deferred p4 = pr_deferred p3" "pr_mirror p4 = pr_mirror p3"
    "pr_writer p4 = pr_writer p3" "pr_pipeline p4 = None"
    using p(4) 3(4) by (auto simp: start_consumer_def andThen_eq_Ok opened_def Let_def)
  have 5: "pr_opened p = pr_opened p4 @ (if pr_pipeline p = None then [] else [TheTcpServer]) @ [TheHttpServer]"
    "pr_deferred p = pr_deferred p4 @ (if pr_pipeline p = None then [] else [StopTcpServer])" "pr_mirror p = pr_mirror p4"
    "pr_writer p = pr_writer p4"
    using p(5) 4(5) by (auto simp: start_servers_def opened_def Let_def split_beta split: if_splits option.splits)
  show ?opened ?deferred ?writer using 1 2 b 3 4 5 by simp_all
qed

text \<open>
  C18: A process that has started has created every part after the parts it uses, and stops every
  part exactly once and before the parts it uses, with one exception: the database is closed
  before the writer that stores into it.
\<close>

theorem shutdown_order:
  assumes "startup out = Ok p"
  shows "distinct (shutdown p) \<and> (\<forall>c \<in> set (pr_opened p). stop_of c \<in> set (shutdown p)) \<and>
    (\<forall>(user, used) \<in> set uses. user \<in> set (pr_opened p) \<and> used \<in> set (pr_opened p) \<longrightarrow>
       before used user (pr_opened p) \<and>
       (if (user, used) = (TheWriter, TheStore) then before CloseStore CloseWriter (shutdown p)
        else before (stop_of user) (stop_of used) (shutdown p)))"
  using startup_shape(1,2) [OF assms] by (simp add: shutdown_def uses_def)

end
