(* ===== verification/Process_Properties.thy ===== *)
theory Process_Properties
  imports Process
begin

text \<open>
  What the order of the stops means for the writes to the database: those that wait when the
  database is closed are still taken from the channel, and lost.  With the witnesses for a process
  that runs on Redis and PostgreSQL alone.
\<close>

section \<open>A tick\<close>

text \<open>No tick panics, and the gauges show the pool, the filter and the queue as they are.\<close>

lemma metrics_tick_gauges:
  assumes "mt_descs (pr_metrics p) = metric_descs"
  shows "\<exists>p'. metrics_tick ops p = Ok p' \<and> mt_descs (pr_metrics p') = metric_descs \<and>
    amount ''gps_receiver_worker_pool_size'' (pr_metrics p') = wc_Count (cfg_Worker (pr_cfg p)) \<and>
    amount ''gps_receiver_filter_state_count'' (pr_metrics p') = int (GetStateCount (pr_filter p)) \<and>
    (\<forall>n. fst (op_XLen ops (pr_redis p)) = Ok n \<longrightarrow> amount ''gps_receiver_queue_depth'' (pr_metrics p') = n)"
  using assms
  by (auto simp: metrics_tick_def metric_ops SetGauge_def metric_labels split_beta Let_def andThen_eq_Ok split: result.splits)

section \<open>A closed database\<close>

lemma process_op_closed: "process_op (DB_ops ops) marshal now op (d, True) = (err, db) \<Longrightarrow> db = (d, True)"
  by (cases op) (auto simp: process_op_def StoreRecords_def StoreFailedRecords_def StoreInvalidRecords_def in_transaction_def DB_ops_def
      Let_def split: if_splits)

lemma enqueue_op_db: "aw_db (enqueue_op op out w) = aw_db w"
  by (cases out) (simp_all add: enqueue_op_def after_select_def)

lemma after_select_db: "aw_db (after_select op out w) = aw_db w"
  by (cases out) (simp_all add: after_select_def)

lemma closed_db_step: "writer_step (DB_ops ops) marshal w w' \<Longrightarrow> snd (aw_db w) \<Longrightarrow> aw_db w' = aw_db w"
proof (induction rule: writer_step.induct)
  case (store w op now err d)
  then show ?case using process_op_closed [of ops marshal now op "fst (aw_db w)"] by (cases "aw_db w") simp
qed (simp_all add: enqueue_op_db after_select_db)

interpretation closed: conserving_system "\<lambda>w. snd (aw_db w)" "writer_step (DB_ops ops) marshal" "\<lambda>w. snd (aw_db w)" aw_db
  for ops :: "'d db_ops" and marshal
  by unfold_locales (simp_all add: closed_db_step)

section \<open>The history grows\<close>

definition grows :: "'d AsyncWriter \<Rightarrow> 'd AsyncWriter \<Rightarrow> bool" where
  "grows w w' \<longleftrightarrow>
     (\<exists>xs. aw_finished w' = aw_finished w @ xs) \<and> (\<exists>ys. aw_abandoned w' = aw_abandoned w @ ys) \<and>
     (\<exists>zs. aw_given w' = aw_given w @ zs) \<and> (aw_panicked w \<longrightarrow> aw_panicked w') \<and> (aw_returned w \<longrightarrow> aw_returned w')"

lemma grows_trans: "grows w1 w2 \<Longrightarrow> grows w2 w3 \<Longrightarrow> grows w1 w3"
  by (fastforce simp: grows_def)

lemma grows_step: "writer_step ops marshal w w' \<Longrightarrow> grows w w'"
proof (induction rule: writer_step.induct)
  case (give w out op)
  then show ?case by (cases out) (simp_all add: grows_def enqueue_op_def after_select_def)
next
  case (resend w op out)
  then show ?case by (cases out) (simp_all add: grows_def after_select_def)
qed (simp_all add: grows_def)

lemma grows_reach: "writer_reach ops marshal w w' \<Longrightarrow> grows w w'"
proof (induction rule: reachable.induct)
  case (reach_init s)
  then show ?case by (simp add: grows_def)
next
  case (reach_step s t)
  then show ?case using grows_trans grows_step by blast
qed

section \<open>Runs of the calls\<close>

lemma working_trans: "working ops marshal w1 w2 \<Longrightarrow> working ops marshal w2 w3 \<Longrightarrow> working ops marshal w1 w3"
  by (auto simp: working_def intro: reachable_from)

lemma stopping_others:
  "stopping ops marshal (calls @ rest) w w' \<Longrightarrow> CloseStore \<notin> set calls \<Longrightarrow> CloseWriter \<notin> set calls \<Longrightarrow>
    \<exists>w1. working ops marshal w w1 \<and> stopping ops marshal rest w1 w'"
proof (induction calls arbitrary: w)
  case Nil
  have "working ops marshal w w" by (simp add: working_def reach_init)
  with Nil show ?case by auto
next
  case (Cons call calls)
  obtain w1 where w1: "working ops marshal w w1" "stopping ops marshal (calls @ rest) w1 w'"
    using Cons.prems by (auto elim: stopping_ConsE)
  then show ?case using Cons.IH [OF w1(2)] Cons.prems(2,3) working_trans [OF w1(1)] by auto
qed

lemma stopping_only_others:
  assumes "stopping ops marshal calls w w'" and "CloseStore \<notin> set calls" and "CloseWriter \<notin> set calls"
  shows "working ops marshal w w'"
  using stopping_others [of ops marshal calls "[]"] assms stopping_NilE working_trans by (metis append_Nil2)

text \<open>
  C17: Every write that waits for the writer when the signal's calls reach the database is lost:
  the database is closed first, the writer then takes the waiting writes from the channel, and
  from that moment until the end of the process the database does not change.
\<close>

theorem shutdown_loses_writes:
  assumes "startup out = Ok p" and "pr_writer p = Some w0" and "working ops marshal w0 w"
    and "stopping ops marshal (shutdown p) w w'" and "\<not> aw_panicked w'"
  shows "\<exists>w1 xs ys. working ops marshal w w1 \<and> fst (aw_db w') = fst (aw_db w1) \<and> aw_returned w' \<and>
    aw_finished w' = aw_finished w1 @ xs \<and> aw_abandoned w' = aw_abandoned w1 @ ys \<and>
    mset (queued (aw_ch w1)) + mset (aw_senders w1) + (case aw_current w1 of None \<Rightarrow> {#} | Some op \<Rightarrow> {#op#}) \<subseteq>#
      mset xs + mset ys + mset (aw_senders w')"
proof -
  let ?post = "[CloseBroadcaster] @ (if pr_mirror p = None then [] else [CloseMirror]) @ [CloseFilter, CloseSender, CloseQueue, SyncLogger]"
  let ?pre = "[StopConsumer, ShutdownHttp, CancelShutdown] @ (if pr_pipeline p = None then [] else [StopTcpServer])"
  have "shutdown p = ?pre @ CloseStore # CloseWriter # ?post"
    using startup_shape(2) [OF assms(1)] assms(2) by (simp add: shutdown_def)
  with assms(4) have s: "stopping ops marshal (?pre @ CloseStore # CloseWriter # ?post) w w'" by (simp only:)
  have "CloseStore \<notin> set ?pre" "CloseWriter \<notin> set ?pre" by simp_all
  from stopping_others [OF s this] obtain w1 where
    w1: "working ops marshal w w1" "stopping ops marshal (CloseStore # CloseWriter # ?post) w1 w'" by (elim exE conjE)
  from w1(2) obtain w2 where w2: "working ops marshal w1 w2"
      "stopping ops marshal (CloseWriter # ?post) (w2\<lparr>aw_db := Close_store (aw_db w2)\<rparr>) w'"
    by (cases rule: stopping_ConsE) auto
  let ?w3 = "w2\<lparr>aw_db := Close_store (aw_db w2)\<rparr>"
  from w2(2) obtain w4 where w4: "writer_reach (DB_ops ops) marshal ?w3 w4" "aw_returned w4" "stopping ops marshal ?post w4 w'"
    by (cases rule: stopping_ConsE) auto
  have "working ops marshal w4 w'" using w4(3) by (rule stopping_only_others) simp_all
  then have 4: "grows w4 w'" and r: "writer_reach (DB_ops ops) marshal ?w3 w'"
    using grows_reach reachable_from w4(1) by (auto simp: working_def)
  have db: "aw_db w' = (fst (aw_db w2), True)" using closed.part_from [OF r] by (simp add: Close_store_def)
  obtain d where "NewAsyncWriter (Some (d, False)) 0 = Some w0" using startup_shape(3) [OF assms(1)] assms(2) by auto
  then have "writer_inv w0" by (intro writer.inv_init exI)
  moreover have "working ops marshal w0 w2"
    using working_trans [OF working_trans [OF assms(3) w1(1)] w2(1)] .
  ultimately have i2: "writer_inv w2" using writer.inv_from unfolding working_def by blast
  then have "writer_inv ?w3" by (simp add: writer_inv_def accounted_def flags_ok_def)
  then have i': "writer_inv w'" by (rule writer.inv_from [OF r])
  obtain xs ys zs where g: "aw_finished w' = aw_finished w2 @ xs" "aw_abandoned w' = aw_abandoned w2 @ ys" "aw_given w' = aw_given w2 @ zs"
    and np: "\<not> aw_panicked w2" using grows_reach [OF r] assms(5) by (auto simp: grows_def)
  have ret: "aw_returned w'" using 4 w4(2) by (simp add: grows_def)
  have "mset (aw_given w2) = mset (queued (aw_ch w2)) + mset (aw_senders w2) + current w2 + mset (aw_finished w2) + mset (aw_abandoned w2)"
    using i2 np by (simp add: writer_inv_def accounted_def)
  moreover have "queued (aw_ch w') = []" "aw_current w' = None" using i' ret by (simp_all add: writer_inv_def flags_ok_def)
  then have "mset (aw_given w') = mset (aw_senders w') + mset (aw_finished w') + mset (aw_abandoned w')"
    using i' assms(5) by (simp add: writer_inv_def accounted_def)
  ultimately have "mset (queued (aw_ch w2)) + mset (aw_senders w2) + current w2 + mset zs = mset xs + mset ys + mset (aw_senders w')"
    unfolding g by (simp add: ac_simps)
  then have "mset (queued (aw_ch w2)) + mset (aw_senders w2) + current w2 \<subseteq># mset xs + mset ys + mset (aw_senders w')"
    by (metis mset_subset_eq_add_left)
  moreover have "working ops marshal w w2" using w1(1) w2(1) by (rule working_trans)
  ultimately show ?thesis using db ret g(1,2) by (intro exI [of _ w2] exI [of _ xs] exI [of _ ys]) simp
qed

section \<open>A process on Redis and PostgreSQL\<close>

definition sample_outside :: "(log_stream, (string \<Rightarrow> sql_value list list) \<times> (string \<Rightarrow> sql_value list list)) outside" where
  "sample_outside = \<lparr>ou_environ = sample_env, ou_logger_ok = True, ou_redis_ops = log_ops, ou_redis = empty_stream, ou_pages = [],
     ou_files = Map.empty, ou_database = Some (\<lambda>_. [], \<lambda>_. []), ou_nowUnix = 0, ou_tcp_listens = True, ou_http_listens = True\<rparr>"

lemma sample_startup:
  "\<exists>p. startup sample_outside = Ok p \<and> pr_mirror p = None \<and> pr_writer p = NewAsyncWriter (Some ((\<lambda>_. [], \<lambda>_. []), False)) 0 \<and>
     pr_pipeline p = None"
proof -
  obtain cfg where c: "Load sample_env = Ok cfg" "pg_Enabled (cfg_Postgres cfg)" "\<not> tk_TCPEnabled (cfg_Teltonika cfg)"
    "\<not> hc_Enabled (cfg_Hooshnics cfg)" using sample_load by blast
  obtain q r where q: "NewRedisQueue log_ops (cfg_Redis cfg) empty_stream = (Ok q, r)"
    using log_queue by blast
  obtain m names where m: "InitMetrics [] = Ok (m, names)" "mt_descs m = metric_descs" using fresh_metrics by blast
  obtain m' where m': "InitWorkerCounts (wc_Count (cfg_Worker cfg)) m = Ok m'"
    using record_event_effect [OF m(2), of "WorkerCounts (wc_Count (cfg_Worker cfg))"] by auto
  obtain w where w: "NewAsyncWriter (Some ((\<lambda>_. [], \<lambda>_. []), False)) 0 = Some w" by (simp add: NewAsyncWriter_def)
  have "start_core sample_outside = Ok p1 \<Longrightarrow> startup sample_outside = andThen (start_mirror sample_outside p1)
      (\<lambda>p. andThen (start_storage sample_outside (start_broadcaster p)) (\<lambda>p. andThen (start_consumer sample_outside p) (start_servers sample_outside)))" for p1
    by (simp add: startup_def)
  moreover obtain p1 where p1: "start_core sample_outside = Ok p1" "pr_cfg p1 = cfg" "pr_metrics p1 = m"
    "pr_mirror p1 = None" "pr_writer p1 = None" "pr_pipeline p1 = None"
    using c(1) q m(1) by (auto simp: start_core_def sample_outside_def or_exit_def no_error_def)
  moreover have "start_mirror sample_outside p1 = Ok p1"
    using p1(2) c(4) by (simp add: start_mirror_def NewForwarder_def mirror_config_def or_exit_def)
  ultimately show ?thesis
    using c(2,3) m' w p1
    by (simp add: start_broadcaster_def NewAsyncBroadcaster_def start_storage_def start_consumer_def start_servers_def opened_def
        sample_outside_def NewServer_def no_error_def Let_def)
qed

theorem shutdown_order_witness:
  "\<exists>p. startup sample_outside = Ok p \<and> before CloseStore CloseWriter (shutdown p) \<and> before CloseFilter CloseQueue (shutdown p)"
proof -
  obtain p where p: "startup sample_outside = Ok p" "pr_mirror p = None" "pr_pipeline p = None" "pr_writer p \<noteq> None"
    using sample_startup by (auto simp: NewAsyncWriter_def)
  have u: "(TheWriter, TheStore) \<in> set uses" "(TheFilter, TheQueue) \<in> set uses" by (simp_all add: uses_def)
  have "{TheWriter, TheStore, TheFilter, TheQueue} \<subseteq> set (pr_opened p)" using startup_shape(1) [OF p(1)] p(4) by simp
  moreover note S = shutdown_order [OF p(1), THEN conjunct2, THEN conjunct2]
  note bspec [OF S u(1)] bspec [OF S u(2)]
  ultimately show ?thesis using p(1) by (simp del: before.simps)
qed

text \<open>
  A write is handed over to the idle writer and the signal arrives: it is finished, and the tables
  are empty.
\<close>

definition sample_success :: writeOp where
  "sample_success = writeOpSuccess [sample_stored_record]"

lemma sample_stop:
  assumes "NewAsyncWriter (Some ((\<lambda>_. [], \<lambda>_. []), False)) 0 = Some w0"
  defines "w \<equiv> enqueue_op sample_success Sent w0"
  defines "w' \<equiv> w\<lparr>aw_db := ((\<lambda>_. [], \<lambda>_. []), True), aw_cancelled := True, aw_closed := True, aw_ch := make_chan 10000,
    aw_finished := [sample_success], aw_returned := True\<rparr>"
  shows "working memory_ops marshal w0 w" "writer_reach (DB_ops memory_ops) marshal (w\<lparr>aw_db := Close_store (aw_db w)\<rparr>) w'"
proof -
  let ?step = "writer_step (DB_ops memory_ops) marshal"
  have w0: "w0 = \<lparr>aw_ch = make_chan 10000, aw_closed = False, aw_cancelled = False, aw_senders = [], aw_current = None,
      aw_returned = False, aw_panicked = False, aw_db = ((\<lambda>_. [], \<lambda>_. []), False), aw_given = [], aw_finished = [], aw_abandoned = []\<rparr>"
    using assms(1) by (simp add: NewAsyncWriter_def defaultWriteQueueSize_def)
  have w: "w = w0\<lparr>aw_ch := \<lparr>queued = [sample_success], bufsize = 10000\<rparr>, aw_given := [sample_success]\<rparr>"
    by (simp add: w_def w0 enqueue_op_def after_select_def sample_success_def make_chan_def try_send_def)
  have "?step w0 w"
    unfolding w_def by (rule give) (simp_all add: w0 select_send_def make_chan_def try_send_def)
  then show "working memory_ops marshal w0 w" by (auto simp: working_def w intro: reach_step reach_init)
  let ?c = "w\<lparr>aw_db := Close_store (aw_db w)\<rparr>"
  let ?c1 = "?c\<lparr>aw_cancelled := True\<rparr>" let ?c2 = "?c1\<lparr>aw_closed := True\<rparr>"
  let ?c3 = "?c2\<lparr>aw_ch := make_chan 10000, aw_current := Some sample_success\<rparr>"
  let ?c4 = "?c3\<lparr>aw_current := None, aw_db := aw_db ?c3, aw_finished := aw_finished ?c3 @ [sample_success]\<rparr>"
  obtain err db where p: "process_op (DB_ops memory_ops) marshal \<lparr>t_sec = 0, t_nsec = 0\<rparr> sample_success (aw_db ?c3) = (err, db)" by (meson surj_pair)
  have "db = aw_db ?c3" using process_op_closed p by (simp add: w w0 Close_store_def)
  note p = p [unfolded this]
  have s1: "?step ?c ?c1" by (rule cancel) (simp_all add: w w0)
  have s2: "?step ?c1 ?c2" by (rule close) (simp_all add: w w0)
  have s3: "?step ?c2 ?c3" by (rule receive) (simp_all add: w w0 try_recv_def make_chan_def)
  have s4: "?step ?c3 ?c4" by (rule writer_step.store [OF _ _ p]) (simp_all add: w w0)
  have s5: "?step ?c4 (?c4\<lparr>aw_returned := True\<rparr>)" by (rule return) (simp_all add: w w0 try_recv_def make_chan_def)
  have e: "?c4\<lparr>aw_returned := True\<rparr> = w'" by (simp add: w'_def w w0 Close_store_def)
  note R = reach_step [where init = "(=) ?c" and step = ?step]
  show "writer_reach (DB_ops memory_ops) marshal ?c w'"
    unfolding e [symmetric] by (rule R [OF R [OF R [OF R [OF R [OF reach_init [where init = "(=) ?c", OF refl] s1] s2] s3] s4] s5])
qed

theorem shutdown_loses_writes_witness:
  "\<exists>p w0 w w'. startup sample_outside = Ok p \<and> pr_writer p = Some w0 \<and> working memory_ops (\<lambda>_. Some []) w0 w \<and>
     stopping memory_ops (\<lambda>_. Some []) (shutdown p) w w' \<and> aw_given w' = [sample_success] \<and> aw_returned w' \<and>
     fst (aw_db w') = (\<lambda>_. [], \<lambda>_. [])"
proof -
  let ?m = "\<lambda>_. Some ([] :: u8 list)"
  obtain p w0 where p: "startup sample_outside = Ok p" "pr_mirror p = None" "pr_pipeline p = None" "pr_writer p = Some w0"
      and w0: "NewAsyncWriter (Some ((\<lambda>_. [], \<lambda>_. []), False)) 0 = Some w0"
    using sample_startup by (auto simp: NewAsyncWriter_def)
  define w where "w = enqueue_op sample_success Sent w0"
  define w' where "w' = w\<lparr>aw_db := ((\<lambda>_. [], \<lambda>_. []), True), aw_cancelled := True, aw_closed := True, aw_ch := make_chan 10000,
    aw_finished := [sample_success], aw_returned := True\<rparr>"
  note S = sample_stop [OF w0, of ?m, folded w_def, folded w'_def]
  have refl: "working memory_ops ?m v v" for v by (simp add: working_def reach_init)
  have calls: "shutdown p = [StopConsumer, ShutdownHttp, CancelShutdown, CloseStore, CloseWriter, CloseBroadcaster, CloseFilter,
      CloseSender, CloseQueue, SyncLogger]"
    using startup_shape(2) [OF p(1)] p(2-4) by (simp add: shutdown_def)
  have "stopping memory_ops ?m (shutdown p) w w'"
    unfolding calls by (intro other [OF _ refl] close_store [OF refl] close_writer [OF S(2)] stopped [OF refl]) (simp_all add: w'_def)
  moreover have np: "\<not> aw_panicked w'" and g: "aw_given w' = [sample_success]" "aw_returned w'"
    using w0 by (auto simp: w'_def w_def enqueue_op_def after_select_def sample_success_def NewAsyncWriter_def)
  moreover note shutdown_loses_writes [OF p(1,4) S(1) calculation(1) np]
  moreover have "fst (aw_db w') = (\<lambda>_. [], \<lambda>_. [])" by (simp add: w'_def)
  ultimately show ?thesis using p(1,4) S(1) by blast
qed

end
