(* ===== verification/Raw_Log.thy ===== *)
theory Raw_Log
  imports Static_Files Record_Queries Reachability
begin

text \<open>
  The log of raw payloads (\<open>internal/rawlog/rawlog.go\<close>): records grouped by device, a buffered
  channel that drops when it is full, and a worker that appends each entry to the file of its
  device and day and drains the channel when the logger is closed.  The JSON encoder, the order in
  which a map is iterated and the answers of the file system are arguments.  No other package
  calls it.
\<close>

section \<open>State\<close>

record logEntry =
  en_imei :: string
  en_data :: string
  en_at :: ztime

text \<open>
  The answer of the file system to one append: the directory or the file cannot be made, or so many
  bytes are written.
\<close>

datatype append_answer = MkdirFailed | OpenFailed | Wrote nat

text \<open>
  The worker has seen the closed channel, and has returned; the files by path; then the history:
  the entries the channel took, the ones it refused, and those the worker took with the answers.
\<close>

record rawLogger =
  rw_baseDir :: string
  rw_ch :: "logEntry chan"
  rw_done :: bool
  rw_draining :: bool
  rw_returned :: bool
  rw_files :: "string \<rightharpoonup> string"
  rw_sent :: "logEntry list"
  rw_dropped :: "logEntry list"
  rw_taken :: "(logEntry \<times> append_answer) list"

definition New_logger :: "bool \<Rightarrow> string \<Rightarrow> int \<Rightarrow> (string \<rightharpoonup> string) \<Rightarrow> rawLogger option" where
  "New_logger enabled baseDir bufferSize files =
     (if \<not> enabled then None
      else Some \<lparr>rw_baseDir = baseDir, rw_ch = make_chan (nat (if bufferSize \<le> 0 then 10000 else bufferSize)), rw_done = False,
        rw_draining = False, rw_returned = False, rw_files = files, rw_sent = [], rw_dropped = [], rw_taken = []\<rparr>)"

section \<open>Files\<close>

text \<open>\<open>filePath\<close>, with the pattern of identifiers that the store has too.\<close>

definition filePath :: "string \<Rightarrow> string \<Rightarrow> ztime \<Rightarrow> string option" where
  "filePath baseDir imei now =
     (if \<not> imeiPattern imei then None else Some (JoinPath [baseDir, imei, FormatDate now @ ''.txt'']))"

definition append_file :: "string \<Rightarrow> string \<Rightarrow> (string \<rightharpoonup> string) \<Rightarrow> (string \<rightharpoonup> string)" where
  "append_file path s files = files(path \<mapsto> (case files path of None \<Rightarrow> [] | Some old \<Rightarrow> old) @ s)"

definition writeEntry :: "append_answer \<Rightarrow> logEntry \<Rightarrow> rawLogger \<Rightarrow> rawLogger" where
  "writeEntry ans entry l =
     (case filePath (rw_baseDir l) (en_imei entry) (en_at entry) of
        None \<Rightarrow> l
      | Some path \<Rightarrow>
          (case ans of
             MkdirFailed \<Rightarrow> l
           | OpenFailed \<Rightarrow> l
           | Wrote n \<Rightarrow> l\<lparr>rw_files := append_file path (take n (en_data entry @ [CHR 0x0A])) (rw_files l)\<rparr>))"

section \<open>Logging\<close>

definition formatPayload :: "(string list \<Rightarrow> string option) \<Rightarrow> string list \<Rightarrow> string option" where
  "formatPayload marshal rawItems = marshal rawItems"

fun byIMEI :: "ParsedGPSData list \<Rightarrow> (string \<rightharpoonup> string list) \<Rightarrow> (string \<rightharpoonup> string list)" where
  "byIMEI [] groups = groups"
| "byIMEI (record # records) groups =
     (if RawData record = [] \<or> \<not> imeiPattern (IMEI record) then byIMEI records groups
      else byIMEI records (groups(IMEI record \<mapsto>
        (case groups (IMEI record) of None \<Rightarrow> [] | Some items \<Rightarrow> items) @ [RawData record])))"

text \<open>
  One \<open>select\<close>: the closed logger, a place in the channel, or neither.  When both are ready either
  may be chosen.
\<close>

datatype offer_outcome = Closed | Accepted | Refused

definition offer_outcomes :: "rawLogger \<Rightarrow> logEntry \<Rightarrow> offer_outcome set" where
  "offer_outcomes l entry =
     (let ready = (if rw_done l then {Closed} else {}) \<union> (if fst (try_send entry (rw_ch l)) then {Accepted} else {})
      in if ready = {} then {Refused} else ready)"

definition after_offer :: "offer_outcome \<Rightarrow> logEntry \<Rightarrow> rawLogger \<Rightarrow> rawLogger" where
  "after_offer out entry l =
     (case out of
        Closed \<Rightarrow> l
      | Accepted \<Rightarrow> l\<lparr>rw_ch := snd (try_send entry (rw_ch l)), rw_sent := rw_sent l @ [entry]\<rparr>
      | Refused \<Rightarrow> l\<lparr>rw_dropped := rw_dropped l @ [entry]\<rparr>)"

text \<open>The loop over the groups in the order of the iteration; it returns when the logger is closed.\<close>

inductive offer_all ::
  "(string list \<Rightarrow> string option) \<Rightarrow> ztime \<Rightarrow> (string \<times> string list) list \<Rightarrow> rawLogger \<Rightarrow> rawLogger \<Rightarrow> bool" for marshal now where
  all_offered: "offer_all marshal now [] l l"
| not_encoded: "formatPayload marshal items = None \<Longrightarrow> offer_all marshal now groups l l' \<Longrightarrow>
    offer_all marshal now ((imei, items) # groups) l l'"
| seen_closed: "formatPayload marshal items = Some payload \<Longrightarrow>
    Closed \<in> offer_outcomes l \<lparr>en_imei = imei, en_data = payload, en_at = now\<rparr> \<Longrightarrow>
    offer_all marshal now ((imei, items) # groups) l l"
| offered: "formatPayload marshal items = Some payload \<Longrightarrow> out \<noteq> Closed \<Longrightarrow>
    out \<in> offer_outcomes l \<lparr>en_imei = imei, en_data = payload, en_at = now\<rparr> \<Longrightarrow>
    offer_all marshal now groups (after_offer out \<lparr>en_imei = imei, en_data = payload, en_at = now\<rparr> l) l' \<Longrightarrow>
    offer_all marshal now ((imei, items) # groups) l l'"

definition LogRecords ::
  "(string list \<Rightarrow> string option) \<Rightarrow> ztime \<Rightarrow> ParsedGPSData list \<Rightarrow> rawLogger \<Rightarrow> rawLogger \<Rightarrow> bool" where
  "LogRecords marshal now records l l' \<longleftrightarrow>
     (if records = [] then l' = l
      else \<exists>groups. distinct (map fst groups) \<and> map_of groups = byIMEI records Map.empty \<and> offer_all marshal now groups l l')"

text \<open>
  The steps of callers, \<open>Close\<close> and the worker: it may choose an entry as long as it has not chosen
  the closed channel, then it drains, and returns when nothing waits.
\<close>

inductive log_step :: "rawLogger \<Rightarrow> rawLogger \<Rightarrow> bool" where
  log_offer: "out \<in> offer_outcomes l entry \<Longrightarrow> imeiPattern (en_imei entry) \<Longrightarrow> log_step l (after_offer out entry l)"
| log_close: "log_step l (l\<lparr>rw_done := True\<rparr>)"
| log_entry: "\<not> rw_returned l \<Longrightarrow> try_recv (rw_ch l) = Some (entry, ch) \<Longrightarrow>
    log_step l ((writeEntry ans entry l)\<lparr>rw_ch := ch, rw_taken := rw_taken l @ [(entry, ans)]\<rparr>)"
| log_see: "rw_done l \<Longrightarrow> log_step l (l\<lparr>rw_draining := True\<rparr>)"
| log_return: "rw_draining l \<Longrightarrow> try_recv (rw_ch l) = None \<Longrightarrow> log_step l (l\<lparr>rw_returned := True\<rparr>)"

section \<open>Where the files are\<close>

lemma Join_nested: "cs \<noteq> [] \<Longrightarrow> Join sep [Join sep cs, a, b] = Join sep (cs @ [a, b])"
  by (induction cs rule: induct_list012) simp_all

lemma format_date_plain: "CHR ''/'' \<notin> set (format_date n)"
  by (auto simp: format_date_def int_pad_def pad_def digits_no is_digit_def split_beta)

text \<open>The file of a device and a day is directly in the directory of the device, below the base.\<close>

lemma filePath_inside:
  assumes "clean_stack cs" and "cs \<noteq> []" and "last cs \<noteq> ''..''" and "imeiPattern imei"
  shows "filePath (Join ''/'' cs) imei now = Some (Join ''/'' (cs @ [imei, FormatDate now @ ''.txt'']))"
proof -
  let ?f = "FormatDate now @ ''.txt''"
  have imei: "imei \<noteq> []" "imei \<noteq> ''.''" "CHR ''/'' \<notin> set imei" "imei \<noteq> ''..''"
    using assms(4) by (auto simp: imeiPattern_def list_all_iff is_digit_def)
  have f: "?f \<noteq> []" "?f \<noteq> ''.''" "CHR ''/'' \<notin> set ?f" "?f \<noteq> ''..''"
    using format_date_plain by (simp_all add: FormatDate_def Let_def append_eq_Cons_conv)
  have "clean_stack (cs @ [imei])" using clean_stack_snoc [OF assms(1) imei(1-3)] imei(4) by simp
  then have "clean_stack ((cs @ [imei]) @ [?f])" using clean_stack_snoc [OF _ f(1-3)] f(4) by blast
  then have "Static_Files.Clean (clean_path (cs @ [imei, ?f])) = clean_path (cs @ [imei, ?f])" using Clean_clean by simp
  moreover have "Join ''/'' cs \<noteq> []" using Join_Nil [OF assms(1)] assms(2) by simp
  ultimately show ?thesis using assms(2,4) by (simp add: filePath_def Join_nested clean_path_def del: Join.simps)
qed

section \<open>What the files hold\<close>

text \<open>The bytes that the entries taken so far have put into a file, in their order.\<close>

fun written :: "string \<Rightarrow> string \<Rightarrow> (logEntry \<times> append_answer) list \<Rightarrow> string" where
  "written baseDir path [] = []"
| "written baseDir path ((entry, ans) # es) =
     (case ans of
        Wrote n \<Rightarrow> if filePath baseDir (en_imei entry) (en_at entry) = Some path then take n (en_data entry @ [CHR 0x0A]) else []
      | _ \<Rightarrow> []) @ written baseDir path es"

definition file_text :: "(string \<rightharpoonup> string) \<Rightarrow> string \<Rightarrow> string" where
  "file_text files path = (case files path of None \<Rightarrow> [] | Some s \<Rightarrow> s)"

definition log_inv :: "(string \<rightharpoonup> string) \<Rightarrow> rawLogger \<Rightarrow> bool" where
  "log_inv files0 l \<longleftrightarrow>
     rw_sent l = map fst (rw_taken l) @ queued (rw_ch l) \<and> (\<forall>e \<in> set (rw_sent l). imeiPattern (en_imei e)) \<and>
     (\<forall>path. file_text (rw_files l) path = file_text files0 path @ written (rw_baseDir l) path (rw_taken l))"

lemma written_snoc: "written b p (es @ [x]) = written b p es @ written b p [x]"
  by (induction es) (auto split: append_answer.splits)

lemma writeEntry_frame:
  "rw_ch (writeEntry ans e l) = rw_ch l" "rw_sent (writeEntry ans e l) = rw_sent l" "rw_taken (writeEntry ans e l) = rw_taken l"
  "rw_baseDir (writeEntry ans e l) = rw_baseDir l"
  by (simp_all add: writeEntry_def split: option.splits append_answer.splits)

lemma writeEntry_text:
  "file_text (rw_files (writeEntry ans e l)) p = file_text (rw_files l) p @ written (rw_baseDir l) p [(e, ans)]"
  by (auto simp: writeEntry_def append_file_def file_text_def split: option.splits append_answer.splits)

lemma log_inv_step: "log_step l l' \<Longrightarrow> log_inv files0 l \<Longrightarrow> log_inv files0 l'"
proof (induction rule: log_step.induct)
  case (log_offer out l entry)
  then show ?case
    by (cases out) (auto simp: after_offer_def log_inv_def offer_outcomes_def ch.contents_send Let_def split: if_splits)
next
  case (log_entry l entry ch ans)
  have "queued (rw_ch l) = entry # queued ch" using ch.recv_Some [OF log_entry(2)] .
  then show ?case using log_entry(3) by (simp add: log_inv_def writeEntry_frame writeEntry_text written_snoc)
qed (simp_all add: log_inv_def)

lemma log_base_step: "log_step l l' \<Longrightarrow> rw_baseDir l' = rw_baseDir l"
proof (induction rule: log_step.induct)
  case (log_offer out l entry)
  then show ?case by (cases out) (simp_all add: after_offer_def)
qed (simp_all add: writeEntry_frame)

interpretation log: conserving_system
  "\<lambda>l. \<exists>baseDir bufferSize. New_logger True baseDir bufferSize files = Some l" log_step "log_inv files" rw_baseDir
  for files :: "string \<rightharpoonup> string"
  by unfold_locales
    (force simp: New_logger_def log_inv_def make_chan_def, rule log_inv_step, simp_all add: log_base_step)

text \<open>\<open>LogRecords\<close> is a sequence of these steps.\<close>

lemma byIMEI_valid:
  "(\<forall>i \<in> dom g. imeiPattern i) \<Longrightarrow> \<forall>i \<in> dom (byIMEI rs g). imeiPattern i"
proof (induction rs g rule: byIMEI.induct)
  case (2 r rs groups)
  show ?case
  proof (cases "RawData r = [] \<or> \<not> imeiPattern (IMEI r)")
    case True
    then show ?thesis using 2(1) [OF True "2.prems"] by simp
  next
    case False
    have "\<forall>i \<in> dom (byIMEI rs (groups(IMEI r \<mapsto>
        (case groups (IMEI r) of None \<Rightarrow> [] | Some items \<Rightarrow> items) @ [RawData r]))). imeiPattern i"
      by (rule 2(2) [OF False]) (use "2.prems" False in \<open>auto split: if_splits\<close>)
    then show ?thesis using False by simp
  qed
qed simp

lemma LogRecords_steps:
  assumes "LogRecords marshal now records l l'"
  shows "reachable ((=) l) log_step l'"
proof (cases "records = []")
  case False
  with assms obtain groups where g: "map_of groups = byIMEI records Map.empty" "distinct (map fst groups)"
    and run: "offer_all marshal now groups l l'" by (auto simp: LogRecords_def)
  have "\<forall>i \<in> dom (map_of groups). imeiPattern i" unfolding g(1) by (rule byIMEI_valid) simp
  then have "\<forall>(i, items) \<in> set groups. imeiPattern i" using g(2) by (auto simp: dom_map_of_conv_image_fst)
  with run show ?thesis
  proof (induction rule: offer_all.induct)
    case (offered items payload out l imei groups l')
    let ?e = "\<lparr>en_imei = imei, en_data = payload, en_at = now\<rparr>"
    have "log_step l (after_offer out ?e l)" using offered.hyps(3) offered.prems by (intro log_offer) auto
    then have "reachable ((=) l) log_step (after_offer out ?e l)" by (intro reach_step [OF reach_init]) auto
    with offered.IH offered.prems show ?case by (auto intro: reachable_from)
  qed (auto intro: reach_init)
qed (use assms in \<open>simp add: LogRecords_def reach_init\<close>)

text \<open>
  Every file holds what it held before and the lines of the accepted entries of its device and day,
  in the order of their acceptance, and nothing else; what the channel accepted and the worker has
  not taken is still in the channel.
\<close>

theorem raw_log_files:
  assumes "New_logger True baseDir bufferSize files = Some l0" and "reachable ((=) l0) log_step l"
  shows "rw_sent l = map fst (rw_taken l) @ queued (rw_ch l) \<and>
    (\<forall>path. file_text (rw_files l) path = file_text files path @ written baseDir path (rw_taken l))"
proof -
  have i: "log_inv files l0" using assms(1) by (intro log.inv_init) blast
  have "rw_baseDir l0 = baseDir" using assms(1) by (auto simp: New_logger_def)
  then show ?thesis using log.inv_from [OF assms(2) i] log.part_from [OF assms(2) i] by (simp add: log_inv_def)
qed

text \<open>
  An entry that a caller offers while the logger is being closed may be accepted after the worker has
  drained the channel: it stays there.
\<close>

lemma returned_step: "log_step l l' \<Longrightarrow> rw_returned l \<Longrightarrow> rw_returned l' \<and> rw_taken l' = rw_taken l \<and> rw_files l' = rw_files l"
proof (induction rule: log_step.induct)
  case (log_offer out l entry)
  then show ?case by (cases out) (simp_all add: after_offer_def)
qed simp_all

interpretation stopped_log: conserving_system rw_returned log_step rw_returned "\<lambda>l. (rw_taken l, rw_files l)"
  by unfold_locales (simp_all add: returned_step)

lemma raw_log_may_lose:
  fixes data now
  assumes "imeiPattern imei"
  defines "e \<equiv> \<lparr>en_imei = imei, en_data = data, en_at = now\<rparr>"
  shows "\<exists>l0 l. New_logger True baseDir 1 Map.empty = Some l0 \<and> reachable ((=) l0) log_step l \<and> rw_sent l = [e] \<and>
    (\<forall>l'. reachable ((=) l) log_step l' \<longrightarrow> rw_taken l' = [] \<and> rw_files l' = Map.empty)"
proof -
  obtain l0 where l0: "New_logger True baseDir 1 Map.empty = Some l0" by (simp add: New_logger_def)
  then have z: "l0 = \<lparr>rw_baseDir = baseDir, rw_ch = make_chan 1, rw_done = False, rw_draining = False, rw_returned = False,
      rw_files = Map.empty, rw_sent = [], rw_dropped = [], rw_taken = []\<rparr>" by (simp add: New_logger_def)
  let ?l1 = "l0\<lparr>rw_done := True\<rparr>" let ?l2 = "?l1\<lparr>rw_draining := True\<rparr>" let ?l3 = "?l2\<lparr>rw_returned := True\<rparr>"
  let ?l4 = "after_offer Accepted e ?l3"
  note R = reach_step [where init = "(=) l0" and step = log_step]
  have 1: "log_step l0 ?l1" by (rule log_close)
  have 2: "log_step ?l1 ?l2" by (rule log_see) simp
  have 3: "log_step ?l2 ?l3" by (rule log_return) (simp_all add: z make_chan_def try_recv_def)
  have 4: "log_step ?l3 ?l4"
    by (rule log_offer) (use assms(1) in \<open>simp_all add: e_def z offer_outcomes_def make_chan_def try_send_def\<close>)
  have "reachable ((=) l0) log_step ?l4"
    by (rule R [OF R [OF R [OF R [OF reach_init [where init = "(=) l0", OF refl] 1] 2] 3] 4])
  moreover have "rw_returned ?l4" "rw_sent ?l4 = [e]" "rw_taken ?l4 = []" "rw_files ?l4 = Map.empty"
    by (simp_all add: after_offer_def z)
  ultimately show ?thesis using l0 stopped_log.part_from [of ?l4] by (intro exI [of _ l0] exI [of _ ?l4]) simp
qed

end
