(* ===== verification/Load_Test.thy ===== *)
theory Load_Test
  imports Go_Duration Go_Sort Go_Time
begin

text \<open>
  The load generator (\<open>cmd/loadtest/main.go\<close>): its settings, the collector of results and the figures
  of the report.  The requests, the limiter and the formatting of the report are left out; the
  results arrive as a list, in the order in which the collector receives them.
\<close>

section \<open>Settings\<close>

definition envOr :: "(string \<Rightarrow> string) \<Rightarrow> string \<Rightarrow> string \<Rightarrow> string" where
  "envOr env key fallback = (if env key \<noteq> [] then env key else fallback)"

text \<open>
  \<open>fmt.Sscanf(s, "%d", \<dots>)\<close>: blanks of ASCII are skipped but not the end of a line, then a sign and at
  least one digit; what follows is not read.
\<close>

fun skip_blanks :: "string \<Rightarrow> string option" where
  "skip_blanks [] = Some []"
| "skip_blanks (c # s) =
     (if c = CHR 0x0A \<or> c = CHR 0x0D \<and> HasPrefix s [CHR 0x0A] then None
      else if c \<in> {CHR '' '', CHR 0x09, CHR 0x0B, CHR 0x0C, CHR 0x0D} then skip_blanks s else Some (c # s))"

definition Sscanf_d :: "string \<Rightarrow> int option" where
  "Sscanf_d s =
     (case skip_blanks s of
        None \<Rightarrow> None
      | Some t \<Rightarrow>
          (let (neg, rest) = strip_sign t; ds = takeWhile is_digit rest in
           if ds = [] then None
           else case Atoi ((if neg then ''-'' else []) @ ds) of (n, None) \<Rightarrow> Some n | _ \<Rightarrow> None))"

definition envInt :: "(string \<Rightarrow> string) \<Rightarrow> string \<Rightarrow> int \<Rightarrow> int" where
  "envInt env key fallback =
     (if env key \<noteq> [] then (case Sscanf_d (env key) of Some n \<Rightarrow> n | None \<Rightarrow> fallback) else fallback)"

text \<open>A number without a unit is seconds, in 64 bits.\<close>

definition wrap64 :: "int \<Rightarrow> int" where
  "wrap64 n = (n + 2 ^ 63) mod 2 ^ 64 - 2 ^ 63"

definition parseDuration :: "string \<Rightarrow> int" where
  "parseDuration s0 =
     (let s = TrimSpace s0 in
      case ParseDuration s of
        Some d \<Rightarrow> d
      | None \<Rightarrow> (case Sscanf_d s of Some secs \<Rightarrow> wrap64 (secs * Second) | None \<Rightarrow> 30 * Second))"

section \<open>Results\<close>

record load_result =
  lr_statusCode :: int
  lr_latency :: int
  lr_err :: bool

record phaseStats =
  ps_total :: int
  ps_success :: int
  ps_errors :: int
  ps_status :: "int \<Rightarrow> int"
  ps_latencies :: "int list"

definition collect_one :: "load_result \<Rightarrow> phaseStats \<Rightarrow> phaseStats" where
  "collect_one r st =
     (let st1 = st\<lparr>ps_total := ps_total st + 1, ps_latencies := ps_latencies st @ [lr_latency r]\<rparr> in
      if lr_err r then st1\<lparr>ps_errors := ps_errors st1 + 1\<rparr>
      else let st2 = st1\<lparr>ps_status := (ps_status st1)(lr_statusCode r := ps_status st1 (lr_statusCode r) + 1)\<rparr> in
        if 200 \<le> lr_statusCode r \<and> lr_statusCode r < 300 then st2\<lparr>ps_success := ps_success st2 + 1\<rparr> else st2)"

definition no_results :: phaseStats where
  "no_results = \<lparr>ps_total = 0, ps_success = 0, ps_errors = 0, ps_status = \<lambda>_. 0, ps_latencies = []\<rparr>"

definition collect :: "load_result list \<Rightarrow> phaseStats" where
  "collect rs = fold collect_one rs no_results"

section \<open>The report\<close>

text \<open>The conversion of a float outside the range of \<open>int\<close> depends on the machine: \<open>overflow\<close>.\<close>

definition int_of_float :: "int \<Rightarrow> float64 \<Rightarrow> int" where
  "int_of_float overflow x =
     (case x of
        Fin s a \<Rightarrow> (let n = (if s then - \<lfloor>a\<rfloor> else \<lfloor>a\<rfloor>) in if - (2 ^ 63) \<le> n \<and> n < 2 ^ 63 then n else overflow)
      | _ \<Rightarrow> overflow)"

definition percentile :: "int \<Rightarrow> int list \<Rightarrow> float64 \<Rightarrow> int" where
  "percentile overflow ds p =
     (if length ds = 0 then 0
      else let idx = int_of_float overflow (f_mul (f_of_int (int (length ds) - 1)) p);
               idx1 = (if idx < 0 then 0 else idx);
               idx2 = (if idx1 \<ge> int (length ds) then int (length ds) - 1 else idx1)
        in ds ! nat idx2)"

definition pct :: "int \<Rightarrow> int \<Rightarrow> float64" where
  "pct part all = (if all = 0 then Fin False 0 else f_mul (f_div (f_of_int part) (f_of_int all)) (f_of_int 100))"

record latency_report =
  lp_min :: int
  lp_percentiles :: "int list"
  lp_max :: int

record load_report =
  lp_non2xx :: int
  lp_codes :: "(int \<times> int) list"
  lp_latency :: "latency_report option"

text \<open>
  The figures of \<open>printReport\<close>: the codes in ascending order with their counts, and the latencies when
  there are any, sorted by \<open>sort.Slice\<close>.
\<close>

definition printReport :: "int \<Rightarrow> int sorter \<Rightarrow> int list \<Rightarrow> phaseStats \<Rightarrow> load_report" where
  "printReport overflow sort_Slice codes st =
     (let ds = sort_Slice (<) (ps_latencies st) in
      \<lparr>lp_non2xx = ps_total st - ps_success st - ps_errors st,
       lp_codes = map (\<lambda>c. (c, ps_status st c)) (sort codes),
       lp_latency = (if ps_latencies st = [] then None
         else Some \<lparr>lp_min = ds ! 0,
           lp_percentiles = map (\<lambda>q. percentile overflow ds (round64 False q)) [50 / 100, 90 / 100, 95 / 100, 99 / 100],
           lp_max = ds ! (length ds - 1)\<rparr>)\<rparr>)"

section \<open>What the report says\<close>

definition with_code :: "(int \<Rightarrow> bool) \<Rightarrow> load_result list \<Rightarrow> nat" where
  "with_code P rs = length (filter (\<lambda>r. \<not> lr_err r \<and> P (lr_statusCode r)) rs)"

lemma collect_snoc: "collect (rs @ [r]) = collect_one r (collect rs)"
  by (simp add: collect_def)

text \<open>The counters of the collector count.\<close>

lemma collect_counts:
  "ps_total (collect rs) = int (length rs) \<and> ps_latencies (collect rs) = map lr_latency rs \<and>
   ps_errors (collect rs) = int (length (filter lr_err rs)) \<and>
   (\<forall>c. ps_status (collect rs) c = int (with_code (\<lambda>c'. c' = c) rs)) \<and>
   ps_success (collect rs) = int (with_code (\<lambda>c. 200 \<le> c \<and> c < 300) rs)"
proof (induction rs rule: rev_induct)
  case Nil
  then show ?case by (simp add: collect_def no_results_def with_code_def)
next
  case (snoc r rs)
  then show ?case by (auto simp: collect_snoc collect_one_def with_code_def Let_def)
qed

text \<open>What is neither successful nor an error is an answer of another status.\<close>

lemma report_non2xx:
  "lp_non2xx (printReport overflow sort_Slice codes (collect rs)) = int (with_code (\<lambda>c. \<not> (200 \<le> c \<and> c < 300)) rs)"
proof -
  have "int (length rs) = int (length (filter lr_err rs)) + int (with_code (\<lambda>c. 200 \<le> c \<and> c < 300) rs) +
      int (with_code (\<lambda>c. \<not> (200 \<le> c \<and> c < 300)) rs)"
    by (induction rs) (auto simp: with_code_def)
  then show ?thesis using collect_counts [of rs] by (simp add: printReport_def Let_def)
qed

text \<open>A percentile is one of the values, whatever the machine makes of the index.\<close>

lemma percentile_in: "ds \<noteq> [] \<Longrightarrow> percentile overflow ds p \<in> set ds"
  by (auto simp: percentile_def Let_def nat_less_iff intro!: nth_mem)

lemma report_percentiles:
  assumes "slice_sort sort_Slice" and "rs \<noteq> []" and "lp_latency (printReport overflow sort_Slice codes (collect rs)) = Some lat"
  shows "lp_min lat \<in> lr_latency ` set rs \<and> lp_max lat \<in> lr_latency ` set rs \<and>
    (\<forall>l \<in> lr_latency ` set rs. lp_min lat \<le> l \<and> l \<le> lp_max lat) \<and>
    (\<forall>q \<in> set (lp_percentiles lat). q \<in> lr_latency ` set rs)"
proof -
  let ?ls = "map lr_latency rs" let ?ds = "sort_Slice (<) ?ls"
  have l: "ps_latencies (collect rs) = ?ls" using collect_counts by blast
  have set: "set ?ds = lr_latency ` set rs" using slice_sort.set_sort [OF assms(1), of "(<)" ?ls] by simp
  have ne: "?ds \<noteq> []" using slice_sort.length_sort [OF assms(1), of "(<)" ?ls] assms(2) by auto
  have "sorted ?ds" using slice_sort.ordered_key [OF assms(1), of "(<)" "\<lambda>x. x" ?ls] by simp
  then have ord: "?ds ! 0 \<le> x" "x \<le> ?ds ! (length ?ds - 1)" if "x \<in> set ?ds" for x
    using that by (auto simp: in_set_conv_nth sorted_iff_nth_mono)
  have lat: "lat = \<lparr>lp_min = ?ds ! 0,
      lp_percentiles = map (\<lambda>q. percentile overflow ?ds (round64 False q)) [50 / 100, 90 / 100, 95 / 100, 99 / 100],
      lp_max = ?ds ! (length ?ds - 1)\<rparr>"
    using assms(3) by (simp add: printReport_def l Let_def split: if_splits)
  have "?ds ! 0 \<in> set ?ds" "?ds ! (length ?ds - 1) \<in> set ?ds" using ne by simp_all
  then show ?thesis unfolding lat set [symmetric] using percentile_in [OF ne] ord by simp
qed

text \<open>A setting that is no duration but begins with a number is that many seconds.\<close>

lemma scanned: "Sscanf_d ''45 s'' = Some 45" "Sscanf_d ''soon'' = None"
  by (simp_all add: Sscanf_d_def strip_sign_def is_digit_def Atoi_def ParseUint_def digit_of_def HasPrefix_def)

lemma parseDuration_seconds:
  assumes "ParseDuration (TrimSpace s) = None" and "Sscanf_d (TrimSpace s) = Some secs" and "\<bar>secs\<bar> \<le> 9223372036"
  shows "parseDuration s = secs * Second"
  using assms by (simp add: parseDuration_def Let_def wrap64_def)

end
