(* ===== verification/Limiter_Properties.thy ===== *)
theory Limiter_Properties
  imports Api_Middleware Stoppage_Filter
begin

text \<open>
  What the sharded rate limiter of \<open>internal/api/middleware.go\<close> promises: every client has a limiter
  of its own.  The specification runs one limiter on the requests of one client and forgets it when a
  clean-up finds it unused for ten minutes; the shards, the other clients and the hash of the address
  do not appear in it.
\<close>

section \<open>The limiter under requests and clean-ups\<close>

text \<open>
  A request reads the clock in \<open>getLimiter\<close> and again in \<open>Allow\<close>; a tick of the clean-up reads it once.
\<close>

datatype limiter_event = Asked int int string | Swept int

fun limiter_run :: "'l limiter_ops \<Rightarrow> limiter_event list \<Rightarrow> 'l RateLimiter \<Rightarrow> (string \<times> bool) list \<times> 'l RateLimiter" where
  "limiter_run ops [] rl = ([], rl)"
| "limiter_run ops (Asked now later ip # es) rl =
     (let (ok, rl1) = allow_client ops now later ip rl; (answers, rl2) = limiter_run ops es rl1
      in ((ip, ok) # answers, rl2))"
| "limiter_run ops (Swept now # es) rl = limiter_run ops es (cleanup_tick now rl)"

section \<open>The specification: one client, one limiter\<close>

fun concerns :: "string \<Rightarrow> limiter_event \<Rightarrow> bool" where
  "concerns ip (Asked now later ip') \<longleftrightarrow> ip' = ip"
| "concerns ip (Swept now) \<longleftrightarrow> True"

text \<open>The state is the client's limiter with the time it was last used.\<close>

fun client_run :: "'l limiter_ops \<Rightarrow> 'l \<Rightarrow> limiter_event list \<Rightarrow> ('l \<times> int) option \<Rightarrow> bool list \<times> ('l \<times> int) option" where
  "client_run ops full [] st = ([], st)"
| "client_run ops full (Asked now later ip # es) st =
     (let (ok, limiter) = lo_allow ops later (case st of Some (l, _) \<Rightarrow> l | None \<Rightarrow> full);
          (answers, st') = client_run ops full es (Some (limiter, now))
      in (ok # answers, st'))"
| "client_run ops full (Swept now # es) st =
     client_run ops full es (case st of
       Some (l, seen) \<Rightarrow> if seen < now - 10 * Minute then None else st | None \<Rightarrow> None)"

definition client_state :: "'l RateLimiter \<Rightarrow> string \<Rightarrow> ('l \<times> int) option" where
  "client_state rl ip = map_option (\<lambda>e. (le_limiter e, le_lastSeen e)) (limiter_entries rl ip)"

lemma allow_client_step:
  assumes "limiter_ok rl" and "allow_client ops now later ip rl = (ok, rl')"
    and "lo_allow ops later (case client_state rl ip of Some (l, _) \<Rightarrow> l | None \<Rightarrow> lo_new ops (rl_rate rl) (rl_burst rl)) = (ok', l')"
  shows "ok = ok'" and "limiter_ok rl'" and "rl_rate rl' = rl_rate rl" and "rl_burst rl' = rl_burst rl"
    and "client_state rl' ip' = (if ip' = ip then Some (l', now) else client_state rl ip')"
proof -
  have "ok = ok' \<and> limiter_ok rl' \<and> rl_rate rl' = rl_rate rl \<and> rl_burst rl' = rl_burst rl \<and>
      client_state rl' ip' = (if ip' = ip then Some (l', now) else client_state rl ip')"
    using assms
    by (cases "limiter_entries rl ip")
      (auto simp: allow_client_def getLimiter_entries client_state_def entries_put limiter_ok_put Let_def split: prod.splits)
  then show "ok = ok'" and "limiter_ok rl'" and "rl_rate rl' = rl_rate rl" and "rl_burst rl' = rl_burst rl"
    and "client_state rl' ip' = (if ip' = ip then Some (l', now) else client_state rl ip')" by blast+
qed

lemma cleanup_tick_step:
  assumes "limiter_ok rl"
  shows "client_state (cleanup_tick now rl) ip = (case client_state rl ip of
      Some (l, seen) \<Rightarrow> if seen < now - 10 * Minute then None else client_state rl ip | None \<Rightarrow> None)"
  using assms by (simp add: client_state_def entries_cleanup split: option.splits)

lemma limiter_run_client:
  assumes "limiter_ok rl" and "limiter_run ops es rl = (answers, rl')"
    and "client_run ops (lo_new ops (rl_rate rl) (rl_burst rl)) (filter (concerns ip) es) (client_state rl ip) = (own, st)"
  shows "map snd (filter (\<lambda>(i, _). i = ip) answers) = own \<and> client_state rl' ip = st \<and> limiter_ok rl'"
  using assms
proof (induction es arbitrary: rl answers own)
  case (Cons e es)
  show ?case
  proof (cases e)
    case (Asked now later i)
    obtain ok rl1 where a: "allow_client ops now later i rl = (ok, rl1)" by fastforce
    obtain ok' l' where l: "lo_allow ops later (case client_state rl i of Some (l, _) \<Rightarrow> l
        | None \<Rightarrow> lo_new ops (rl_rate rl) (rl_burst rl)) = (ok', l')" by fastforce
    note step = allow_client_step [OF Cons.prems(1) a l]
    obtain rest where r: "limiter_run ops es rl1 = (rest, rl')" "answers = (i, ok) # rest"
      using Cons.prems(2) a Asked by (auto split: prod.splits)
    show ?thesis
    proof (cases "i = ip")
      case True
      then obtain own' where o: "own = ok # own'" "client_run ops (lo_new ops (rl_rate rl1) (rl_burst rl1))
          (filter (concerns ip) es) (client_state rl1 ip) = (own', st)"
        using Cons.prems(3) Asked l step by (auto split: prod.splits)
      then show ?thesis using Cons.IH [OF step(2) r(1) o(2)] True r(2) by simp
    next
      case False
      then show ?thesis using Cons.IH [OF step(2) r(1), of own] Cons.prems(3) Asked step r(2) by auto
    qed
  next
    case (Swept now)
    have "rl_rate (cleanup_tick now rl) = rl_rate rl" "rl_burst (cleanup_tick now rl) = rl_burst rl"
      by (simp_all add: cleanup_tick_def Let_def)
    then show ?thesis
      using Cons.IH [OF limiter_ok_cleanup [OF Cons.prems(1)], of now answers own] Cons.prems(2,3)
      by (simp add: Swept cleanup_tick_step [OF Cons.prems(1)])
  qed
qed auto

section \<open>Properties\<close>

text \<open>
  C35: The sharded rate limiter refines one limiter per client: whatever the requests of the other
  clients and the clean-ups between them, the answers to a client are those of a limiter that only
  this client uses, full at its first request and again when a clean-up has found it unused for ten
  minutes; and the shards keep holding one map.
\<close>

theorem limiter_refines_clients:
  "map snd (filter (\<lambda>(i, _). i = ip) (fst (limiter_run ops es (NewRateLimiter r b)))) =
      fst (client_run ops (lo_new ops r b) (filter (concerns ip) es) None) \<and>
    limiter_ok (snd (limiter_run ops es (NewRateLimiter r b)))"
proof -
  let ?rl = "NewRateLimiter r b"
  obtain answers rl' where run: "limiter_run ops es ?rl = (answers, rl')" by fastforce
  have new: "client_state ?rl ip = None" "rl_rate ?rl = r" "rl_burst ?rl = b"
    by (simp_all add: client_state_def entries_new) (simp_all add: NewRateLimiter_def)
  obtain own st where own: "client_run ops (lo_new ops r b) (filter (concerns ip) es) None = (own, st)" by fastforce
  show ?thesis using limiter_run_client [OF limiter_ok_new run, of ip own st] by (simp add: run own new)
qed

text \<open>The shard of a client is the shard the stoppage filter would choose.\<close>

lemma getShard_shardIndex: "getShard ip = shardIndex ip"
  by (simp add: getShard_mod shardIndex_def fnv32a_def shardCount_def)

end
