(* ===== verification/Spec2Isabelle.thy ===== *)
theory Spec2Isabelle
  imports Parser_Properties Sanitizer Stoppage_Filter Sender_Properties Retry_Delay
    Config Tcp_Properties Tcp_Pipeline Consumer_Properties Handler_Properties End_To_End Request_Tracker Hooshnics_Forwarder Api_Properties
    Async_Writer Query_Witnesses Static_Files Metrics Process_Properties Raw_Log Load_Test
    Limiter_Properties
begin

text \<open>
  A verification development for the GPS data receiver (the Go service under \<open>src/cmd/server\<close> and
  \<open>src/internal\<close>).

  \<^bold>\<open>The program.\<close>  Devices report positions in two ways: as HTTP posts of JSON text or of binary
  Teltonika packets (\<open>internal/api\<close>), and over TCP in the Teltonika protocol
  (\<open>internal/teltonika\<close>).  Both ways end in one Redis stream (\<open>internal/queue\<close>), TCP frames through a
  pipeline of workers after they were acknowledged.  The consumer's workers read the stream in
  batches and give each message to the message handler of \<open>cmd/server/main.go\<close>, which parses it
  (\<open>internal/parser\<close> after \<open>internal/sanitizer\<close>), drops repeated stoppages (\<open>internal/filter\<close>), sends
  the rest to one of the destination servers (\<open>internal/sender\<close>) and hands what it did to the
  PostgreSQL writer (\<open>internal/storage\<close>), the browser broadcast and the metrics.  A mirror
  (\<open>internal/hooshnics\<close>) gets a copy of raw and parsed data.  Stored records are read back through
  query handlers.  Every part is configured by \<open>internal/config\<close>.

  \<^bold>\<open>Conventions.\<close>  A Go function is a definition of the same name (with a suffix where HOL or another
  part has the name).  A function that returns an error or may panic has the type \<open>result\<close>: \<open>Ok\<close>,
  \<open>Err\<close> with a value of a datatype of the errors, or \<open>Panic\<close>.  State is a record that is passed and
  returned; goroutines that share state are inductive step relations over it, and their
  properties hold for every interleaving.  Code outside the repository (the Redis server and its
  client, PostgreSQL, the HTTP exchange, the JSON library, clocks, random numbers, the time zone
  database) is an argument: a record of operations on a state of any type, with what the program
  relies on stated as laws, and with a concrete instance for which the laws are proved and on
  which the witnesses run.  Slices carry their spare capacity, machine integers are words or
  integers with the wrap-around written out, floating-point numbers are IEEE binary64 values.
  Strings are lists of bytes written as characters.

  \<^bold>\<open>The language and its library.\<close>  \<open>Go_Base\<close> (results, slices, big-endian words, channels with the
  locale \<open>nb_channel\<close> of a non-blocking channel), \<open>Go_Strings\<close>, \<open>Go_Strconv\<close>, \<open>Go_Float\<close>, \<open>Go_Time\<close> and
  \<open>Go_Time_Facts\<close> (the calendar, formatting and order of dates; times are a \<open>linorder\<close>), \<open>Go_Duration\<close>, \<open>Go_Sort\<close> (the locale
  \<open>slice_sort\<close> of what \<open>sort.Slice\<close> promises).  \<open>Reachability\<close> has the states that a step relation reaches
  and the locales \<open>invariant_system\<close> and \<open>conserving_system\<close>, interpreted on the queue, the writer, the
  mirror, the tracker, the raw log and the closed database.  \<open>Sharded_Map\<close> has the locale \<open>sharded_map\<close>
  of a map kept in shards, interpreted on the stoppage filter and on the rate limiter.

  \<^bold>\<open>The parts.\<close>
  \<^item> \<open>Crc16\<close>, \<open>Teltonika_Codec\<close>: \<open>teltonika/codec\<close>, from the checksum to whole packets.  \<open>Codec_Safety\<close> has the
    bounds of every step of the decoder, \<open>Teltonika_Encoder\<close> a reference encoder of the three
    codecs, \<open>Codec_Properties\<close> what accepted packets are, the round trip, and exactly when the decoder
    panics.
  \<^item> \<open>Gps_Parser\<close>, \<open>Teltonika_Parser\<close>: \<open>parser/parser.go\<close> and \<open>parser/teltonika.go\<close>; \<open>Gps_Parser_Facts\<close>,
    \<open>Coordinates\<close> and \<open>Parser_Properties\<close> have the recovery of objects from malformed text, the rounding
    errors of coordinates, the order of records and the envelope.  \<open>Sanitizer\<close>: \<open>sanitizer.go\<close>.
  \<^item> \<open>Stoppage_Filter\<close>: \<open>filter/stoppage_filter.go\<close>, refined to one map from devices to their last state.
  \<^item> \<open>Http_Sender\<close>, \<open>Sender_Properties\<close>, \<open>Retry_Delay\<close>: \<open>internal/sender\<close>; attempts, pauses, delays.
  \<^item> \<open>Config\<close>: \<open>config/config.go\<close>.
  \<^item> \<open>Tcp_Session\<close>, \<open>Tcp_Properties\<close>, \<open>Tcp_Pipeline\<close>: \<open>teltonika/tcp\<close>; one session against any peer, and the
    workers behind it.
  \<^item> \<open>Redis_Queue\<close>, \<open>Queue_Consumer\<close>, \<open>Consumer_Properties\<close>: \<open>internal/queue\<close>; batches of workers, the
    reclaimer and the producers interleave as \<open>qstep\<close>.
  \<^item> \<open>Message_Handler\<close>, \<open>Handler_Properties\<close>: the handler of \<open>main.go\<close> with everything it causes in order.
    \<open>End_To_End\<close> follows records from a TCP frame into the handler.
  \<^item> \<open>Request_Tracker\<close>: \<open>tracking/request_tracker.go\<close>.  \<open>Hooshnics_Forwarder\<close>: \<open>hooshnics/forwarder.go\<close>.
  \<^item> \<open>Api_Handler\<close>, \<open>Api_Middleware\<close>, \<open>Api_Properties\<close>: \<open>api/handler.go\<close>, \<open>api/middleware.go\<close> and the chain and
    routes of \<open>main.go\<close>.  \<open>Limiter_Properties\<close> refines the sharded rate limiter to one limiter per client.
  \<^item> \<open>Postgres_Store\<close>, \<open>Async_Writer\<close>: the writing half of \<open>storage/postgres.go\<close> and \<open>storage/async_writer.go\<close>.
    \<open>Record_Queries\<close>, \<open>Query_Properties\<close>, \<open>Query_Witnesses\<close>: its reading half with the handlers
    \<open>analysis.go\<close>, \<open>path.go\<close>, \<open>failed.go\<close> and \<open>invalid.go\<close>; the SQL text is translated to functions of the
    tables.
  \<^item> \<open>Static_Files\<close>: the files served to browsers (\<open>main.go\<close>).  \<open>Metrics\<close>: \<open>metrics/metrics.go\<close>.
  \<^item> \<open>Process\<close>, \<open>Process_Properties\<close>: the rest of \<open>main.go\<close>, which creates the parts above in order, each with
    its way to fail, ticks, and stops them; and what the order of the stops does to waiting writes.
  \<^item> \<open>Raw_Log\<close>: \<open>rawlog/rawlog.go\<close>, which no other package calls.  \<open>Load_Test\<close>: the settings, the collector
    and the report of \<open>cmd/loadtest/main.go\<close>.

  \<^bold>\<open>What is shown.\<close>  Nothing is lost on the way, or it is shown where: a TCP job exists only after its
  acknowledgement was written, the pipeline keeps every job that it does not count as dropped, the
  stream keeps a message until the handler accepted it or its deliveries are used up, the handler
  keeps a message exactly when no destination took the records that remain, the filter removes
  exactly repeated stoppages, the mirror and the writer account for everything handed to them, the
  store appends exactly the rows of its records, and the queries return exactly the rows of a day,
  of a page or of a path.  Data is right: decoders invert encoders, coordinates are accurate,
  records come in order of time.  Guards hold: rate limits, whitelists, content types, pauses,
  paths of files.  Some theorems state flaws that the models exposed: a decoder that panics on a
  short record, backpressure that never ends, stoppages lost by a redelivery, a day without
  records when the clock is set back, database writes lost at every shutdown.

  \<^bold>\<open>Bounds and fuel.\<close>  No definition runs on fuel.  Recursions are structural or on a
  decreasing measure: the session loop on the bytes that its peer may still send, of which each
  frame takes at least one (\<open>session_bounded\<close> bounds the whole session by a thirteenth of them);
  the loops of attempts count down the configured
  maximum.  Counters of messages, depths and durations are integers where the code's 64 bits cannot
  overflow in practice, and words or wrap-around where the code's arithmetic may (durations from
  headers, the backpressure limit, lengths in packets).

  \<^bold>\<open>Not modelled.\<close>  Log lines and the logger, which have no effect on data; opening of connections and
  the database schema; Socket.IO and the gin engine, which are third-party code; socket options and
  the accept loop; signals and the timeout of the HTTP server's shutdown; the packet type of
  \<open>internal/models\<close>, which nothing uses; the requests and the printing of the load generator.
\<close>

end
